(* ===== verification/Go_Prelude.thy ===== *)
theory Go_Prelude
  imports Main "HOL-Library.Word" "HOL-Library.Char_ord"
begin

text \<open>
  The prelude of the development: what every other theory shares.

  \<^item> The computation type \<open>prog\<close>: a Go function body that may panic, may change the world it
    runs in, and may fail to return (\<open>None\<close>: it loops or blocks for ever).
  \<^item> The few operations of Go's \<open>strings\<close> package the sources call. Strings are lists of bytes;
    case folding and white space are those of ASCII, so texts outside ASCII are not covered.
  \<^item> Durations and instants, counted in nanoseconds like \<open>time.Duration\<close>.
\<close>

named_theorems prog_simps \<open>unfolding rules of the computation combinators\<close>

section \<open>Computations\<close>

datatype 'a res = Ret 'a | Panic

type_synonym ('a, 'w) prog = "'w \<Rightarrow> ('a res \<times> 'w) option"

definition pret :: "'a \<Rightarrow> ('a, 'w) prog" where
  "pret a = (\<lambda>w. Some (Ret a, w))"

definition ppanic :: "('a, 'w) prog" where
  "ppanic = (\<lambda>w. Some (Panic, w))"

definition pbind :: "('a, 'w) prog \<Rightarrow> ('a \<Rightarrow> ('b, 'w) prog) \<Rightarrow> ('b, 'w) prog" where
  "pbind m k = (\<lambda>w. case m w of
       None \<Rightarrow> None
     | Some (r, w') \<Rightarrow> (case r of Ret a \<Rightarrow> k a w' | Panic \<Rightarrow> Some (Panic, w')))"

text \<open>\<open>precover d m\<close> is \<open>m\<close> under a deferred \<open>recover()\<close> that makes the results be \<open>d\<close>.\<close>

definition precover :: "'a \<Rightarrow> ('a, 'w) prog \<Rightarrow> ('a, 'w) prog" where
  "precover d m = (\<lambda>w. case m w of
       None \<Rightarrow> None
     | Some (r, w') \<Rightarrow> Some (Ret (case r of Ret a \<Rightarrow> a | Panic \<Rightarrow> d), w'))"

definition pget :: "('w \<Rightarrow> 'a) \<Rightarrow> ('a, 'w) prog" where
  "pget f = (\<lambda>w. Some (Ret (f w), w))"

definition pmodify :: "('w \<Rightarrow> 'w) \<Rightarrow> (unit, 'w) prog" where
  "pmodify f = (\<lambda>w. Some (Ret (), f w))"

definition pres :: "'a res \<Rightarrow> ('a, 'w) prog" where
  "pres r = (\<lambda>w. Some (r, w))"

fun rbind :: "'a res \<Rightarrow> ('a \<Rightarrow> 'b res) \<Rightarrow> 'b res" where
  "rbind (Ret a) k = k a"
| "rbind Panic k = Panic"

text \<open>\<open>returns m\<close>: the call comes back, with a value or with a panic, from every world.\<close>

definition returns :: "('a, 'w) prog \<Rightarrow> bool" where
  "returns m \<longleftrightarrow> (\<forall>w. m w \<noteq> None)"

text \<open>\<open>keeps f m\<close>: the call leaves the component \<open>f\<close> of the world as it was.\<close>

definition keeps :: "('w \<Rightarrow> 'b) \<Rightarrow> ('a, 'w) prog \<Rightarrow> bool" where
  "keeps f m \<longleftrightarrow> (\<forall>w r w'. m w = Some (r, w') \<longrightarrow> f w' = f w)"

text \<open>\<open>calm m\<close>: the call never panics.\<close>

definition calm :: "('a, 'w) prog \<Rightarrow> bool" where
  "calm m \<longleftrightarrow> (\<forall>w w'. m w \<noteq> Some (Panic, w'))"

lemma pret_apply [simp, prog_simps]: "pret a w = Some (Ret a, w)"
  by (simp add: pret_def)

lemma ppanic_apply [simp, prog_simps]: "ppanic w = Some (Panic, w)"
  by (simp add: ppanic_def)

lemma pget_apply [simp, prog_simps]: "pget f w = Some (Ret (f w), w)"
  by (simp add: pget_def)

lemma pmodify_apply [simp, prog_simps]: "pmodify f w = Some (Ret (), f w)"
  by (simp add: pmodify_def)

lemma pres_apply [simp, prog_simps]: "pres r w = Some (r, w)"
  by (simp add: pres_def)

lemma pbind_apply [prog_simps]:
  "pbind m k w = (case m w of
       None \<Rightarrow> None
     | Some (r, w') \<Rightarrow> (case r of Ret a \<Rightarrow> k a w' | Panic \<Rightarrow> Some (Panic, w')))"
  by (simp add: pbind_def)

lemma precover_apply [prog_simps]:
  "precover d m w = (case m w of
       None \<Rightarrow> None
     | Some (r, w') \<Rightarrow> Some (Ret (case r of Ret a \<Rightarrow> a | Panic \<Rightarrow> d), w'))"
  by (simp add: precover_def)

lemma pbind_pret [simp]: "pbind (pret a) k = k a"
  by (rule ext) (simp add: pbind_apply)

lemma pbind_ppanic [simp]: "pbind ppanic k = ppanic"
  by (rule ext) (simp add: pbind_apply)

lemma precover_pret [simp]: "precover d (pret a) = pret a"
  by (rule ext) (simp add: precover_apply)

lemma precover_ppanic [simp]: "precover d ppanic = pret d"
  by (rule ext) (simp add: precover_apply)

lemma pbind_pret_result: "pbind m (\<lambda>_. pret y) w = Some (Ret x, w') \<Longrightarrow> x = y"
  by (auto simp: pbind_apply split: option.splits res.splits)

lemma pbind_eq_NoneE:
  assumes "pbind m k w = None"
  obtains "m w = None"
  | a w' where "m w = Some (Ret a, w')" "k a w' = None"
  using assms by (auto simp: pbind_apply split: option.splits res.splits)

lemma pbind_eq_SomeE:
  assumes "pbind m k w = Some (r, w'')"
  obtains a w' where "m w = Some (Ret a, w')" "k a w' = Some (r, w'')"
  | "m w = Some (Panic, w'')" "r = Panic"
  using assms by (auto simp: pbind_apply split: option.splits res.splits)

lemma returnsI [intro?]: "(\<And>w. m w \<noteq> None) \<Longrightarrow> returns m"
  by (simp add: returns_def)

lemma returns_pret [simp, intro]: "returns (pret a)"
  and returns_Ret [simp, intro]: "returns (\<lambda>w. Some (Ret a, w))"
  and returns_ppanic [simp, intro]: "returns ppanic"
  and returns_pget [simp, intro]: "returns (pget f)"
  and returns_pmodify [simp, intro]: "returns (pmodify g)"
  and returns_pres [simp, intro]: "returns (pres r)"
  by (simp_all add: returns_def)

lemma returns_pbind [intro]: "returns m \<Longrightarrow> (\<And>a. returns (k a)) \<Longrightarrow> returns (pbind m k)"
  by (fastforce simp: returns_def pbind_apply split: option.splits res.splits)

lemma returns_pbind':
  "returns m \<Longrightarrow> (\<And>a w w'. m w = Some (Ret a, w') \<Longrightarrow> k a w' \<noteq> None) \<Longrightarrow> returns (pbind m k)"
  by (fastforce simp: returns_def pbind_apply split: option.splits res.splits)

lemma returnsD: "returns m \<Longrightarrow> m w \<noteq> None"
  by (simp add: returns_def)

lemma returns_precover [simp, intro]: "returns m \<Longrightarrow> returns (precover d m)"
  by (fastforce simp: returns_def precover_apply split: option.splits)

lemma keepsI [intro?]: "(\<And>w r w'. m w = Some (r, w') \<Longrightarrow> f w' = f w) \<Longrightarrow> keeps f m"
  by (simp add: keeps_def)

lemma keepsD: "keeps f m \<Longrightarrow> m w = Some (r, w') \<Longrightarrow> f w' = f w"
  by (simp add: keeps_def)

lemma keeps_pret [simp, intro]: "keeps f (pret a)"
  and keeps_Ret [simp, intro]: "keeps f (\<lambda>w. Some (Ret a, w))"
  and keeps_ppanic [simp, intro]: "keeps f ppanic"
  and keeps_pget [simp, intro]: "keeps f (pget g)"
  and keeps_pres [simp, intro]: "keeps f (pres r)"
  by (simp_all add: keeps_def)

lemma keeps_pbind [intro]: "keeps f m \<Longrightarrow> (\<And>a. keeps f (k a)) \<Longrightarrow> keeps f (pbind m k)"
  unfolding keeps_def by (fastforce elim!: pbind_eq_SomeE)

lemma keeps_precover [simp, intro]: "keeps f m \<Longrightarrow> keeps f (precover d m)"
  by (fastforce simp: keeps_def precover_apply split: option.splits)

lemma calm_pret [simp, intro]: "calm (pret a)"
  and calm_Ret [simp, intro]: "calm (\<lambda>w. Some (Ret a, w))"
  and calm_pget [simp, intro]: "calm (pget f)"
  and calm_pmodify [simp, intro]: "calm (pmodify g)"
  by (simp_all add: calm_def)

lemma calm_precover [simp, intro]: "calm (precover d m)"
  by (auto simp: calm_def precover_apply split: option.splits)

lemma calm_pbind [intro]: "calm m \<Longrightarrow> (\<And>a. calm (k a)) \<Longrightarrow> calm (pbind m k)"
  by (fastforce simp: calm_def pbind_apply split: option.splits res.splits)

lemma calmD: "calm m \<Longrightarrow> m w \<noteq> Some (Panic, w')"
  by (simp add: calm_def)

lemma calm_SomeE:
  assumes "calm m" and "m w = Some (r, w')"
  obtains a where "r = Ret a"
  using assms by (cases r) (auto simp: calm_def)

lemma calm_bind_SomeE:
  assumes "pbind m k w = Some (r, w'')" and "calm m"
  obtains a w' where "m w = Some (Ret a, w')" "k a w' = Some (r, w'')"
  using assms by (auto elim!: pbind_eq_SomeE simp: calm_def)

section \<open>Strings\<close>

definition lower_char :: "char \<Rightarrow> char" where
  "lower_char c =
     (let n = of_char c :: nat in if 65 \<le> n \<and> n \<le> 90 then char_of (n + 32) else c)"

definition to_lower :: "string \<Rightarrow> string" where
  "to_lower = map lower_char"

definition is_space :: "char \<Rightarrow> bool" where
  "is_space c = (let n = of_char c :: nat in n = 32 \<or> (9 \<le> n \<and> n \<le> 13))"

definition trim_right :: "(char \<Rightarrow> bool) \<Rightarrow> string \<Rightarrow> string" where
  "trim_right P s = rev (dropWhile P (rev s))"

definition trim_space :: "string \<Rightarrow> string" where
  "trim_space s = trim_right is_space (dropWhile is_space s)"

definition has_prefix :: "string \<Rightarrow> string \<Rightarrow> bool" where
  "has_prefix s p \<longleftrightarrow> take (length p) s = p"

fun str_contains :: "string \<Rightarrow> string \<Rightarrow> bool" where
  "str_contains [] p \<longleftrightarrow> p = []"
| "str_contains (c # s) p \<longleftrightarrow> has_prefix (c # s) p \<or> str_contains s p"

text \<open>The verb \<open>%d\<close> for a number that is not negative.\<close>

fun show_nat :: "nat \<Rightarrow> string" where
  "show_nat n = (if n < 10 then [char_of (48 + n)]
                 else show_nat (n div 10) @ [char_of (48 + n mod 10)])"

declare show_nat.simps [simp del]

lemma of_char_lower_char:
  "of_char (lower_char c) = (let n = of_char c :: nat in if 65 \<le> n \<and> n \<le> 90 then n + 32 else n)"
  by (auto simp: lower_char_def Let_def)

lemma lower_char_idem [simp]: "lower_char (lower_char c) = lower_char c"
  using of_char_lower_char [of c]
  by (auto simp: lower_char_def [of "lower_char c"] Let_def split: if_splits)

lemma to_lower_idem [simp]: "to_lower (to_lower s) = to_lower s"
  by (simp add: to_lower_def)

lemma is_space_lower_char [simp]: "is_space (lower_char c) = is_space c"
  using of_char_lower_char [of c] by (auto simp: is_space_def Let_def split: if_splits)

lemma dropWhile_id_iff: "dropWhile P xs = xs \<longleftrightarrow> (xs = [] \<or> \<not> P (hd xs))"
proof (cases xs)
  case (Cons x ys)
  have "length (dropWhile P ys) < length xs"
    using length_dropWhile_le [of P ys] Cons by simp
  then show ?thesis using Cons by (auto simp del: length_dropWhile_le)
qed simp

lemma trim_space_no_edge:
  assumes "trim_space s \<noteq> []"
  shows "\<not> is_space (hd (trim_space s))" and "\<not> is_space (last (trim_space s))"
proof -
  let ?t = "dropWhile is_space s"
  obtain u v where uv: "rev ?t = u @ v" "v = dropWhile is_space (rev ?t)"
    by (metis takeWhile_dropWhile_id)
  have trim: "trim_space s = rev v"
    by (simp add: trim_space_def trim_right_def uv(2))
  with assms have "v \<noteq> []" by simp
  then have "\<not> is_space (hd v)" using uv(2) by (metis hd_dropWhile)
  then show "\<not> is_space (last (trim_space s))"
    using trim \<open>v \<noteq> []\<close> by (simp add: last_rev)
  have "?t = rev v @ rev u" using uv(1) by (metis rev_append rev_rev_ident)
  then have "hd (trim_space s) = hd ?t" and "?t \<noteq> []"
    using trim \<open>v \<noteq> []\<close> by simp_all
  then show "\<not> is_space (hd (trim_space s))" by (metis hd_dropWhile)
qed

lemma trim_space_fixed:
  assumes "s = [] \<or> (\<not> is_space (hd s) \<and> \<not> is_space (last s))"
  shows "trim_space s = s"
proof -
  have 1: "dropWhile is_space s = s" using assms by (auto simp: dropWhile_id_iff)
  have "dropWhile is_space (rev s) = rev s"
    using assms by (auto simp: dropWhile_id_iff hd_rev)
  with 1 show ?thesis by (simp add: trim_space_def trim_right_def)
qed

lemma trim_space_idem [simp]: "trim_space (trim_space s) = trim_space s"
  using trim_space_no_edge [of s] by (intro trim_space_fixed) blast

lemma trim_right_map:
  "(\<And>c. P (f c) = P c) \<Longrightarrow> trim_right P (map f s) = map f (trim_right P s)"
  by (simp add: trim_right_def rev_map dropWhile_map comp_def)

lemma trim_space_to_lower: "trim_space (to_lower s) = to_lower (trim_space s)"
  by (simp add: trim_space_def to_lower_def dropWhile_map comp_def trim_right_map)

lemma has_prefix_append [simp]: "has_prefix (p @ s) p"
  by (simp add: has_prefix_def)

section \<open>Durations\<close>

type_synonym duration = int

definition millisecond :: duration where "millisecond = 1000000"
definition second :: duration where "second = 1000 * millisecond"

lemma millisecond_pos [simp]: "0 < millisecond" "0 \<le> millisecond" "millisecond \<noteq> 0"
  and second_pos [simp]: "0 < second" "0 \<le> second" "second \<noteq> 0"
  by (simp_all add: millisecond_def second_def)

text \<open>Go's \<open>int\<close> on the 64-bit targets wraps around; written out where the code adds to one.\<close>

definition wrap_int :: "int \<Rightarrow> int" where
  "wrap_int x = (x + 2 ^ 63) mod 2 ^ 64 - 2 ^ 63"

lemma wrap_int_id: "- (2 ^ 63) \<le> x \<Longrightarrow> x < 2 ^ 63 \<Longrightarrow> wrap_int x = x"
  by (simp add: wrap_int_def)

end
