(* ===== verification/Go_Errors.thy ===== *)
theory Go_Errors
  imports Go_Prelude
begin

text \<open>
  Error values. A Go \<open>error\<close> is an interface; a value of it is modelled by a tree, one
  constructor per dynamic type the sources distinguish, and the nil error by \<open>None\<close> of
  \<open>go_error option\<close>. \<open>unwrap\<close> lists what the \<open>Unwrap\<close> method returns, \<open>chain\<close> is the
  depth-first order in which \<open>errors.Is\<close> and \<open>errors.AsType\<close> visit a tree.

  The record \<open>lib\<close> holds what is not under \<open>src/\<close>: the builders of
  \<^verbatim>\<open>github.com/samber/oops\<close> and the message table of the operating system. What the code relies
  on is \<open>oops_ok\<close>: the value built is of a type of its own, which is no \<open>net.Error\<close>, wraps
  exactly its argument, and wrapping nil gives nil.
\<close>

section \<open>Protocols and kinds\<close>

definition ProtocolUnknown :: string where "ProtocolUnknown = ''unknown''"
definition ProtocolHTTP :: string where "ProtocolHTTP = ''http''"
definition ProtocolTCP :: string where "ProtocolTCP = ''tcp''"
definition ProtocolUDP :: string where "ProtocolUDP = ''udp''"

definition ErrorKindUnknown :: string where "ErrorKindUnknown = ''unknown''"
definition ErrorKindCanceled :: string where "ErrorKindCanceled = ''canceled''"
definition ErrorKindTimeout :: string where "ErrorKindTimeout = ''timeout''"
definition ErrorKindTemporary :: string where "ErrorKindTemporary = ''temporary''"
definition ErrorKindConnRefused :: string where "ErrorKindConnRefused = ''conn_refused''"
definition ErrorKindDNS :: string where "ErrorKindDNS = ''dns''"
definition ErrorKindTLS :: string where "ErrorKindTLS = ''tls''"
definition ErrorKindClosed :: string where "ErrorKindClosed = ''closed''"
definition ErrorKindNetwork :: string where "ErrorKindNetwork = ''network''"
definition ErrorKindCodec :: string where "ErrorKindCodec = ''codec''"

lemmas protocol_defs = ProtocolUnknown_def ProtocolHTTP_def ProtocolTCP_def ProtocolUDP_def

lemmas kind_defs = ErrorKindUnknown_def ErrorKindCanceled_def ErrorKindTimeout_def
  ErrorKindTemporary_def ErrorKindConnRefused_def ErrorKindDNS_def ErrorKindTLS_def
  ErrorKindClosed_def ErrorKindNetwork_def ErrorKindCodec_def

section \<open>Error values\<close>

text \<open>
  \<^item> \<open>ErrNew v t\<close>: \<open>errors.New(t)\<close>; \<open>v\<close> names the package variable that holds it, and so its
    identity (empty for an error made in place).
  \<^item> \<open>CtxCanceled\<close>, \<open>CtxDeadline\<close>: \<open>context.Canceled\<close>, \<open>context.DeadlineExceeded\<close>;
    \<open>NetCanceled\<close>, \<open>NetTimeout\<close>: what package \<open>net\<close> returns for them;
    \<open>OsDeadline\<close>: \<open>os.ErrDeadlineExceeded\<close>; \<open>NetClosed\<close>, \<open>OsClosed\<close>: \<open>net.ErrClosed\<close>,
    \<open>os.ErrClosed\<close>; \<open>ErrEOF\<close>, \<open>ErrUnexpectedEOF\<close> of package \<open>io\<close>.
  \<^item> \<open>Errno\<close>, \<open>SyscallError\<close>, \<open>DNSError\<close>, \<open>OpError\<close>, \<open>JoinError\<close>: the types of those names.
  \<^item> \<open>ClientError protocol op addr kind err\<close>: a \<open>*clientx.Error\<close>; \<open>NilClientError\<close>: a nil
    pointer of that type inside a non-nil interface.
  \<^item> \<open>Foreign type text timeout wrapped\<close>: any other error type; \<open>timeout\<close> is \<open>Some t\<close> when it
    implements \<open>net.Error\<close> with \<open>Timeout() = t\<close>.

  A \<open>SyscallError\<close> and an \<open>OpError\<close> carry an error, as all those the standard library makes do
  (the \<open>Error\<close> method of one without it panics).
\<close>

datatype go_error =
    ErrNew string string
  | CtxCanceled
  | CtxDeadline
  | NetCanceled
  | NetTimeout
  | OsDeadline
  | NetClosed
  | OsClosed
  | ErrEOF
  | ErrUnexpectedEOF
  | Errno nat
  | SyscallError string go_error
  | DNSError string string string bool "go_error option"
  | OpError string string "string option" "string option" go_error
  | JoinError "go_error list"
  | ClientError string string string string "go_error option"
  | NilClientError
  | Foreign string string "bool option" "go_error list"

fun unwrap :: "go_error \<Rightarrow> go_error list" where
  "unwrap (SyscallError s e) = [e]"
| "unwrap (DNSError t h s b e) = (case e of None \<Rightarrow> [] | Some x \<Rightarrow> [x])"
| "unwrap (OpError op net src ad e) = [e]"
| "unwrap (JoinError es) = es"
| "unwrap (ClientError p op addr kind e) = (case e of None \<Rightarrow> [] | Some x \<Rightarrow> [x])"
| "unwrap (Foreign ty t to es) = es"
| "unwrap e = []"

lemma size_unwrap [termination_simp]: "x \<in> set (unwrap e) \<Longrightarrow> size x < size e"
  by (cases e) (auto split: option.splits simp: less_Suc_eq_le size_list_estimation' less_imp_le
      intro: trans_le_add1 trans_le_add2)

function chain :: "go_error \<Rightarrow> go_error list" where
  "chain e = e # concat (map chain (unwrap e))"
  by pat_completeness auto
termination
  by (relation "measure size") (auto simp: size_unwrap)

declare chain.simps [simp del]

lemma chain_unfold:
  "chain (ErrNew v t) = [ErrNew v t]"
  "chain CtxCanceled = [CtxCanceled]"
  "chain CtxDeadline = [CtxDeadline]"
  "chain NetCanceled = [NetCanceled]"
  "chain NetTimeout = [NetTimeout]"
  "chain OsDeadline = [OsDeadline]"
  "chain NetClosed = [NetClosed]"
  "chain OsClosed = [OsClosed]"
  "chain ErrEOF = [ErrEOF]"
  "chain ErrUnexpectedEOF = [ErrUnexpectedEOF]"
  "chain (Errno n) = [Errno n]"
  "chain (SyscallError s e) = SyscallError s e # chain e"
  "chain (DNSError t h sv b None) = [DNSError t h sv b None]"
  "chain (DNSError t h sv b (Some e)) = DNSError t h sv b (Some e) # chain e"
  "chain (OpError op net src ad e) = OpError op net src ad e # chain e"
  "chain (JoinError es) = JoinError es # concat (map chain es)"
  "chain (ClientError p op addr kind None) = [ClientError p op addr kind None]"
  "chain (ClientError p op addr kind (Some e)) = ClientError p op addr kind (Some e) # chain e"
  "chain NilClientError = [NilClientError]"
  "chain (Foreign ty t to es) = Foreign ty t to es # concat (map chain es)"
  by (simp_all add: chain.simps [of "ErrNew v t"] chain.simps [of CtxCanceled]
      chain.simps [of CtxDeadline] chain.simps [of NetCanceled] chain.simps [of NetTimeout]
      chain.simps [of OsDeadline] chain.simps [of NetClosed] chain.simps [of OsClosed]
      chain.simps [of ErrEOF] chain.simps [of ErrUnexpectedEOF] chain.simps [of "Errno n"]
      chain.simps [of "SyscallError _ _"] chain.simps [of "DNSError _ _ _ _ _"]
      chain.simps [of "OpError _ _ _ _ _"] chain.simps [of "JoinError _"]
      chain.simps [of "ClientError _ _ _ _ _"] chain.simps [of NilClientError]
      chain.simps [of "Foreign _ _ _ _"])

declare chain_unfold [simp]

lemma chain_self [simp, intro]: "e \<in> set (chain e)"
  by (simp add: chain.simps [of e])

lemma chain_not_Nil [simp]: "chain e \<noteq> []"
  by (simp add: chain.simps [of e])

lemma size_chain: "x \<in> set (chain e) \<Longrightarrow> size x \<le> size e"
proof (induction e rule: chain.induct)
  case (1 e)
  from "1.prems" consider "x = e" | u where "u \<in> set (unwrap e)" "x \<in> set (chain u)"
    by (auto simp: chain.simps [of e])
  then show ?case
    by cases (use "1.IH" size_unwrap in \<open>fastforce dest: less_imp_le order_trans\<close>)+
qed

lemma chain_trans: "x \<in> set (chain y) \<Longrightarrow> y \<in> set (chain z) \<Longrightarrow> x \<in> set (chain z)"
proof (induction z rule: chain.induct)
  case (1 z)
  from "1.prems"(2) consider "y = z" | u where "u \<in> set (unwrap z)" "y \<in> set (chain u)"
    by (auto simp: chain.simps [of z])
  then show ?case
    by cases (use 1 in \<open>auto simp: chain.simps [of z]\<close>)
qed

lemma find_in_chain: "find P (chain e) = Some x \<Longrightarrow> x \<in> set (chain e) \<and> P x"
  by (auto simp: find_Some_iff)

lemma size_find_chain [termination_simp]:
  "find P (chain e) = Some x \<Longrightarrow> size x \<le> size e"
  by (rule size_chain) (simp add: find_in_chain)

section \<open>Methods of the error types\<close>

text \<open>Which dynamic types implement \<open>net.Error\<close> (they have \<open>Timeout\<close> and \<open>Temporary\<close>).\<close>

fun is_net_error :: "go_error \<Rightarrow> bool" where
  "is_net_error CtxDeadline = True"
| "is_net_error NetTimeout = True"
| "is_net_error OsDeadline = True"
| "is_net_error NetClosed = True"
| "is_net_error (Errno n) = True"
| "is_net_error (DNSError t h s b e) = True"
| "is_net_error (OpError op net src ad e) = True"
| "is_net_error (ClientError p op addr kind e) = True"
| "is_net_error NilClientError = True"
| "is_net_error (Foreign ty t to es) = (to \<noteq> None)"
| "is_net_error e = False"

fun is_client_error :: "go_error \<Rightarrow> bool" where
  "is_client_error (ClientError p op addr kind e) = True"
| "is_client_error NilClientError = True"
| "is_client_error e = False"

fun is_errno :: "go_error \<Rightarrow> bool" where
  "is_errno (Errno n) = True"
| "is_errno e = False"

fun is_syscall_error :: "go_error \<Rightarrow> bool" where
  "is_syscall_error (SyscallError s e) = True"
| "is_syscall_error e = False"

fun is_dns_error :: "go_error \<Rightarrow> bool" where
  "is_dns_error (DNSError t h s b e) = True"
| "is_dns_error e = False"

fun is_op_error :: "go_error \<Rightarrow> bool" where
  "is_op_error (OpError op net src ad e) = True"
| "is_op_error e = False"

text \<open>The numbers of linux: \<open>EAGAIN\<close>, \<open>ETIMEDOUT\<close>, \<open>ECONNREFUSED\<close>.\<close>

definition EAGAIN :: nat where "EAGAIN = 11"
definition ETIMEDOUT :: nat where "ETIMEDOUT = 110"
definition ECONNREFUSED :: nat where "ECONNREFUSED = 111"

lemmas errno_defs = EAGAIN_def ETIMEDOUT_def ECONNREFUSED_def

text \<open>
  \<open>(*Error).Timeout\<close> for a receiver that is not nil, given what \<open>errors.AsType[net.Error](e.Err)\<close>
  followed by \<open>Timeout()\<close> answers (\<open>None\<close>: no \<open>net.Error\<close> is found).
\<close>

definition Error_Timeout :: "string \<Rightarrow> bool option \<Rightarrow> bool" where
  "Error_Timeout kind net_err =
     (if kind = ErrorKindTimeout then True
      else (case net_err of Some t \<Rightarrow> t | None \<Rightarrow> False))"

text \<open>\<open>Timeout()\<close> by dynamic type; \<open>None\<close> when the type has no such method.\<close>

function timeout_method :: "go_error \<Rightarrow> bool option" where
  "timeout_method e =
     (case e of
        CtxDeadline \<Rightarrow> Some True
      | NetTimeout \<Rightarrow> Some True
      | OsDeadline \<Rightarrow> Some True
      | NetClosed \<Rightarrow> Some False
      | Errno n \<Rightarrow> Some (n = EAGAIN \<or> n = ETIMEDOUT)
      | SyscallError s x \<Rightarrow> Some (timeout_method x = Some True)
      | DNSError t h s b x \<Rightarrow> Some b
      | OpError op net src ad x \<Rightarrow> Some (timeout_method x = Some True)
      | ClientError p op addr kind x \<Rightarrow>
          Some (Error_Timeout kind
            (case x of None \<Rightarrow> None
             | Some y \<Rightarrow> (case find is_net_error (chain y) of
                            None \<Rightarrow> None | Some z \<Rightarrow> timeout_method z)))
      | NilClientError \<Rightarrow> Some False
      | Foreign ty t to es \<Rightarrow> to
      | _ \<Rightarrow> None)"
  by pat_completeness auto
termination
  by (relation "measure size") (auto dest!: size_find_chain)

declare timeout_method.simps [simp del]

lemmas timeout_method_unfold [simp] =
  timeout_method.simps [of CtxDeadline, simplified]
  timeout_method.simps [of NetTimeout, simplified]
  timeout_method.simps [of OsDeadline, simplified]
  timeout_method.simps [of NetClosed, simplified]
  timeout_method.simps [of "Errno n", simplified]
  timeout_method.simps [of "SyscallError s y", simplified]
  timeout_method.simps [of "DNSError t h s b x", simplified]
  timeout_method.simps [of "OpError op net src ad y", simplified]
  timeout_method.simps [of "ClientError p op addr kind x", simplified]
  timeout_method.simps [of NilClientError, simplified]
  timeout_method.simps [of "Foreign ty t to es", simplified] for n s h x y t b op net src ad p addr kind to ty es

lemma net_error_has_timeout: "is_net_error e \<Longrightarrow> timeout_method e \<noteq> None"
  by (cases e) (simp_all split: option.splits)

section \<open>Libraries outside the sources\<close>

datatype attr = AStr string | AInt int | ADur duration | ABool bool | AErr go_error

type_synonym attrs = "(string \<times> attr) list"

text \<open>
  \<open>oops_new d a t\<close>, \<open>oops_errorf d a t\<close> and \<open>oops_wrapf d a e t\<close> are
  \<open>oops.In(d).With(a).New(t)\<close>, \<open>.Errorf(t)\<close> and \<open>.Wrapf(e, t)\<close>, the text already formatted.
\<close>

record lib =
  oops_new :: "string \<Rightarrow> attrs \<Rightarrow> string \<Rightarrow> go_error"
  oops_errorf :: "string \<Rightarrow> attrs \<Rightarrow> string \<Rightarrow> go_error"
  oops_wrapf :: "string \<Rightarrow> attrs \<Rightarrow> go_error option \<Rightarrow> string \<Rightarrow> go_error option"
  strerror :: "nat \<Rightarrow> string"

definition oops_ok :: "lib \<Rightarrow> bool" where
  "oops_ok L \<longleftrightarrow>
     (\<forall>d a t. \<exists>ty tx. oops_new L d a t = Foreign ty tx None []) \<and>
     (\<forall>d a t. \<exists>ty tx. oops_errorf L d a t = Foreign ty tx None []) \<and>
     (\<forall>d a t. oops_wrapf L d a None t = None) \<and>
     (\<forall>d a e t. \<exists>ty tx. oops_wrapf L d a (Some e) t = Some (Foreign ty tx None [e]))"

lemma oops_newE:
  assumes "oops_ok L"
  obtains ty tx where "oops_new L d a t = Foreign ty tx None []"
  using assms unfolding oops_ok_def by blast

lemma oops_errorfE:
  assumes "oops_ok L"
  obtains ty tx where "oops_errorf L d a t = Foreign ty tx None []"
  using assms unfolding oops_ok_def by blast

lemma oops_wrapf_None [simp]: "oops_ok L \<Longrightarrow> oops_wrapf L d a None t = None"
  unfolding oops_ok_def by blast

lemma oops_wrapf_SomeE:
  assumes "oops_ok L"
  obtains ty tx where "oops_wrapf L d a (Some e) t = Some (Foreign ty tx None [e])"
  using assms unfolding oops_ok_def by blast

lemma oops_wrapf_eq_None [simp]: "oops_ok L \<Longrightarrow> oops_wrapf L d a e t = None \<longleftrightarrow> e = None"
  by (cases e) (auto elim: oops_wrapf_SomeE [where d = d and a = a and t = t])

text \<open>A library with these laws, for the witnesses: the builders keep domain and message.\<close>

definition plain_lib :: lib where
  "plain_lib = \<lparr>
     oops_new = (\<lambda>d a t. Foreign d t None []),
     oops_errorf = (\<lambda>d a t. Foreign d t None []),
     oops_wrapf = (\<lambda>d a e t. map_option (\<lambda>x. Foreign d t None [x]) e),
     strerror = (\<lambda>n. ''errno '' @ show_nat n)\<rparr>"

lemma plain_lib_simps [simp]:
  "oops_new plain_lib d a t = Foreign d t None []"
  "oops_errorf plain_lib d a t = Foreign d t None []"
  "oops_wrapf plain_lib d a e t = map_option (\<lambda>x. Foreign d t None [x]) e"
  by (simp_all add: plain_lib_def)

lemma plain_lib_ok [simp, intro]: "oops_ok plain_lib"
  by (simp add: oops_ok_def)

text \<open>\<open>lawful L\<close> is \<open>L\<close> when it has the laws: what is shown of it needs no hypothesis.\<close>

definition lawful :: "lib \<Rightarrow> lib" where
  "lawful L = (if oops_ok L then L else plain_lib)"

lemma lawful_ok [simp]: "oops_ok (lawful L)"
  by (simp add: lawful_def)

lemma lawful_eq: "oops_ok L \<Longrightarrow> lawful L = L"
  by (simp add: lawful_def)

section \<open>Rendering, and package errors\<close>

text \<open>\<open>(*Error).Error\<close> for a receiver that is not nil, given the rendering of \<open>e.Err\<close>.\<close>

definition Error_Error :: "string \<Rightarrow> string \<Rightarrow> string \<Rightarrow> string \<Rightarrow> string option \<Rightarrow> string" where
  "Error_Error protocol op addr kind err =
     (case err of
        None \<Rightarrow> protocol @ '' '' @ op @ '' '' @ addr @ '' ('' @ kind @ '')''
      | Some t \<Rightarrow>
          if addr \<noteq> [] then protocol @ '' '' @ op @ '' '' @ addr @ '' ('' @ kind @ ''): '' @ t
          else protocol @ '' '' @ op @ '' ('' @ kind @ ''): '' @ t)"

fun join_lines :: "string list \<Rightarrow> string" where
  "join_lines [] = []"
| "join_lines [t] = t"
| "join_lines (t # u # ts) = t @ [CHR 0x0A] @ join_lines (u # ts)"

text \<open>\<open>Error()\<close> by dynamic type.\<close>

fun error_text :: "lib \<Rightarrow> go_error \<Rightarrow> string" where
  "error_text L (ErrNew v t) = t"
| "error_text L CtxCanceled = ''context canceled''"
| "error_text L CtxDeadline = ''context deadline exceeded''"
| "error_text L NetCanceled = ''operation was canceled''"
| "error_text L NetTimeout = ''i/o timeout''"
| "error_text L OsDeadline = ''i/o timeout''"
| "error_text L NetClosed = ''use of closed network connection''"
| "error_text L OsClosed = ''file already closed''"
| "error_text L ErrEOF = ''EOF''"
| "error_text L ErrUnexpectedEOF = ''unexpected EOF''"
| "error_text L (Errno n) = strerror L n"
| "error_text L (SyscallError s e) = s @ '': '' @ error_text L e"
| "error_text L (DNSError t h s b e) =
     ''lookup '' @ h @ (if s = [] then [] else '' on '' @ s) @ '': '' @ t"
| "error_text L (OpError op net src ad e) =
     op @ (if net = [] then [] else '' '' @ net) @
     (case src of None \<Rightarrow> [] | Some s \<Rightarrow> '' '' @ s) @
     (case ad of None \<Rightarrow> []
      | Some d \<Rightarrow> (if src = None then '' '' else ''->'') @ d) @ '': '' @ error_text L e"
| "error_text L (JoinError es) = join_lines (map (error_text L) es)"
| "error_text L (ClientError p op addr kind e) =
     Error_Error p op addr kind (case e of None \<Rightarrow> None | Some x \<Rightarrow> Some (error_text L x))"
| "error_text L NilClientError = []"
| "error_text L (Foreign ty t to es) = t"

text \<open>\<open>Is\<close> methods: the errors of package \<open>net\<close> answer for those of package \<open>context\<close>.\<close>

fun is_method :: "go_error \<Rightarrow> go_error \<Rightarrow> bool" where
  "is_method NetCanceled t = (t = CtxCanceled)"
| "is_method NetTimeout t = (t = CtxDeadline)"
| "is_method e t = False"

definition errors_is :: "go_error option \<Rightarrow> go_error \<Rightarrow> bool" where
  "errors_is err t =
     (case err of None \<Rightarrow> False | Some e \<Rightarrow> list_ex (\<lambda>x. x = t \<or> is_method x t) (chain e))"

definition errors_as :: "(go_error \<Rightarrow> bool) \<Rightarrow> go_error option \<Rightarrow> go_error option" where
  "errors_as P err = (case err of None \<Rightarrow> None | Some e \<Rightarrow> find P (chain e))"

definition errors_join :: "go_error option list \<Rightarrow> go_error option" where
  "errors_join errs =
     (let es = map the (filter (\<lambda>e. e \<noteq> None) errs) in
      if es = [] then None else Some (JoinError es))"

lemma errors_is_None [simp]: "\<not> errors_is None t"
  by (simp add: errors_is_def)

lemma errors_is_Some:
  "errors_is (Some e) t \<longleftrightarrow> (\<exists>x \<in> set (chain e). x = t \<or> is_method x t)"
  by (simp add: errors_is_def list_ex_iff)

lemma errors_as_None [simp]: "errors_as P None = None"
  by (simp add: errors_as_def)

lemma errors_as_Some: "errors_as P (Some e) = find P (chain e)"
  by (simp add: errors_as_def)

lemma errors_as_in_chain: "errors_as P (Some e) = Some x \<Longrightarrow> x \<in> set (chain e) \<and> P x"
  by (simp add: errors_as_Some find_in_chain)

lemma errors_join_simps [simp]:
  "errors_join [None, None] = None"
  "errors_join [Some a, None] = Some (JoinError [a])"
  "errors_join [None, Some b] = Some (JoinError [b])"
  "errors_join [Some a, Some b] = Some (JoinError [a, b])"
  by (simp_all add: errors_join_def)

lemma find_append_Some: "find P xs = Some x \<Longrightarrow> find P (xs @ ys) = Some x"
  by (induction xs) auto

lemma find_append_None: "find P xs = None \<Longrightarrow> find P (xs @ ys) = find P ys"
  by (induction xs) auto

text \<open>A wrapper of a type that does not match leaves what \<open>errors.Is\<close> and \<open>AsType\<close> find.\<close>

lemma errors_as_Foreign [simp]:
  "\<not> P (Foreign ty t to [e]) \<Longrightarrow> errors_as P (Some (Foreign ty t to [e])) = errors_as P (Some e)"
  by (simp add: errors_as_def)

lemma errors_is_Foreign [simp]:
  "t \<noteq> Foreign ty x to [e] \<Longrightarrow> errors_is (Some (Foreign ty x to [e])) t = errors_is (Some e) t"
  by (auto simp: errors_is_def)

text \<open>\<open>carries f e\<close>: every error found in \<open>e\<close> is still found in \<open>f\<close>.\<close>

definition carries :: "go_error option \<Rightarrow> go_error option \<Rightarrow> bool" where
  "carries f e = (case e of None \<Rightarrow> True
     | Some x \<Rightarrow> (case f of None \<Rightarrow> False | Some y \<Rightarrow> set (chain x) \<subseteq> set (chain y)))"

lemma carries_None [simp, intro]: "carries f None"
  by (simp add: carries_def)

lemma carries_refl [simp, intro]: "carries e e"
  by (simp add: carries_def split: option.splits)

lemma carries_trans: "carries g f \<Longrightarrow> carries f e \<Longrightarrow> carries g e"
  by (auto simp: carries_def split: option.splits)

lemma carries_Some_iff:
  "carries (Some y) (Some x) \<longleftrightarrow> x \<in> set (chain y)"
  by (auto simp: carries_def intro: chain_trans)

lemma carries_eq_None: "carries None e \<Longrightarrow> e = None"
  by (cases e) (simp_all add: carries_def)

lemma carries_errors_is: "carries f e \<Longrightarrow> errors_is e t \<Longrightarrow> errors_is f t"
  by (fastforce simp: carries_def errors_is_Some split: option.splits)

lemma carries_join_left: "carries (errors_join [e, f]) e"
  and carries_join_right: "carries (errors_join [e, f]) f"
  by (cases e; cases f; force simp: carries_Some_iff)+

lemma carries_wrapf:
  assumes "oops_ok L"
  shows "carries (oops_wrapf L d a e t) e"
proof (cases e)
  case (Some x)
  obtain ty tx where "oops_wrapf L d a (Some x) t = Some (Foreign ty tx None [x])"
    by (rule oops_wrapf_SomeE [OF assms])
  then show ?thesis using Some by (simp add: carries_Some_iff)
qed simp

text \<open>What the builders of \<open>oops\<close> add is transparent to searches for anything but such an error.\<close>

fun is_foreign :: "go_error \<Rightarrow> bool" where
  "is_foreign (Foreign ty t to es) = True"
| "is_foreign e = False"

lemma errors_is_wrapf_iff [simp]:
  assumes "oops_ok L" and "\<not> is_foreign x"
  shows "errors_is (oops_wrapf L d a e t) x = errors_is e x"
proof (cases e)
  case (Some y)
  obtain ty tx where "oops_wrapf L d a (Some y) t = Some (Foreign ty tx None [y])"
    using oops_wrapf_SomeE [OF assms(1)] by blast
  then show ?thesis using Some assms(2) by (auto simp: errors_is_Some)
qed (simp add: assms(1))

lemma errors_as_wrapf [simp]:
  assumes "oops_ok L" and "\<And>ty tx es. \<not> P (Foreign ty tx None es)"
  shows "errors_as P (oops_wrapf L d a e t) = errors_as P e"
proof (cases e)
  case (Some y)
  obtain ty tx where "oops_wrapf L d a (Some y) t = Some (Foreign ty tx None [y])"
    using oops_wrapf_SomeE [OF assms(1)] by blast
  then show ?thesis using Some assms(2) by (simp add: errors_as_Some)
qed (simp add: assms(1))

end
