(* ===== verification/Codec.thy ===== *)
theory Codec
  imports Go_Errors
begin

text \<open>
  \<^verbatim>\<open>codec/codec.go\<close>, \<^verbatim>\<open>codec/text.go\<close>, \<^verbatim>\<open>codec/bytes.go\<close>, \<^verbatim>\<open>codec/json.go\<close>: codecs and the three
  built-in ones.

  A value given to \<open>Marshal\<close> is a string, a byte slice, or of some other type; a target given to
  \<open>Unmarshal\<close> is a pointer to one of these, nil (\<open>None\<close>) or not, and comes back as the call leaves
  it. What other types can do, and \<^verbatim>\<open>encoding/json\<close>, is a parameter, the record \<open>runtime\<close>. A codec
  keeps no state of its own.
\<close>

section \<open>Bytes and strings\<close>

type_synonym byte = "8 word"

definition bytes_of :: "string \<Rightarrow> byte list" where
  "bytes_of s = map (\<lambda>c. word_of_nat (of_char c)) s"

definition string_of :: "byte list \<Rightarrow> string" where
  "string_of bs = map (\<lambda>b. char_of (unat b)) bs"

lemma string_of_bytes_of [simp]: "string_of (bytes_of s) = s"
proof -
  have "char_of (unat (word_of_nat (of_char c) :: byte)) = c" for c
  proof -
    have "(of_char c :: nat) < 256" by simp
    then have "unat (word_of_nat (of_char c) :: byte) = of_char c"
      by (simp add: unat_of_nat take_bit_eq_mod)
    then show ?thesis by simp
  qed
  then show ?thesis by (simp add: string_of_def bytes_of_def map_idI)
qed

lemma bytes_of_string_of [simp]: "bytes_of (string_of bs) = bs"
proof -
  have "(word_of_nat (of_char (char_of (unat b) :: char)) :: byte) = b" for b
  proof -
    have "unat b < 2 ^ LENGTH(8)" by (rule unsigned_less)
    then show ?thesis by simp
  qed
  then show ?thesis by (simp add: string_of_def bytes_of_def map_idI)
qed

lemma length_bytes_of [simp]: "length (bytes_of s) = length s"
  by (simp add: bytes_of_def)

section \<open>Values, targets, codecs\<close>

datatype 'o go_value = VString string | VBytes "byte list" | VOther 'o

datatype 'o target = PString "string option" | PBytes "byte list option" | POther 'o

text \<open>
  \<open>text_marshal\<close>, \<open>stringer\<close>, \<open>text_unmarshal\<close>: the methods of \<open>encoding.TextMarshaler\<close>,
  \<open>fmt.Stringer\<close>, \<open>encoding.TextUnmarshaler\<close>, for the types that have them.
\<close>

record 'o runtime =
  type_name :: "'o \<Rightarrow> string"
  text_marshal :: "'o \<Rightarrow> (byte list \<times> go_error option) option"
  stringer :: "'o \<Rightarrow> string option"
  text_unmarshal :: "'o \<Rightarrow> (byte list \<Rightarrow> 'o \<times> go_error option) option"
  json_marshal :: "'o go_value \<Rightarrow> byte list \<times> go_error option"
  json_unmarshal :: "byte list \<Rightarrow> 'o target \<Rightarrow> 'o target \<times> go_error option"

fun value_type :: "'o runtime \<Rightarrow> 'o go_value \<Rightarrow> string" where
  "value_type R (VString s) = ''string''"
| "value_type R (VBytes bs) = ''[]uint8''"
| "value_type R (VOther x) = type_name R x"

fun target_type :: "'o runtime \<Rightarrow> 'o target \<Rightarrow> string" where
  "target_type R (PString s) = ''*string''"
| "target_type R (PBytes bs) = ''*[]uint8''"
| "target_type R (POther x) = type_name R x"

record 'o codec =
  Name :: string
  Marshal :: "'o go_value \<Rightarrow> (byte list \<times> go_error option) res"
  Unmarshal :: "byte list \<Rightarrow> 'o target \<Rightarrow> ('o target \<times> go_error option) res"

definition ErrUnsupportedValue :: go_error where
  "ErrUnsupportedValue = ErrNew ''ErrUnsupportedValue'' ''codec unsupported value type''"

definition marshal_attrs :: "string \<Rightarrow> string \<Rightarrow> string \<Rightarrow> attrs" where
  "marshal_attrs op name ty = [(''op'', AStr op), (''codec'', AStr name), (''value_type'', AStr ty)]"

definition unmarshal_attrs :: "string \<Rightarrow> string \<Rightarrow> string \<Rightarrow> byte list \<Rightarrow> attrs" where
  "unmarshal_attrs op name ty data =
     [(''op'', AStr op), (''codec'', AStr name), (''target_type'', AStr ty),
      (''payload_size'', AInt (int (length data)))]"

section \<open>The built-in codecs\<close>

fun textMarshal :: "lib \<Rightarrow> 'o runtime \<Rightarrow> 'o go_value \<Rightarrow> byte list \<times> go_error option" where
  "textMarshal L R (VString s) = (bytes_of s, None)"
| "textMarshal L R (VBytes bs) = (bs, None)"
| "textMarshal L R (VOther x) =
     (case text_marshal R x of
        Some (data, err) \<Rightarrow>
          if err \<noteq> None
          then ([], oops_wrapf L ''clientx/codec'' (marshal_attrs ''marshal_text'' ''text'' (type_name R x))
                      err ''marshal text value'')
          else (data, None)
      | None \<Rightarrow>
          (case stringer R x of
             Some s \<Rightarrow> (bytes_of s, None)
           | None \<Rightarrow> ([], oops_wrapf L ''clientx/codec''
               (marshal_attrs ''marshal_text'' ''text'' (type_name R x))
               (Some ErrUnsupportedValue) ''marshal text value'')))"

text \<open>Storing through a nil pointer panics.\<close>

fun textUnmarshal ::
  "lib \<Rightarrow> 'o runtime \<Rightarrow> byte list \<Rightarrow> 'o target \<Rightarrow> ('o target \<times> go_error option) res" where
  "textUnmarshal L R data (PString t) =
     (case t of None \<Rightarrow> Panic | Some _ \<Rightarrow> Ret (PString (Some (string_of data)), None))"
| "textUnmarshal L R data (PBytes t) =
     (case t of None \<Rightarrow> Panic | Some _ \<Rightarrow> Ret (PBytes (Some data), None))"
| "textUnmarshal L R data (POther x) =
     (case text_unmarshal R x of
        Some unmarshalText \<Rightarrow>
          (case unmarshalText data of (x', err) \<Rightarrow>
             Ret (POther x', if err \<noteq> None
               then oops_wrapf L ''clientx/codec''
                      (unmarshal_attrs ''unmarshal_text'' ''text'' (type_name R x) data) err ''unmarshal text value''
               else None))
      | None \<Rightarrow> Ret (POther x, oops_wrapf L ''clientx/codec''
          (unmarshal_attrs ''unmarshal_text'' ''text'' (type_name R x) data)
          (Some ErrUnsupportedValue) ''unmarshal text value''))"

definition TextCodec :: "lib \<Rightarrow> 'o runtime \<Rightarrow> 'o codec" where
  "TextCodec L R = \<lparr>Name = ''text'', Marshal = (\<lambda>v. Ret (textMarshal L R v)), Unmarshal = textUnmarshal L R\<rparr>"

definition bytesMarshal :: "lib \<Rightarrow> 'o runtime \<Rightarrow> 'o go_value \<Rightarrow> byte list \<times> go_error option" where
  "bytesMarshal L R v =
     (case v of
        VBytes bs \<Rightarrow> (bs, None)
      | _ \<Rightarrow> ([], oops_wrapf L ''clientx/codec'' (marshal_attrs ''marshal_bytes'' ''bytes'' (value_type R v))
               (Some ErrUnsupportedValue) ''marshal bytes value''))"

definition bytesUnmarshal ::
  "lib \<Rightarrow> 'o runtime \<Rightarrow> byte list \<Rightarrow> 'o target \<Rightarrow> ('o target \<times> go_error option) res" where
  "bytesUnmarshal L R data v =
     (case v of
        PBytes t \<Rightarrow> (case t of None \<Rightarrow> Panic | Some _ \<Rightarrow> Ret (PBytes (Some data), None))
      | _ \<Rightarrow> Ret (v, oops_wrapf L ''clientx/codec''
               (unmarshal_attrs ''unmarshal_bytes'' ''bytes'' (target_type R v) data)
               (Some ErrUnsupportedValue) ''unmarshal bytes value''))"

definition BytesCodec :: "lib \<Rightarrow> 'o runtime \<Rightarrow> 'o codec" where
  "BytesCodec L R = \<lparr>Name = ''bytes'', Marshal = (\<lambda>v. Ret (bytesMarshal L R v)),
     Unmarshal = bytesUnmarshal L R\<rparr>"

definition jsonMarshal :: "lib \<Rightarrow> 'o runtime \<Rightarrow> 'o go_value \<Rightarrow> byte list \<times> go_error option" where
  "jsonMarshal L R v =
     (case json_marshal R v of (data, err) \<Rightarrow>
        if err \<noteq> None
        then ([], oops_wrapf L ''clientx/codec'' (marshal_attrs ''marshal_json'' ''json'' (value_type R v))
                    err ''marshal json value'')
        else (data, None))"

definition jsonUnmarshal ::
  "lib \<Rightarrow> 'o runtime \<Rightarrow> byte list \<Rightarrow> 'o target \<Rightarrow> ('o target \<times> go_error option) res" where
  "jsonUnmarshal L R data v =
     (case json_unmarshal R data v of (v', err) \<Rightarrow>
        Ret (v', if err \<noteq> None
          then oops_wrapf L ''clientx/codec''
                 (unmarshal_attrs ''unmarshal_json'' ''json'' (target_type R v) data) err ''unmarshal json value''
          else None))"

definition JSONCodec :: "lib \<Rightarrow> 'o runtime \<Rightarrow> 'o codec" where
  "JSONCodec L R = \<lparr>Name = ''json'', Marshal = (\<lambda>v. Ret (jsonMarshal L R v)), Unmarshal = jsonUnmarshal L R\<rparr>"

section \<open>What a codec promises\<close>

definition payload :: "'o codec \<Rightarrow> 'o go_value \<Rightarrow> byte list" where
  "payload codec v = (case Marshal codec v of Ret (bs, err) \<Rightarrow> bs | Panic \<Rightarrow> [])"

text \<open>
  The contract: on the values of a class, encoding succeeds, and decoding what it gave into any
  fresh target of the value's type restores it.
\<close>

locale faithful_codec =
  fixes c :: "'o codec" and vals :: "'o go_value set" and fresh :: "'o go_value \<Rightarrow> 'o target"
    and decoded :: "'o go_value \<Rightarrow> 'o target"
  assumes marshal_ok: "v \<in> vals \<Longrightarrow> \<exists>bs. Marshal c v = Ret (bs, None)"
    and unmarshal_ok: "v \<in> vals \<Longrightarrow> Marshal c v = Ret (bs, None) \<Longrightarrow>
      Unmarshal c bs (fresh v) = Ret (decoded v, None)"
begin

lemma roundtrip:
  assumes "v \<in> vals"
  obtains bs where "Marshal c v = Ret (bs, None)" "Unmarshal c bs (fresh v) = Ret (decoded v, None)"
  using assms marshal_ok unmarshal_ok by blast

lemma marshal_payload: "v \<in> vals \<Longrightarrow> Marshal c v = Ret (payload c v, None)"
  using marshal_ok [of v] by (auto simp: payload_def)

lemma marshal_inj:
  assumes "v \<in> vals" "v' \<in> vals" "fresh v = fresh v'" "Marshal c v = Marshal c v'"
  shows "decoded v = decoded v'"
proof -
  obtain bs where "Marshal c v = Ret (bs, None)" "Unmarshal c bs (fresh v) = Ret (decoded v, None)"
    using assms(1) by (rule roundtrip)
  then have "Ret (decoded v, None) = (Ret (decoded v', None) :: ('o target \<times> go_error option) res)"
    using unmarshal_ok [OF assms(2), of bs] assms(3,4) by simp
  then show ?thesis by simp
qed

end

fun plain_value :: "'o go_value \<Rightarrow> bool" where
  "plain_value (VOther x) = False"
| "plain_value v = True"

fun fresh_target :: "'o go_value \<Rightarrow> 'o target" where
  "fresh_target (VString s) = PString (Some [])"
| "fresh_target (VBytes bs) = PBytes (Some [])"
| "fresh_target (VOther x) = POther x"

fun decoded_target :: "'o go_value \<Rightarrow> 'o target" where
  "decoded_target (VString s) = PString (Some s)"
| "decoded_target (VBytes bs) = PBytes (Some bs)"
| "decoded_target (VOther x) = POther x"

interpretation textc: faithful_codec "TextCodec L R" "{v. plain_value v}" fresh_target decoded_target
  for L :: lib and R :: "'o runtime"
proof
  fix v :: "'o go_value" and bs
  assume "v \<in> {v. plain_value v}"
  then show "\<exists>bs. Marshal (TextCodec L R) v = Ret (bs, None)"
    by (cases v) (simp_all add: TextCodec_def)
  assume "v \<in> {v. plain_value v}" "Marshal (TextCodec L R) v = Ret (bs, None)"
  then show "Unmarshal (TextCodec L R) bs (fresh_target v) = Ret (decoded_target v, None)"
    by (cases v) (auto simp: TextCodec_def)
qed

interpretation bytesc: faithful_codec "BytesCodec L R" "range VBytes" fresh_target decoded_target
  for L :: lib and R :: "'o runtime"
  by unfold_locales (auto simp: BytesCodec_def bytesMarshal_def bytesUnmarshal_def)

text \<open>
  The text codec restores strings and byte slices, the bytes codec byte slices, whatever bytes
  they hold and whatever the target held.
\<close>

theorem text_bytes_roundtrip:
  "(case textMarshal L R (VString s) of (bs, err) \<Rightarrow>
      err = None \<and> textUnmarshal L R bs (PString (Some old)) = Ret (PString (Some s), None)) \<and>
   (case textMarshal L R (VBytes data) of (bs, err) \<Rightarrow>
      err = None \<and> textUnmarshal L R bs (PBytes (Some old')) = Ret (PBytes (Some data), None)) \<and>
   (case bytesMarshal L R (VBytes data) of (bs, err) \<Rightarrow>
      err = None \<and> bytesUnmarshal L R bs (PBytes (Some old')) = Ret (PBytes (Some data), None))"
  by (simp add: bytesMarshal_def bytesUnmarshal_def)

text \<open>
  A type a codec cannot handle is refused with an error that is \<open>ErrUnsupportedValue\<close>, and the
  target is left as it was: the bytes codec for anything but byte slices, the text codec for a type
  with none of the methods it looks for.
\<close>

theorem codecs_unsupported:
  assumes "oops_ok L" and "\<not> (\<exists>bs. v = VBytes bs)" and "\<not> (\<exists>p. t = PBytes p)"
    and "text_marshal R x = None" and "stringer R x = None" and "text_unmarshal R x = None"
  shows "errors_is (snd (bytesMarshal L R v)) ErrUnsupportedValue \<and>
    (\<exists>e. bytesUnmarshal L R data t = Ret (t, e) \<and> errors_is e ErrUnsupportedValue) \<and>
    errors_is (snd (textMarshal L R (VOther x))) ErrUnsupportedValue \<and>
    (\<exists>e. textUnmarshal L R data (POther x) = Ret (POther x, e) \<and> errors_is e ErrUnsupportedValue)"
proof -
  have e: "errors_is (oops_wrapf L d a (Some ErrUnsupportedValue) m) ErrUnsupportedValue" for d a m
    by (rule oops_wrapf_SomeE [OF assms(1), of d a ErrUnsupportedValue m]) (auto simp: errors_is_Some)
  show ?thesis using assms(2-6) e
    by (cases v; cases t) (auto simp: bytesMarshal_def bytesUnmarshal_def)
qed

definition no_runtime :: "unit runtime" where
  "no_runtime = \<lparr>type_name = (\<lambda>_. ''main.T''), text_marshal = (\<lambda>_. None), stringer = (\<lambda>_. None),
     text_unmarshal = (\<lambda>_. None), json_marshal = (\<lambda>v. ([], Some ErrEOF)),
     json_unmarshal = (\<lambda>bs t. (t, Some ErrEOF))\<rparr>"

theorem codecs_unsupported_witness:
  "errors_is (snd (bytesMarshal plain_lib no_runtime (VString ''x''))) ErrUnsupportedValue \<and>
   errors_is (snd (textMarshal plain_lib no_runtime (VOther ()))) ErrUnsupportedValue"
  using codecs_unsupported [OF plain_lib_ok, of "VString ''x''" "PString None" no_runtime "()"]
  by (simp add: no_runtime_def)

end
