(* ===== verification/Registry.thy ===== *)
theory Registry
  imports Codec "HOL-Library.List_Lexorder"
begin

text \<open>
  \<^verbatim>\<open>codec/registry.go\<close>: codecs by normalised name, and the default registry.

  The registry keeps its codecs in a \<open>mapping.ConcurrentMap\<close> of \<^verbatim>\<open>collectionx\<close>, a parameter: the
  record \<open>cmap\<close> of the operations used, with the laws of a map, \<open>cmap_ok\<close>. Each of its operations is
  atomic, so registrations by many goroutines are some sequence of them. A registry is \<open>None\<close> when
  the pointer or its map is nil. The order of names is that of Go strings, byte by byte.
\<close>

section \<open>The map\<close>

record ('m, 'c) cmap =
  cm_new :: "nat \<Rightarrow> 'm"
  cm_get :: "'m \<Rightarrow> string \<Rightarrow> 'c option"
  cm_get_or_store :: "'m \<Rightarrow> string \<Rightarrow> 'c \<Rightarrow> ('c \<times> bool) \<times> 'm"
  cm_keys :: "'m \<Rightarrow> string list"

definition cmap_ok :: "('m, 'c) cmap \<Rightarrow> bool" where
  "cmap_ok M \<longleftrightarrow>
     (\<forall>n k. cm_get M (cm_new M n) k = None) \<and>
     (\<forall>m k c old. cm_get M m k = Some old \<longrightarrow> cm_get_or_store M m k c = ((old, True), m)) \<and>
     (\<forall>m k c. cm_get M m k = None \<longrightarrow>
        (\<exists>m'. cm_get_or_store M m k c = ((c, False), m') \<and>
              (\<forall>k'. cm_get M m' k' = (if k' = k then Some c else cm_get M m k')))) \<and>
     (\<forall>m. distinct (cm_keys M m) \<and> set (cm_keys M m) = {k. cm_get M m k \<noteq> None})"

text \<open>A map with these laws, for the witnesses: an association list without repetitions.\<close>

typedef 'c assoc = "{xs :: (string \<times> 'c) list. distinct (map fst xs)}"
  by (rule exI [of _ "[]"]) simp

setup_lifting type_definition_assoc

lift_definition assoc_empty :: "'c assoc" is "[]" by simp

lift_definition assoc_get :: "'c assoc \<Rightarrow> string \<Rightarrow> 'c option" is "map_of" .

lift_definition assoc_keys :: "'c assoc \<Rightarrow> string list" is "map fst" .

lift_definition assoc_add :: "'c assoc \<Rightarrow> string \<Rightarrow> 'c \<Rightarrow> 'c assoc"
  is "\<lambda>xs k c. if k \<in> set (map fst xs) then xs else (k, c) # xs" by auto

definition assoc_map :: "('c assoc, 'c) cmap" where
  "assoc_map = \<lparr>
     cm_new = (\<lambda>n. assoc_empty),
     cm_get = assoc_get,
     cm_get_or_store = (\<lambda>m k c. case assoc_get m k of
         Some old \<Rightarrow> ((old, True), m) | None \<Rightarrow> ((c, False), assoc_add m k c)),
     cm_keys = assoc_keys\<rparr>"

lemma assoc_get_empty [simp]: "assoc_get assoc_empty k = None"
  by transfer simp

lemma assoc_get_add: "assoc_get m k = None \<Longrightarrow> assoc_get (assoc_add m k c) k' = (if k' = k then Some c else assoc_get m k')"
  by transfer (auto simp: map_of_eq_None_iff)

lemma assoc_keys_ok: "distinct (assoc_keys m) \<and> set (assoc_keys m) = {k. assoc_get m k \<noteq> None}"
proof (intro conjI)
  show "distinct (assoc_keys m)" by transfer
  show "set (assoc_keys m) = {k. assoc_get m k \<noteq> None}"
    by transfer (auto simp: map_of_eq_None_iff [symmetric] dom_map_of_conv_image_fst [symmetric])
qed

lemma assoc_map_ok [simp, intro]: "cmap_ok assoc_map"
  unfolding cmap_ok_def
  by (intro conjI allI) (simp_all add: assoc_map_def assoc_get_add assoc_keys_ok)

section \<open>The registry\<close>

definition ErrNilCodec :: go_error where
  "ErrNilCodec = ErrNew ''ErrNilCodec'' ''codec is nil''"
definition ErrCodecNameEmpty :: go_error where
  "ErrCodecNameEmpty = ErrNew ''ErrCodecNameEmpty'' ''codec name is empty''"
definition ErrCodecExists :: go_error where
  "ErrCodecExists = ErrNew ''ErrCodecExists'' ''codec already exists''"
definition ErrCodecNotFound :: go_error where
  "ErrCodecNotFound = ErrNew ''ErrCodecNotFound'' ''codec not found''"

lemmas registry_error_defs = ErrNilCodec_def ErrCodecNameEmpty_def ErrCodecExists_def ErrCodecNotFound_def

definition codec_key :: "string \<Rightarrow> string" where
  "codec_key name = trim_space (to_lower name)"

definition Registry_Register ::
  "lib \<Rightarrow> ('m, 'o codec) cmap \<Rightarrow> 'm option \<Rightarrow> 'o codec option \<Rightarrow> go_error option \<times> 'm option" where
  "Registry_Register L M r c =
     (case r of
        None \<Rightarrow> (Some (oops_new L ''clientx/codec'' [(''op'', AStr ''register_codec'')]
                  ''codec registry is nil''), r)
      | Some codecs \<Rightarrow>
          (case c of
             None \<Rightarrow> (oops_wrapf L ''clientx/codec'' [(''op'', AStr ''register_codec'')]
                       (Some ErrNilCodec) ''validate codec'', r)
           | Some cd \<Rightarrow>
               (let name = codec_key (Name cd) in
                if name = []
                then (oops_wrapf L ''clientx/codec'' [(''op'', AStr ''register_codec'')]
                        (Some ErrCodecNameEmpty) ''validate codec name'', r)
                else case cm_get_or_store M codecs name cd of
                    ((old, loaded), codecs') \<Rightarrow>
                      (if loaded
                       then oops_wrapf L ''clientx/codec''
                              [(''op'', AStr ''register_codec''), (''codec'', AStr name)]
                              (Some ErrCodecExists) ''codec already exists''
                       else None, Some codecs'))))"

definition Registry_Get :: "('m, 'o codec) cmap \<Rightarrow> 'm option \<Rightarrow> string \<Rightarrow> 'o codec option" where
  "Registry_Get M r name =
     (case r of None \<Rightarrow> None | Some codecs \<Rightarrow> cm_get M codecs (codec_key name))"

definition Registry_GetOption :: "('m, 'o codec) cmap \<Rightarrow> 'm option \<Rightarrow> string \<Rightarrow> 'o codec option" where
  "Registry_GetOption M r name =
     (case Registry_Get M r name of None \<Rightarrow> None | Some c \<Rightarrow> Some c)"

definition Registry_Must :: "('m, 'o codec) cmap \<Rightarrow> 'm option \<Rightarrow> string \<Rightarrow> 'o codec res" where
  "Registry_Must M r name =
     (case Registry_GetOption M r name of None \<Rightarrow> Panic | Some c \<Rightarrow> Ret c)"

definition Registry_Names :: "('m, 'o codec) cmap \<Rightarrow> 'm option \<Rightarrow> string list" where
  "Registry_Names M r = (case r of None \<Rightarrow> [] | Some codecs \<Rightarrow> sort (cm_keys M codecs))"

definition mustRegisterCodec ::
  "lib \<Rightarrow> ('m, 'o codec) cmap \<Rightarrow> 'm option \<Rightarrow> 'o codec option \<Rightarrow> 'm option res" where
  "mustRegisterCodec L M r c =
     (case Registry_Register L M r c of (err, r') \<Rightarrow> if err \<noteq> None then Panic else Ret r')"

fun registerAll ::
  "lib \<Rightarrow> ('m, 'o codec) cmap \<Rightarrow> 'm option \<Rightarrow> 'o codec option list \<Rightarrow> 'm option res" where
  "registerAll L M r [] = Ret r"
| "registerAll L M r (c # cs) = rbind (mustRegisterCodec L M r c) (\<lambda>r'. registerAll L M r' cs)"

definition NewRegistry :: "lib \<Rightarrow> ('m, 'o codec) cmap \<Rightarrow> 'o codec option list \<Rightarrow> 'm option res" where
  "NewRegistry L M codecs = registerAll L M (Some (cm_new M (length codecs))) codecs"

text \<open>The package functions work on the default registry, the state they are given here.\<close>

definition defaultRegistry :: "lib \<Rightarrow> 'o runtime \<Rightarrow> ('m, 'o codec) cmap \<Rightarrow> 'm option res" where
  "defaultRegistry L R M =
     NewRegistry L M [Some (JSONCodec L R), Some (TextCodec L R), Some (BytesCodec L R)]"

definition Register ::
  "lib \<Rightarrow> ('m, 'o codec) cmap \<Rightarrow> 'o codec option \<Rightarrow> (go_error option, 'm option) prog" where
  "Register L M c = (\<lambda>r. case Registry_Register L M r c of (err, r') \<Rightarrow> Some (Ret err, r'))"

definition Get :: "('m, 'o codec) cmap \<Rightarrow> string \<Rightarrow> ('o codec option, 'm option) prog" where
  "Get M name = pget (\<lambda>r. Registry_Get M r name)"

definition GetOption :: "('m, 'o codec) cmap \<Rightarrow> string \<Rightarrow> ('o codec option, 'm option) prog" where
  "GetOption M name = pget (\<lambda>r. Registry_GetOption M r name)"

definition Must :: "('m, 'o codec) cmap \<Rightarrow> string \<Rightarrow> ('o codec, 'm option) prog" where
  "Must M name = (\<lambda>r. Some (Registry_Must M r name, r))"

definition Names :: "('m, 'o codec) cmap \<Rightarrow> (string list, 'm option) prog" where
  "Names M = pget (\<lambda>r. Registry_Names M r)"

section \<open>The contract\<close>

text \<open>
  What users of a registry rely on, over its lookup function: names are looked up normalised; a
  registration takes effect exactly when it returns no error, and then adds one name. \<open>good\<close> is the
  invariant under which the names listed are those that can be looked up.
\<close>

locale name_table =
  fixes lookup :: "'r \<Rightarrow> string \<Rightarrow> 'o codec option"
    and register :: "'r \<Rightarrow> 'o codec option \<Rightarrow> go_error option \<times> 'r"
    and names :: "'r \<Rightarrow> string list"
    and live :: "'r \<Rightarrow> bool" and good :: "'r \<Rightarrow> bool"
  assumes lookup_key: "lookup r (codec_key n) = lookup r n"
    and register_new: "live r \<Longrightarrow> codec_key (Name c) \<noteq> [] \<Longrightarrow> lookup r (Name c) = None \<Longrightarrow>
      \<exists>r'. register r (Some c) = (None, r') \<and> live r' \<and>
           (\<forall>n. lookup r' n = (if codec_key n = codec_key (Name c) then Some c else lookup r n))"
    and register_refused: "\<not> live r \<or> d = None \<or> codec_key (Name (the d)) = [] \<or>
        lookup r (Name (the d)) \<noteq> None \<Longrightarrow>
      \<exists>e. register r d = (Some e, r)"
    and good_register: "good r \<Longrightarrow> register r d = (e, r') \<Longrightarrow> good r'"
    and names_sorted: "sorted (names r) \<and> distinct (names r)"
    and names_set: "good r \<Longrightarrow> set (names r) = {n. codec_key n = n \<and> lookup r n \<noteq> None}"
begin

text \<open>A codec once found is found by the same name ever after.\<close>

lemma register_keeps:
  assumes "lookup r n = Some c" and "register r d = (e, r')"
  shows "lookup r' n = Some c"
proof (cases "\<not> live r \<or> d = None \<or> codec_key (Name (the d)) = [] \<or> lookup r (Name (the d)) \<noteq> None")
  case True
  then show ?thesis using register_refused [OF True] assms by auto
next
  case False
  then obtain d' where d: "d = Some d'" by auto
  then have "codec_key n \<noteq> codec_key (Name d')"
    using False assms(1) lookup_key by (metis option.distinct(1) option.sel)
  then show ?thesis using False d register_new [of r d'] assms by auto
qed

fun register_seq :: "'r \<Rightarrow> 'o codec option list \<Rightarrow> 'r" where
  "register_seq r [] = r"
| "register_seq r (c # cs) = register_seq (snd (register r c)) cs"

lemma register_seq_keeps: "lookup r n = Some c \<Longrightarrow> lookup (register_seq r cs) n = Some c"
proof (induction cs arbitrary: r)
  case (Cons d cs)
  then show ?case using register_keeps [of r n c d] by (cases "register r d") simp
qed simp

lemma register_live: "live r \<Longrightarrow> live (snd (register r c))"
  using register_new [of r "the c"] register_refused [of r c] by (cases c) fastforce+

lemma register_seq_names:
  "good r \<Longrightarrow> set (names (register_seq r cs)) = {n. codec_key n = n \<and> lookup (register_seq r cs) n \<noteq> None}"
proof (induction cs arbitrary: r)
  case (Cons d cs)
  then show ?case using good_register [of r d] by (cases "register r d") simp
qed (simp add: names_set)

text \<open>The first codec of each name wins.\<close>

lemma register_seq_first:
  assumes "live r" and "lookup r n = None" and "codec_key n \<noteq> []"
  shows "lookup (register_seq r cs) n =
    find (\<lambda>c. codec_key (Name c) = codec_key n) (map the (filter (\<lambda>c. c \<noteq> None) cs))"
  using assms(1,2)
proof (induction cs arbitrary: r)
  case (Cons c cs)
  show ?case
  proof (cases "\<exists>d. c = Some d \<and> codec_key (Name d) = codec_key n")
    case True
    then obtain d where d: "c = Some d" "codec_key (Name d) = codec_key n" by blast
    have "lookup r (Name d) = None" using Cons.prems(2) d(2) lookup_key by metis
    then obtain r' where "register r c = (None, r')" "lookup r' n = Some d"
      using register_new [OF Cons.prems(1), of d] d assms(3) by auto
    then show ?thesis using d register_seq_keeps by simp
  next
    case False
    have "lookup (snd (register r c)) n = None"
    proof (cases "\<not> live r \<or> c = None \<or> codec_key (Name (the c)) = [] \<or> lookup r (Name (the c)) \<noteq> None")
      case True
      then show ?thesis using register_refused [OF True] Cons.prems by auto
    next
      case new: False
      then show ?thesis using register_new [of r "the c"] False Cons.prems by auto
    qed
    then have "lookup (register_seq r (c # cs)) n =
        find (\<lambda>c. codec_key (Name c) = codec_key n) (map the (filter (\<lambda>c. c \<noteq> None) cs))"
      using Cons.IH [OF register_live [OF Cons.prems(1)]] by simp
    then show ?thesis using False by (cases c) auto
  qed
qed simp

end

section \<open>The registry keeps it\<close>

lemma codec_key_idem [simp]: "codec_key (codec_key n) = codec_key n"
  by (simp add: codec_key_def trim_space_to_lower)

text \<open>The invariant: every key is a normalised name, and none is empty.\<close>

definition Registry_ok :: "('m, 'o codec) cmap \<Rightarrow> 'm option \<Rightarrow> bool" where
  "Registry_ok M r \<longleftrightarrow>
     (\<forall>m k. r = Some m \<longrightarrow> cm_get M m k \<noteq> None \<longrightarrow> codec_key k = k \<and> k \<noteq> [])"

locale concurrent_map =
  fixes M :: "('m, 'o codec) cmap"
  assumes laws: "cmap_ok M"
begin

lemma get_new: "cm_get M (cm_new M n) k = None"
  using laws by (simp add: cmap_ok_def)

lemma store_old: "cm_get M m k = Some old \<Longrightarrow> cm_get_or_store M m k c = ((old, True), m)"
  using laws by (simp add: cmap_ok_def)

lemma store_new:
  assumes "cm_get M m k = None"
  obtains m' where "cm_get_or_store M m k c = ((c, False), m')"
    "\<And>k'. cm_get M m' k' = (if k' = k then Some c else cm_get M m k')"
  using laws assms unfolding cmap_ok_def by metis

lemma keys: "distinct (cm_keys M m)" "set (cm_keys M m) = {k. cm_get M m k \<noteq> None}"
  using laws by (simp_all add: cmap_ok_def)

lemma register_stored:
  assumes "codec_key (Name c) \<noteq> []" and "cm_get M m (codec_key (Name c)) = None"
  obtains m' where "Registry_Register L M (Some m) (Some c) = (None, Some m')"
    "\<And>k. cm_get M m' k = (if k = codec_key (Name c) then Some c else cm_get M m k)"
proof -
  obtain m' where "cm_get_or_store M m (codec_key (Name c)) c = ((c, False), m')"
    "\<And>k. cm_get M m' k = (if k = codec_key (Name c) then Some c else cm_get M m k)"
    using store_new [OF assms(2)] by blast
  then show thesis using assms(1) that by (simp add: Registry_Register_def Let_def)
qed

lemma register_stored_ex:
  assumes "codec_key (Name c) = k" and "k \<noteq> []" and "cm_get M m k = None"
  shows "\<exists>m'. Registry_Register L M (Some m) (Some c) = (None, Some m') \<and>
    (\<forall>k'. cm_get M m' k' = (if k' = k then Some c else cm_get M m k'))"
  using register_stored [of c m L] assms by metis

text \<open>Each way a registration fails, with the error it is.\<close>

lemma register_fails:
  assumes "oops_ok L" and "r \<noteq> None"
  shows "c = None \<Longrightarrow> \<exists>e. Registry_Register L M r c = (Some e, r) \<and> errors_is (Some e) ErrNilCodec"
    and "c = Some d \<Longrightarrow> codec_key (Name d) = [] \<Longrightarrow>
      \<exists>e. Registry_Register L M r c = (Some e, r) \<and> errors_is (Some e) ErrCodecNameEmpty"
    and "c = Some d \<Longrightarrow> codec_key (Name d) \<noteq> [] \<Longrightarrow> Registry_Get M r (Name d) = Some old \<Longrightarrow>
      \<exists>e. Registry_Register L M r c = (Some e, r) \<and> errors_is (Some e) ErrCodecExists"
proof -
  obtain m where r: "r = Some m" using assms(2) by blast
  have w: "\<exists>e. oops_wrapf L dm a (Some x) tx = Some e \<and> errors_is (Some e) x" for dm a x tx
    by (rule oops_wrapf_SomeE [OF assms(1), of dm a x tx]) (auto simp: errors_is_Some)
  show "c = None \<Longrightarrow> \<exists>e. Registry_Register L M r c = (Some e, r) \<and> errors_is (Some e) ErrNilCodec"
    using w by (simp add: Registry_Register_def r)
  show "c = Some d \<Longrightarrow> codec_key (Name d) = [] \<Longrightarrow>
      \<exists>e. Registry_Register L M r c = (Some e, r) \<and> errors_is (Some e) ErrCodecNameEmpty"
    using w by (simp add: Registry_Register_def r)
  show "c = Some d \<Longrightarrow> codec_key (Name d) \<noteq> [] \<Longrightarrow> Registry_Get M r (Name d) = Some old \<Longrightarrow>
      \<exists>e. Registry_Register L M r c = (Some e, r) \<and> errors_is (Some e) ErrCodecExists"
    using w store_old by (simp add: Registry_Register_def Registry_Get_def r Let_def)
qed

lemma register_refuses:
  assumes "oops_ok L"
    and "r = None \<or> c = None \<or> codec_key (Name (the c)) = [] \<or> Registry_Get M r (Name (the c)) \<noteq> None"
  shows "\<exists>e. Registry_Register L M r c = (Some e, r)"
proof (cases r)
  case (Some m)
  then have "r \<noteq> None" by simp
  from register_fails [OF assms(1) this, of c] show ?thesis
    using assms(2) Some by (cases c; cases "codec_key (Name (the c)) = []") fastforce+
qed (simp add: Registry_Register_def)

lemma register_ok:
  assumes "Registry_ok M r" and "Registry_Register (lawful L) M r d = (e, r')"
  shows "Registry_ok M r'"
proof (cases "r = None \<or> d = None \<or> codec_key (Name (the d)) = [] \<or> Registry_Get M r (Name (the d)) \<noteq> None")
  case True
  then obtain x where "Registry_Register (lawful L) M r d = (Some x, r)"
    using register_refuses [OF lawful_ok] by blast
  then have "r' = r" using assms(2) by simp
  then show ?thesis using assms(1) by simp
next
  case False
  then obtain m c where rd: "r = Some m" "d = Some c" "codec_key (Name c) \<noteq> []"
    "cm_get M m (codec_key (Name c)) = None" by (auto simp: Registry_Get_def)
  obtain m' where "Registry_Register (lawful L) M (Some m) (Some c) = (None, Some m')"
    "\<And>k. cm_get M m' k = (if k = codec_key (Name c) then Some c else cm_get M m k)"
    using register_stored [OF rd(3,4)] by blast
  note m' = this
  have "codec_key k = k \<and> k \<noteq> []" if "cm_get M m' k \<noteq> None" for k
    using that m'(2) rd(1,3) assms(1)
    by (cases "k = codec_key (Name c)") (auto simp: Registry_ok_def)
  moreover have "r' = Some m'" using m'(1) assms(2) rd by simp
  ultimately show ?thesis by (simp add: Registry_ok_def)
qed

lemma names_ok:
  assumes "Registry_ok M r"
  shows "set (Registry_Names M r) = {n. codec_key n = n \<and> Registry_Get M r n \<noteq> None}"
proof (cases r)
  case (Some m)
  have "codec_key k = k" if "cm_get M m k \<noteq> None" for k
    using assms that Some by (simp add: Registry_ok_def)
  then have "{k. cm_get M m k \<noteq> None} = {n. codec_key n = n \<and> cm_get M m (codec_key n) \<noteq> None}"
    by auto
  then show ?thesis using Some keys(2) by (simp add: Registry_Names_def Registry_Get_def)
qed (simp add: Registry_Names_def Registry_Get_def)

end

sublocale concurrent_map \<subseteq> registry: name_table "Registry_Get M" "Registry_Register (lawful L) M"
    "Registry_Names M" "\<lambda>r. r \<noteq> None" "Registry_ok M" for L :: lib
proof
  fix r :: "'m option" and n
  show "Registry_Get M r (codec_key n) = Registry_Get M r n"
    by (simp add: Registry_Get_def split: option.split)
next
  fix r :: "'m option" and c :: "'o codec"
  assume r: "r \<noteq> None" "codec_key (Name c) \<noteq> []" "Registry_Get M r (Name c) = None"
  then obtain m where m: "r = Some m" "cm_get M m (codec_key (Name c)) = None"
    by (auto simp: Registry_Get_def)
  obtain m' where "Registry_Register (lawful L) M (Some m) (Some c) = (None, Some m')"
    "\<And>k. cm_get M m' k = (if k = codec_key (Name c) then Some c else cm_get M m k)"
    using register_stored [OF r(2) m(2)] by blast
  then show "\<exists>r'. Registry_Register (lawful L) M r (Some c) = (None, r') \<and> r' \<noteq> None \<and>
      (\<forall>n. Registry_Get M r' n = (if codec_key n = codec_key (Name c) then Some c else Registry_Get M r n))"
    using m(1) by (auto simp: Registry_Get_def)
next
  fix r :: "'m option" and d :: "'o codec option"
  assume "\<not> r \<noteq> None \<or> d = None \<or> codec_key (Name (the d)) = [] \<or> Registry_Get M r (Name (the d)) \<noteq> None"
  then show "\<exists>e. Registry_Register (lawful L) M r d = (Some e, r)"
    by (intro register_refuses) auto
next
  fix r r' :: "'m option" and d :: "'o codec option" and e
  assume "Registry_ok M r" "Registry_Register (lawful L) M r d = (e, r')"
  then show "Registry_ok M r'" by (rule register_ok)
next
  fix r :: "'m option"
  show "sorted (Registry_Names M r) \<and> distinct (Registry_Names M r)"
    by (simp add: Registry_Names_def keys split: option.split)
  assume "Registry_ok M r"
  then show "set (Registry_Names M r) = {n. codec_key n = n \<and> Registry_Get M r n \<noteq> None}"
    by (rule names_ok)
qed

interpretation assoc: concurrent_map assoc_map
  by unfold_locales simp

section \<open>Properties\<close>

text \<open>A sequence of registrations, the errors aside.\<close>

fun register_each ::
  "lib \<Rightarrow> ('m, 'o codec) cmap \<Rightarrow> 'm option \<Rightarrow> 'o codec option list \<Rightarrow> 'm option" where
  "register_each L M r [] = r"
| "register_each L M r (c # cs) = register_each L M (snd (Registry_Register L M r c)) cs"

context concurrent_map begin

lemma register_each_seq: "registry.register_seq L r cs = register_each (lawful L) M r cs"
  by (induction cs arbitrary: r) simp_all

lemma new_ok: "Registry_ok M (Some (cm_new M n))"
  by (simp add: Registry_ok_def get_new)

lemma first_wins:
  assumes "codec_key n \<noteq> []"
  shows "Registry_Get M (register_each (lawful L) M (Some (cm_new M k)) cs) n =
    find (\<lambda>c. codec_key (Name c) = codec_key n) (map the (filter (\<lambda>c. c \<noteq> None) cs))"
  using registry.register_seq_first [of "Some (cm_new M k)" n L cs] assms
  by (simp add: register_each_seq Registry_Get_def get_new)

lemma names_listed:
  "set (Registry_Names M (register_each (lawful L) M (Some (cm_new M k)) cs)) =
     {n. codec_key n = n \<and> Registry_Get M (register_each (lawful L) M (Some (cm_new M k)) cs) n \<noteq> None}"
  using registry.register_seq_names [of "Some (cm_new M k)" L cs]
  by (simp add: register_each_seq new_ok)

lemma names_strict: "sorted_wrt (<) (Registry_Names M r)"
  by (simp add: strict_sorted_iff Registry_Names_def keys split: option.split)

lemma registerAll_each:
  "registerAll L M r cs = Ret r' \<Longrightarrow> register_each L M r cs = r'"
proof (induction cs arbitrary: r)
  case (Cons c cs)
  then show ?case
    by (cases "Registry_Register L M r c") (auto simp: mustRegisterCodec_def split: if_splits)
qed simp

lemma default_registry:
  "\<exists>m. defaultRegistry (lawful L) R M = Ret (Some m) \<and>
     (\<forall>k. cm_get M m k = (if k = ''json'' then Some (JSONCodec (lawful L) R)
        else if k = ''text'' then Some (TextCodec (lawful L) R)
        else if k = ''bytes'' then Some (BytesCodec (lawful L) R) else None))"
proof -
  let ?L = "lawful L"
  have key: "codec_key (Name (JSONCodec ?L R)) = ''json''" "codec_key (Name (TextCodec ?L R)) = ''text''"
    "codec_key (Name (BytesCodec ?L R)) = ''bytes''"
    by (simp_all add: JSONCodec_def TextCodec_def BytesCodec_def codec_key_def to_lower_def lower_char_def
        trim_space_def trim_right_def is_space_def Let_def)
  obtain m1 where m1: "Registry_Register ?L M (Some (cm_new M (Suc (Suc (Suc 0))))) (Some (JSONCodec ?L R)) = (None, Some m1)"
    "\<And>k. cm_get M m1 k = (if k = ''json'' then Some (JSONCodec ?L R) else None)"
    using register_stored_ex [OF key(1), of "cm_new M (Suc (Suc (Suc 0)))" ?L] by (auto simp: get_new)
  obtain m2 where m2: "Registry_Register ?L M (Some m1) (Some (TextCodec ?L R)) = (None, Some m2)"
    "\<And>k. cm_get M m2 k = (if k = ''text'' then Some (TextCodec ?L R) else cm_get M m1 k)"
    using register_stored_ex [OF key(2), of m1 ?L] by (auto simp: m1(2))
  obtain m3 where m3: "Registry_Register ?L M (Some m2) (Some (BytesCodec ?L R)) = (None, Some m3)"
    "\<And>k. cm_get M m3 k = (if k = ''bytes'' then Some (BytesCodec ?L R) else cm_get M m2 k)"
    using register_stored_ex [OF key(3), of m2 ?L] by (auto simp: m1(2) m2(2))
  have "defaultRegistry ?L R M = Ret (Some m3)"
    by (simp add: defaultRegistry_def NewRegistry_def mustRegisterCodec_def m1(1) m2(1) m3(1))
  then show ?thesis using m1(2) m2(2) m3(2) by auto
qed

end

text \<open>
  C39: registration is first come, first served, up to case and surrounding space: after any sequence
  of registrations, of nil and nameless codecs too, a name finds the first codec that was registered
  under it, and \<open>Names\<close> lists, in increasing order and once each, exactly the normalised names that
  find one.
\<close>

theorem registry_first_wins:
  assumes "cmap_ok M" and "oops_ok L" and "codec_key n \<noteq> []"
  shows "Registry_Get M (register_each L M (Some (cm_new M k)) cs) n =
      find (\<lambda>c. codec_key (Name c) = codec_key n) (map the (filter (\<lambda>c. c \<noteq> None) cs)) \<and>
    sorted_wrt (<) (Registry_Names M (register_each L M (Some (cm_new M k)) cs)) \<and>
    (codec_key n = n \<longrightarrow> n \<in> set (Registry_Names M (register_each L M (Some (cm_new M k)) cs)) \<longleftrightarrow>
      Registry_Get M (register_each L M (Some (cm_new M k)) cs) n \<noteq> None)"
proof -
  note laws = concurrent_map.intro [OF assms(1)]
  have "lawful L = L" using assms(2) by (rule lawful_eq)
  then have names: "set (Registry_Names M (register_each L M (Some (cm_new M k)) cs)) =
      {n. codec_key n = n \<and> Registry_Get M (register_each L M (Some (cm_new M k)) cs) n \<noteq> None}"
    using concurrent_map.names_listed [OF laws, of L k cs] by simp
  show ?thesis
    using concurrent_map.first_wins [OF laws assms(3), of L k cs] \<open>lawful L = L\<close> names
      concurrent_map.names_strict [OF laws] by simp
qed

definition upper_text :: "unit codec" where
  "upper_text = (TextCodec plain_lib no_runtime)\<lparr>Name := '' TEXT ''\<rparr>"

theorem registry_first_wins_witness:
  "codec_key ''text'' \<noteq> [] \<and>
   Registry_Get assoc_map (register_each plain_lib assoc_map (Some (cm_new assoc_map 2))
      [None, Some upper_text, Some (TextCodec plain_lib no_runtime)]) ''text'' = Some upper_text"
proof -
  have k: "codec_key ''text'' = ''text''" "codec_key (Name upper_text) = ''text''"
    by (simp_all add: upper_text_def) code_simp+
  then have h: "codec_key ''text'' \<noteq> []" by simp
  show ?thesis
    using registry_first_wins [OF assoc_map_ok plain_lib_ok h, of 2
        "[None, Some upper_text, Some (TextCodec plain_lib no_runtime)]"] k by simp
qed

text \<open>
  What a registration reports and does, case by case: a nil codec, an empty name and a taken name
  are refused with the error of that name and change nothing, any other codec is registered.
\<close>

theorem registry_register_cases:
  assumes "cmap_ok M" and "oops_ok L" and "r \<noteq> None"
  shows "case Registry_Register L M r c of (e, r') \<Rightarrow>
    (case c of
       None \<Rightarrow> r' = r \<and> errors_is e ErrNilCodec
     | Some d \<Rightarrow>
         if codec_key (Name d) = [] then r' = r \<and> errors_is e ErrCodecNameEmpty
         else if Registry_Get M r (Name d) \<noteq> None then r' = r \<and> errors_is e ErrCodecExists
         else e = None \<and> Registry_Get M r' (Name d) = Some d)"
proof (cases c)
  case None
  then show ?thesis
    using concurrent_map.register_fails(1) [OF concurrent_map.intro [OF assms(1)] assms(2,3), of c] by auto
next
  case (Some d)
  note laws = concurrent_map.intro [OF assms(1)]
  obtain m where r: "r = Some m" using assms(3) by blast
  consider "codec_key (Name d) = []" | old where "codec_key (Name d) \<noteq> []" "Registry_Get M r (Name d) = Some old"
    | "codec_key (Name d) \<noteq> []" "Registry_Get M r (Name d) = None" by blast
  then show ?thesis
  proof cases
    case 1
    then show ?thesis using concurrent_map.register_fails(2) [OF laws assms(2,3) Some] Some by auto
  next
    case 2
    then show ?thesis using concurrent_map.register_fails(3) [OF laws assms(2,3) Some] Some by auto
  next
    case 3
    then have "cm_get M m (codec_key (Name d)) = None" by (simp add: Registry_Get_def r)
    from concurrent_map.register_stored [OF laws 3(1) this, of L] obtain m' where
      "Registry_Register L M (Some m) (Some d) = (None, Some m')"
      "cm_get M m' (codec_key (Name d)) = Some d" by metis
    then show ?thesis using 3 Some r by (simp add: Registry_Get_def)
  qed
qed

theorem registry_register_cases_witness:
  "case Registry_Register plain_lib assoc_map (Some assoc_empty) (Some ((TextCodec plain_lib no_runtime)\<lparr>Name := ''  ''\<rparr>))
   of (e, r') \<Rightarrow> r' = Some assoc_empty \<and> errors_is e ErrCodecNameEmpty"
proof -
  have r: "(Some assoc_empty :: unit codec assoc option) \<noteq> None" by simp
  have k: "codec_key (Name ((TextCodec plain_lib no_runtime)\<lparr>Name := ''  ''\<rparr>)) = []"
    by (simp add: codec_key_def to_lower_def lower_char_def trim_space_def trim_right_def is_space_def Let_def)
  show ?thesis
    using registry_register_cases [OF assoc_map_ok plain_lib_ok r,
        of "Some ((TextCodec plain_lib no_runtime)\<lparr>Name := ''  ''\<rparr>)"] k by simp
qed

text \<open>
  The default registry is built without a panic and holds exactly the three built-in codecs,
  whatever the case and the space around a name; \<open>Must\<close> panics for any other.
\<close>

theorem default_registry_codecs:
  assumes "cmap_ok M" and "oops_ok L"
  shows "\<exists>r. defaultRegistry L R M = Ret r \<and>
    Registry_Names M r = [''bytes'', ''json'', ''text''] \<and>
    Registry_Must M r '' JSON'' = Ret (JSONCodec L R) \<and> Registry_Must M r ''xml'' = Panic"
proof -
  note laws = concurrent_map.intro [OF assms(1)]
  have L: "lawful L = L" using assms(2) by (rule lawful_eq)
  obtain m where m: "defaultRegistry L R M = Ret (Some m)"
    "\<And>k. cm_get M m k = (if k = ''json'' then Some (JSONCodec L R)
        else if k = ''text'' then Some (TextCodec L R) else if k = ''bytes'' then Some (BytesCodec L R) else None)"
    using concurrent_map.default_registry [OF laws, of L R] unfolding L by blast
  have "set (cm_keys M m) = {''bytes'', ''json'', ''text''}"
    using concurrent_map.keys(2) [OF laws, of m] m(2) by auto
  moreover have "sorted_wrt (<) [''bytes'', ''json'', ''text'']" by (simp add: less_char_def)
  moreover have "sorted_wrt (<) (Registry_Names M (Some m))" by (rule concurrent_map.names_strict [OF laws])
  ultimately have "Registry_Names M (Some m) = [''bytes'', ''json'', ''text'']"
    by (intro sorted_distinct_set_unique) (auto simp: strict_sorted_iff Registry_Names_def)
  moreover have "codec_key '' JSON'' = ''json''" "codec_key ''xml'' = ''xml''" by code_simp+
  ultimately show ?thesis using m by (simp add: Registry_Must_def Registry_GetOption_def Registry_Get_def)
qed

theorem default_registry_codecs_witness:
  "\<exists>r. defaultRegistry plain_lib no_runtime assoc_map = Ret r \<and>
    Registry_Names assoc_map r = [''bytes'', ''json'', ''text'']"
  using default_registry_codecs [OF assoc_map_ok plain_lib_ok, of no_runtime] by blast

end
