(* ===== verification/Client_Error.thy ===== *)
theory Client_Error
  imports Go_Errors
begin

text \<open>
  \<^verbatim>\<open>error.go\<close>: the enriched error \<open>*clientx.Error\<close>, its construction by \<open>WrapError\<close> and
  \<open>WrapErrorWithKind\<close>, the queries \<open>IsKind\<close> and \<open>KindOf\<close>, and the classification of an
  arbitrary error into a kind. A query that dereferences a nil pointer is \<open>Panic\<close>. A pair
  \<open>(ErrorKind, bool)\<close> returned by a classifier is \<open>Some kind\<close> or \<open>None\<close>.
\<close>

section \<open>Methods and queries\<close>

fun error_kind :: "go_error \<Rightarrow> string res" where
  "error_kind (ClientError p op addr kind e) = Ret kind"
| "error_kind e = Panic"

fun Error_Temporary :: "go_error \<Rightarrow> bool" where
  "Error_Temporary (ClientError p op addr kind e) = (kind = ErrorKindTemporary)"
| "Error_Temporary e = False"

definition IsKind :: "go_error option \<Rightarrow> string \<Rightarrow> bool res" where
  "IsKind err kind =
     (case errors_as is_client_error err of
        None \<Rightarrow> Ret False
      | Some e \<Rightarrow> rbind (error_kind e) (\<lambda>k. Ret (k = kind)))"

definition KindOf :: "go_error option \<Rightarrow> string res" where
  "KindOf err =
     (case errors_as is_client_error err of
        None \<Rightarrow> Ret ErrorKindUnknown
      | Some e \<Rightarrow> error_kind e)"

section \<open>Classification\<close>

definition classifyContextError :: "go_error \<Rightarrow> string option" where
  "classifyContextError err =
     (if errors_is (Some err) CtxCanceled then Some ErrorKindCanceled
      else if errors_is (Some err) CtxDeadline then Some ErrorKindTimeout
      else None)"

definition classifyClosedError :: "go_error \<Rightarrow> string option" where
  "classifyClosedError err =
     (if errors_is (Some err) NetClosed \<or> errors_is (Some err) OsClosed
      then Some ErrorKindClosed else None)"

definition classifyDNSError :: "go_error \<Rightarrow> string option" where
  "classifyDNSError err =
     (case errors_as is_dns_error (Some err) of
        Some d \<Rightarrow> Some ErrorKindDNS
      | None \<Rightarrow> None)"

definition classifyTimeoutNetworkError :: "go_error \<Rightarrow> string option" where
  "classifyTimeoutNetworkError err =
     (case errors_as is_net_error (Some err) of
        Some n \<Rightarrow> if timeout_method n = Some True then Some ErrorKindTimeout else None
      | None \<Rightarrow> None)"

fun syscall_err :: "go_error \<Rightarrow> go_error" where
  "syscall_err (SyscallError s e) = e"
| "syscall_err e = e"

fun op_err :: "go_error \<Rightarrow> go_error" where
  "op_err (OpError op net src ad e) = e"
| "op_err e = e"

lemma size_syscall_err: "is_syscall_error e \<Longrightarrow> size (syscall_err e) < size e"
  by (cases e) simp_all

lemma size_errors_as: "errors_as P (Some e) = Some x \<Longrightarrow> size x \<le> size e \<and> P x"
  using errors_as_in_chain size_chain by blast

function isConnRefused :: "go_error \<Rightarrow> bool" where
  "isConnRefused err =
     (if errors_is (Some err) (Errno ECONNREFUSED) then True
      else (case errors_as is_errno (Some err) of
              Some errno \<Rightarrow> errno \<in> set [Errno ECONNREFUSED, Errno 10061]
            | None \<Rightarrow>
                (case errors_as is_syscall_error (Some err) of
                   Some sys \<Rightarrow> isConnRefused (syscall_err sys)
                 | None \<Rightarrow> False)))"
  by pat_completeness auto
termination
  by (relation "measure size")
    (auto dest!: size_errors_as dest: size_syscall_err order_less_le_trans)

declare isConnRefused.simps [simp del]

definition classifyOpNetworkError :: "go_error \<Rightarrow> string option" where
  "classifyOpNetworkError err =
     (case errors_as is_op_error (Some err) of
        None \<Rightarrow> None
      | Some op \<Rightarrow>
          if isConnRefused (op_err op) then Some ErrorKindConnRefused
          else Some ErrorKindNetwork)"

definition classifyConnRefusedError :: "go_error \<Rightarrow> string option" where
  "classifyConnRefusedError err =
     (if isConnRefused err then Some ErrorKindConnRefused else None)"

definition classifyGenericNetworkError :: "go_error \<Rightarrow> string option" where
  "classifyGenericNetworkError err =
     (case errors_as is_net_error (Some err) of
        Some n \<Rightarrow> Some ErrorKindNetwork
      | None \<Rightarrow> None)"

definition classifyTypedNetworkError :: "go_error \<Rightarrow> string option" where
  "classifyTypedNetworkError err =
     (case find (\<lambda>classify. classify err \<noteq> None)
        [classifyDNSError,
         classifyTimeoutNetworkError,
         classifyOpNetworkError,
         classifyConnRefusedError,
         classifyGenericNetworkError] of
        Some classify \<Rightarrow> classify err
      | None \<Rightarrow> None)"

definition classifyMessageError :: "lib \<Rightarrow> go_error \<Rightarrow> string" where
  "classifyMessageError L err =
     (let msg = to_lower (error_text L err) in
      if str_contains msg ''tls'' \<or> str_contains msg ''x509'' \<or> str_contains msg ''certificate''
      then ErrorKindTLS
      else if str_contains msg ''use of closed network connection'' \<or>
              str_contains msg ''file already closed''
      then ErrorKindClosed
      else if str_contains msg ''network'' then ErrorKindNetwork
      else ErrorKindUnknown)"

definition classifyErrorKind :: "lib \<Rightarrow> go_error option \<Rightarrow> string" where
  "classifyErrorKind L err =
     (case err of
        None \<Rightarrow> ErrorKindUnknown
      | Some e \<Rightarrow>
          (case classifyContextError e of
             Some kind \<Rightarrow> kind
           | None \<Rightarrow>
               (case classifyClosedError e of
                  Some kind \<Rightarrow> kind
                | None \<Rightarrow>
                    (case classifyTypedNetworkError e of
                       Some kind \<Rightarrow> kind
                     | None \<Rightarrow> classifyMessageError L e))))"

section \<open>Construction\<close>

definition WrapErrorWithKind ::
  "lib \<Rightarrow> string \<Rightarrow> string \<Rightarrow> string \<Rightarrow> string \<Rightarrow> go_error option \<Rightarrow> go_error option" where
  "WrapErrorWithKind L protocol op addr kind err =
     (if err = None then None
      else if (case errors_as is_client_error err of
                 Some existing \<Rightarrow> existing \<noteq> NilClientError
               | None \<Rightarrow> False)
      then err
      else
        (let protocol = (if protocol = [] then ProtocolUnknown else protocol) in
         Some (ClientError protocol op addr
                 (if kind \<noteq> [] then kind else classifyErrorKind L err) err)))"

definition WrapError ::
  "lib \<Rightarrow> string \<Rightarrow> string \<Rightarrow> string \<Rightarrow> go_error option \<Rightarrow> go_error option" where
  "WrapError L protocol op addr err = WrapErrorWithKind L protocol op addr [] err"

section \<open>Properties of the classification\<close>

text \<open>The third branch of \<open>isConnRefused\<close> never answers: an \<open>Errno\<close> below a \<open>SyscallError\<close> is
  already found by the second.\<close>

lemma errors_as_mono_None:
  "errors_as P (Some e) = None \<Longrightarrow> x \<in> set (chain e) \<Longrightarrow> errors_as P (Some x) = None"
  by (auto simp: errors_as_Some find_None_iff dest: chain_trans)

lemma syscall_err_in_chain:
  "is_syscall_error s \<Longrightarrow> s \<in> set (chain e) \<Longrightarrow> syscall_err s \<in> set (chain e)"
  by (cases s) (auto intro: chain_trans [of _ s])

lemma isConnRefused_no_errno:
  "errors_as is_errno (Some e) = None \<Longrightarrow> \<not> isConnRefused e"
proof (induction e rule: isConnRefused.induct)
  case (1 e)
  have no_refused: "\<not> errors_is (Some e) (Errno ECONNREFUSED)"
    using "1.prems"
    by (auto simp: errors_is_Some errors_as_Some find_None_iff elim!: is_method.elims)
  show ?case
  proof (cases "errors_as is_syscall_error (Some e)")
    case None
    then show ?thesis using "1.prems" no_refused by (simp add: isConnRefused.simps [of e])
  next
    case (Some s)
    then have "syscall_err s \<in> set (chain e)"
      using errors_as_in_chain syscall_err_in_chain by blast
    then have "errors_as is_errno (Some (syscall_err s)) = None"
      by (rule errors_as_mono_None [OF "1.prems"])
    then have "\<not> isConnRefused (syscall_err s)"
      by (rule "1.IH" [OF no_refused "1.prems" Some])
    then show ?thesis using "1.prems" no_refused Some by (simp add: isConnRefused.simps [of e])
  qed
qed

text \<open>A connection counts as refused exactly when the tree holds \<open>ECONNREFUSED\<close>, or its first
  system error number is the one of Windows; the descent into a \<open>SyscallError\<close> decides nothing.\<close>

theorem isConnRefused_iff:
  "isConnRefused e \<longleftrightarrow>
     errors_is (Some e) (Errno ECONNREFUSED) \<or> errors_as is_errno (Some e) = Some (Errno 10061)"
proof (cases "errors_as is_errno (Some e)")
  case None
  then show ?thesis
    using isConnRefused_no_errno [OF None]
    by (auto simp: isConnRefused.simps [of e])
next
  case (Some n)
  have "n = Errno ECONNREFUSED \<Longrightarrow> errors_is (Some e) (Errno ECONNREFUSED)"
    using errors_as_in_chain [OF Some] by (auto simp: errors_is_Some)
  then show ?thesis using Some by (auto simp: isConnRefused.simps [of e])
qed

lemmas classifier_defs = classifyDNSError_def classifyTimeoutNetworkError_def
  classifyOpNetworkError_def classifyConnRefusedError_def classifyGenericNetworkError_def

lemma classify_order:
  "classifyErrorKind L (Some e) =
     (if errors_is (Some e) CtxCanceled then ErrorKindCanceled
      else if errors_is (Some e) CtxDeadline then ErrorKindTimeout
      else if errors_is (Some e) NetClosed \<or> errors_is (Some e) OsClosed then ErrorKindClosed
      else if errors_as is_dns_error (Some e) \<noteq> None then ErrorKindDNS
      else if map_option timeout_method (errors_as is_net_error (Some e)) = Some (Some True)
      then ErrorKindTimeout
      else case errors_as is_op_error (Some e) of
             Some op \<Rightarrow> if isConnRefused (op_err op) then ErrorKindConnRefused else ErrorKindNetwork
           | None \<Rightarrow>
               if isConnRefused e then ErrorKindConnRefused
               else if errors_as is_net_error (Some e) \<noteq> None then ErrorKindNetwork
               else classifyMessageError L e)"
  by (cases "errors_as is_dns_error (Some e)"; cases "errors_as is_net_error (Some e)";
      cases "errors_as is_op_error (Some e)")
    (simp_all add: classifyErrorKind_def classifyContextError_def classifyClosedError_def
      classifyTypedNetworkError_def classifier_defs)

text \<open>
  The errors of Go's network calls, by their shape: what a resolver, a dialer, a socket or a context gives,
  bare or inside a \<open>net.OpError\<close>. \<open>cause_kind\<close> is the kind a cause stands for; a cause that stands for none
  is a network error for having come out of a \<open>net.OpError\<close>.
\<close>

fun errno_kind :: "nat \<Rightarrow> string" where
  "errno_kind n = (if n = EAGAIN \<or> n = ETIMEDOUT then ErrorKindTimeout
     else if n = ECONNREFUSED \<or> n = 10061 then ErrorKindConnRefused else ErrorKindNetwork)"

fun cause_kind :: "go_error \<Rightarrow> string option" where
  "cause_kind CtxCanceled = Some ErrorKindCanceled"
| "cause_kind NetCanceled = Some ErrorKindCanceled"
| "cause_kind CtxDeadline = Some ErrorKindTimeout"
| "cause_kind NetTimeout = Some ErrorKindTimeout"
| "cause_kind OsDeadline = Some ErrorKindTimeout"
| "cause_kind NetClosed = Some ErrorKindClosed"
| "cause_kind OsClosed = Some ErrorKindClosed"
| "cause_kind (Errno n) = Some (errno_kind n)"
| "cause_kind (SyscallError call (Errno n)) = Some (errno_kind n)"
| "cause_kind (DNSError t h server timed_out None) = Some ErrorKindDNS"
| "cause_kind e = None"

fun network_kind :: "go_error \<Rightarrow> string option" where
  "network_kind (OpError op net src ad e) =
     (case cause_kind e of
        Some k \<Rightarrow> Some k
      | None \<Rightarrow> (case e of
          ErrNew v t \<Rightarrow> Some ErrorKindNetwork
        | ErrEOF \<Rightarrow> Some ErrorKindNetwork
        | ErrUnexpectedEOF \<Rightarrow> Some ErrorKindNetwork
        | _ \<Rightarrow> None))"
| "network_kind e = cause_kind e"

text \<open>\<open>wraps x e\<close>: \<open>x\<close> is \<open>e\<close> inside any number of wrappers of one error, as \<open>fmt\<close>, \<open>oops\<close> and \<open>errors.Join\<close> make them.\<close>

inductive wraps :: "go_error \<Rightarrow> go_error \<Rightarrow> bool" where
  bare: "wraps e e"
| wrapper: "wraps x e \<Longrightarrow> wraps (Foreign ty t None [x]) e"
| joined: "wraps x e \<Longrightarrow> wraps (JoinError [x]) e"

lemma wraps_queries:
  assumes "wraps x e"
  shows "(\<not> is_foreign t \<longrightarrow> (\<forall>es. t \<noteq> JoinError es) \<longrightarrow> errors_is (Some x) t = errors_is (Some e) t) \<and>
    errors_as is_net_error (Some x) = errors_as is_net_error (Some e) \<and>
    errors_as is_dns_error (Some x) = errors_as is_dns_error (Some e) \<and>
    errors_as is_op_error (Some x) = errors_as is_op_error (Some e) \<and>
    errors_as is_errno (Some x) = errors_as is_errno (Some e) \<and>
    errors_as is_client_error (Some x) = errors_as is_client_error (Some e)"
  using assms by (induction rule: wraps.induct) (auto simp: errors_is_Some errors_as_Some)

lemma classify_wraps:
  assumes "wraps x e" and "errors_is (Some e) CtxCanceled \<or> errors_is (Some e) OsClosed \<or> errors_as is_net_error (Some e) \<noteq> None"
  shows "classifyErrorKind L (Some x) = classifyErrorKind M (Some e)"
proof -
  note q = wraps_queries [OF assms(1)]
  have same: "errors_is (Some x) t = errors_is (Some e) t"
    if "t \<in> {CtxCanceled, CtxDeadline, NetClosed, OsClosed, Errno ECONNREFUSED}" for t
    using q [of t] that by auto
  have r: "isConnRefused x = isConnRefused e"
    using q [of "Errno ECONNREFUSED"] by (simp add: isConnRefused_iff)
  show ?thesis
    using assms(2) q r by (auto simp: classify_order same split: option.split)
qed

lemmas no_timeout = timeout_method.simps [of "ErrNew _ _"] timeout_method.simps [of ErrEOF]
  timeout_method.simps [of ErrUnexpectedEOF]

lemma classify_network:
  assumes "network_kind e = Some k"
  shows "classifyErrorKind M (Some e) = k"
    and "errors_is (Some e) CtxCanceled \<or> errors_is (Some e) OsClosed \<or> errors_as is_net_error (Some e) \<noteq> None"
    and "errors_as is_client_error (Some e) = None"
proof -
  have cause: "classifyErrorKind M (Some e) = k \<and>
      (errors_is (Some e) CtxCanceled \<or> errors_is (Some e) OsClosed \<or> errors_as is_net_error (Some e) \<noteq> None) \<and>
      errors_as is_client_error (Some e) = None" if "cause_kind e = Some k" for e
    using that
    by (cases e rule: cause_kind.cases)
      (auto simp: classify_order isConnRefused_iff errors_is_Some errors_as_Some errno_defs split: if_splits)
  have "classifyErrorKind M (Some e) = k \<and>
      (errors_is (Some e) CtxCanceled \<or> errors_is (Some e) OsClosed \<or> errors_as is_net_error (Some e) \<noteq> None) \<and>
      errors_as is_client_error (Some e) = None"
  proof (cases "\<exists>op net src ad x. e = OpError op net src ad x")
    case True
    then obtain op net src ad x where e: "e = OpError op net src ad x" by blast
    show ?thesis
      using assms unfolding e
      by (cases x rule: cause_kind.cases)
        (auto simp: classify_order isConnRefused_iff errors_is_Some errors_as_Some errno_defs no_timeout split: if_splits)
  qed (use assms cause in \<open>cases e; simp\<close>)
  then show "classifyErrorKind M (Some e) = k"
    and "errors_is (Some e) CtxCanceled \<or> errors_is (Some e) OsClosed \<or> errors_as is_net_error (Some e) \<noteq> None"
    and "errors_as is_client_error (Some e) = None" by blast+
qed

lemma classifyMessageError_range:
  "classifyMessageError L e \<in> {ErrorKindTLS, ErrorKindClosed, ErrorKindNetwork, ErrorKindUnknown}"
  by (simp add: classifyMessageError_def Let_def)

lemma classify_kinds:
  "classifyErrorKind L err \<in>
     {ErrorKindUnknown, ErrorKindCanceled, ErrorKindTimeout, ErrorKindConnRefused, ErrorKindDNS,
      ErrorKindTLS, ErrorKindClosed, ErrorKindNetwork}"
proof (cases err)
  case (Some e)
  then show ?thesis
    using classifyMessageError_range [of L e]
    by (auto simp: classify_order split: option.split)
qed (simp add: classifyErrorKind_def)

text \<open>
  Inference only ever produces eight of the ten kinds: \<open>temporary\<close> and \<open>codec\<close> appear only
  where a caller names them, and the result is never the empty kind that stands for "infer it".
\<close>

theorem classifyErrorKind_range:
  "classifyErrorKind L err \<in>
     {ErrorKindUnknown, ErrorKindCanceled, ErrorKindTimeout, ErrorKindConnRefused, ErrorKindDNS,
      ErrorKindTLS, ErrorKindClosed, ErrorKindNetwork}"
  by (rule classify_kinds)

lemma classifyErrorKind_not_empty [simp]: "classifyErrorKind L err \<noteq> []"
  using classify_kinds [of L err] by (auto simp: kind_defs)

text \<open>
  The text of an error is read only when the tree holds no \<open>net.Error\<close> at all, so the kind of
  a network failure does not depend on how the system words it.
\<close>

theorem classify_net_error_ignores_text:
  assumes "errors_as is_net_error (Some e) \<noteq> None"
  shows "classifyErrorKind L (Some e) = classifyErrorKind M (Some e)"
  using assms
  by (cases "errors_as is_op_error (Some e)"; cases "errors_as is_net_error (Some e)")
    (simp_all add: classify_order)

theorem classify_net_error_ignores_text_witness:
  "errors_as is_net_error (Some (OpError ''read'' ''tcp'' None None OsDeadline)) \<noteq> None \<and>
   classifyErrorKind plain_lib (Some (OpError ''read'' ''tcp'' None None OsDeadline)) =
   classifyErrorKind (plain_lib\<lparr>strerror := (\<lambda>n. ''tls'')\<rparr>)
     (Some (OpError ''read'' ''tcp'' None None OsDeadline))"
proof -
  have h: "errors_as is_net_error (Some (OpError ''read'' ''tcp'' None None OsDeadline)) \<noteq> None"
    by (simp add: errors_as_def)
  show ?thesis using h classify_net_error_ignores_text [OF h] by blast
qed

section \<open>Properties of the construction\<close>

lemma errors_as_ClientError [simp]:
  "errors_as is_client_error (Some (ClientError p op addr kind e)) =
     Some (ClientError p op addr kind e)"
  by (cases e) (simp_all add: errors_as_def)

lemma WrapErrorWithKind_None [simp]: "WrapErrorWithKind L p op addr kind None = None"
  by (simp add: WrapErrorWithKind_def)

lemma WrapErrorWithKind_eq_None [simp]:
  "WrapErrorWithKind L p op addr kind err = None \<longleftrightarrow> err = None"
  by (simp add: WrapErrorWithKind_def Let_def)

text \<open>The first \<open>*clientx.Error\<close> of the result is never a nil pointer.\<close>

lemma WrapErrorWithKind_first:
  assumes "err \<noteq> None"
  obtains p' op' addr' kind' e' where
    "errors_as is_client_error (WrapErrorWithKind L p op addr kind err) =
       Some (ClientError p' op' addr' kind' e')"
proof (cases "errors_as is_client_error err")
  case None
  with assms that show thesis by (fastforce simp: WrapErrorWithKind_def Let_def)
next
  case (Some x)
  have "is_client_error x"
    using Some assms errors_as_in_chain by fastforce
  then consider "x = NilClientError" | p' op' addr' kind' e' where "x = ClientError p' op' addr' kind' e'"
    by (cases x) auto
  then show thesis
    by cases (use Some assms that in \<open>auto simp: WrapErrorWithKind_def Let_def\<close>)
qed

lemma wrap_twice:
  "WrapErrorWithKind L p2 op2 addr2 kind2 (WrapErrorWithKind L p1 op1 addr1 kind1 err) =
     WrapErrorWithKind L p1 op1 addr1 kind1 err"
proof (cases "err = None")
  case False
  then obtain p' op' addr' kind' e' where
    "errors_as is_client_error (WrapErrorWithKind L p1 op1 addr1 kind1 err) =
       Some (ClientError p' op' addr' kind' e')"
    by (rule WrapErrorWithKind_first)
  then show ?thesis by (simp add: WrapErrorWithKind_def [of L p2])
qed simp

text \<open>
  Wrapping twice is wrapping once: an error that already carries a \<open>*clientx.Error\<close> keeps
  its first protocol, operation, address and kind, whatever the second call says.
\<close>

theorem WrapErrorWithKind_idempotent:
  "WrapErrorWithKind L p2 op2 addr2 kind2 (WrapErrorWithKind L p1 op1 addr1 kind1 err) =
     WrapErrorWithKind L p1 op1 addr1 kind1 err"
  by (rule wrap_twice)

lemma KindOf_wrapped:
  "KindOf (WrapErrorWithKind L p op addr kind (Some e)) =
     (case errors_as is_client_error (Some e) of
        Some (ClientError p' op' addr' kind' e') \<Rightarrow> Ret kind'
      | _ \<Rightarrow> Ret (if kind \<noteq> [] then kind else classifyErrorKind L (Some e)))"
proof (cases "errors_as is_client_error (Some e)")
  case None
  then show ?thesis by (simp add: KindOf_def WrapErrorWithKind_def Let_def)
next
  case (Some x)
  then have "is_client_error x" using errors_as_in_chain by blast
  then show ?thesis using Some
    by (cases x) (simp_all add: KindOf_def WrapErrorWithKind_def Let_def)
qed

text \<open>
  C20: the errors of Go's network calls are classified by their cause, through any number of wrappers of
  one error each (\<open>fmt\<close>, \<open>oops\<close>, \<open>errors.Join\<close>), and that is the kind read off the error a client makes of them: an ended context, a closed connection, an expired deadline, a
  failed name resolution (timed out or not), the number of a failed system call, bare or in a
  \<open>net.OpError\<close>. Nothing of this depends on how the error is worded.
\<close>

theorem classifyErrorKind_network:
  assumes "network_kind e = Some k" and "wraps x e"
  shows "classifyErrorKind L (Some x) = k \<and> KindOf (WrapError L p op addr (Some x)) = Ret k"
proof -
  have "classifyErrorKind L (Some x) = k"
    using classify_wraps [OF assms(2) classify_network(2) [OF assms(1)]] classify_network(1) [OF assms(1)] by metis
  moreover have "errors_as is_client_error (Some x) = None"
    using wraps_queries [OF assms(2)] classify_network(3) [OF assms(1)] by simp
  ultimately show ?thesis by (simp add: WrapError_def KindOf_wrapped)
qed

theorem classifyErrorKind_network_witness:
  "KindOf (WrapError plain_lib ProtocolTCP ''dial'' ''h:1''
     (Some (JoinError [Foreign ''*fmt.wrapError'' ''no network'' None
       [OpError ''dial'' ''tcp'' None None (SyscallError ''connect'' (Errno ECONNREFUSED))]]))) = Ret ErrorKindConnRefused"
proof -
  have "network_kind (OpError ''dial'' ''tcp'' None None (SyscallError ''connect'' (Errno ECONNREFUSED))) = Some ErrorKindConnRefused"
    by (simp add: errno_defs)
  then show ?thesis using classifyErrorKind_network [OF _ wraps.joined [OF wraps.wrapper [OF wraps.bare]]] by blast
qed

text \<open>
  What \<open>KindOf\<close> answers on a wrapped error: the kind of the error's own \<open>*clientx.Error\<close> when
  it has one, else the kind the caller named, else the inferred one. It never panics there.
\<close>

theorem KindOf_WrapErrorWithKind:
  "KindOf (WrapErrorWithKind L p op addr kind (Some e)) =
     (case errors_as is_client_error (Some e) of
        Some (ClientError p' op' addr' kind' e') \<Rightarrow> Ret kind'
      | _ \<Rightarrow> Ret (if kind \<noteq> [] then kind else classifyErrorKind L (Some e)))"
  by (rule KindOf_wrapped)

lemma errors_is_wrapped:
  assumes "\<not> is_client_error t"
  shows "errors_is (WrapErrorWithKind L p op addr kind err) t = errors_is err t"
proof (cases err)
  case (Some e)
  have "ClientError p' op' addr' kind' e' \<noteq> t" for p' op' addr' kind' e'
    using assms by auto
  then show ?thesis using Some
    by (auto simp: WrapErrorWithKind_def Let_def errors_is_def)
qed simp

text \<open>
  Wrapping hides nothing from \<open>errors.Is\<close>: for any target that is not itself a
  \<open>*clientx.Error\<close>, the wrapped error matches exactly when the original does.
\<close>

theorem errors_is_WrapErrorWithKind:
  assumes "\<not> is_client_error t"
  shows "errors_is (WrapErrorWithKind L p op addr kind err) t = errors_is err t"
  by (rule errors_is_wrapped [OF assms])

theorem errors_is_WrapErrorWithKind_witness:
  "\<not> is_client_error CtxDeadline \<and>
   errors_is (WrapErrorWithKind plain_lib ProtocolHTTP ''get'' ''h'' [] (Some CtxDeadline)) CtxDeadline
     = errors_is (Some CtxDeadline) CtxDeadline"
proof -
  have h: "\<not> is_client_error CtxDeadline" by simp
  show ?thesis using h errors_is_WrapErrorWithKind [OF h] by blast
qed

lemma carries_WrapErrorWithKind: "carries (WrapErrorWithKind L p op addr kind err) err"
  by (cases err) (auto simp: WrapErrorWithKind_def Let_def carries_def)

lemma carries_WrapError: "carries (WrapError L p op addr err) err"
  by (simp add: WrapError_def carries_WrapErrorWithKind)

text \<open>
  A freshly wrapped error is itself a \<open>net.Error\<close>, and its \<open>Timeout()\<close> holds exactly when its
  kind is \<open>timeout\<close> or the first \<open>net.Error\<close> below it timed out: a timed-out name resolution has
  kind \<open>dns\<close> and still answers as a timeout.
\<close>

theorem WrapError_timeout:
  assumes "errors_as is_client_error (Some e) = None"
  shows "errors_as is_net_error (WrapError L p op addr (Some e)) = WrapError L p op addr (Some e) \<and>
    Option.bind (WrapError L p op addr (Some e)) timeout_method =
           Some (classifyErrorKind L (Some e) = ErrorKindTimeout \<or>
                 Option.bind (errors_as is_net_error (Some e)) timeout_method = Some True)"
proof -
  have "timeout_method x \<noteq> None" if "errors_as is_net_error (Some e) = Some x" for x
    using errors_as_in_chain [OF that] net_error_has_timeout by blast
  then show ?thesis using assms
    by (cases "errors_as is_net_error (Some e)")
      (auto simp: WrapError_def WrapErrorWithKind_def Let_def errors_as_def Error_Timeout_def)
qed

theorem WrapError_timeout_witness:
  "errors_as is_client_error (Some (DNSError ''no answer'' ''h'' ''ns'' True None)) = None \<and>
   Option.bind (WrapError plain_lib ProtocolTCP ''dial'' ''h:1''
       (Some (DNSError ''no answer'' ''h'' ''ns'' True None))) timeout_method = Some True \<and>
   classifyErrorKind plain_lib (Some (DNSError ''no answer'' ''h'' ''ns'' True None)) = ErrorKindDNS"
proof -
  let ?e = "DNSError ''no answer'' ''h'' ''ns'' True None"
  have h: "errors_as is_client_error (Some ?e) = None" by (simp add: errors_as_def)
  have "errors_as is_net_error (Some ?e) = Some ?e" by (simp add: errors_as_def)
  moreover have "classifyErrorKind plain_lib (Some ?e) = ErrorKindDNS"
    by (simp add: classify_order errors_is_def errors_as_def)
  ultimately show ?thesis 
    using h WrapError_timeout [OF h, of plain_lib ProtocolTCP "''dial''" "''h:1''"] by simp
qed

text \<open>
  \<open>KindOf\<close> panics exactly when the first \<open>*clientx.Error\<close> of the tree is a nil pointer; every
  other function of the file treats that pointer as "no error here".
\<close>

theorem KindOf_panics_iff:
  "KindOf err = Panic \<longleftrightarrow> errors_as is_client_error err = Some NilClientError"
proof (cases "errors_as is_client_error err")
  case (Some x)
  then obtain e where "err = Some e" by (cases err) auto
  then have "is_client_error x" using Some errors_as_in_chain by blast
  then show ?thesis using Some by (cases x) (simp_all add: KindOf_def)
qed (simp add: KindOf_def)

lemma IsKind_KindOf:
  "IsKind err kind = (if errors_as is_client_error err = None then Ret False
                      else rbind (KindOf err) (\<lambda>k. Ret (k = kind)))"
  by (simp add: IsKind_def KindOf_def split: option.split)

text \<open>The builders of \<^verbatim>\<open>oops\<close> leave the kind of an error alone.\<close>

lemma KindOf_wrapf:
  assumes "oops_ok L"
  shows "KindOf (oops_wrapf L d as e t) = KindOf e"
  by (simp add: KindOf_def errors_as_wrapf [OF assms])

end
