(* ===== verification/Go_Context.thy ===== *)
theory Go_Context
  imports Go_Errors
begin

text \<open>
  The part of Go's runtime that policies share: the clock, contexts, and buffered channels used
  as semaphores.

  A context is the chain of values it was derived through. Cancellation is state: the world
  records the instant at which the context of each identity is (or, by some other goroutine,
  will be) cancelled. A context is done from the earliest of its own cancellation, its own
  deadline and the instant its parent is done, and \<open>Err\<close> answers the reason of that instant.
  \<open>choices\<close> resolves a \<open>select\<close> two of whose cases are ready: the next of the sequence says whether it takes
  the first, and is used up.
  What a program keeps beside this is in the record's extension.
\<close>

section \<open>The world and contexts\<close>

datatype ctx_key = TimeoutCancelKey | UserKey string

datatype ctx_val = CancelFunc nat | UserVal string

datatype ctx =
    Background
  | CancelCtx nat ctx
  | TimerCtx nat int ctx
  | ValueCtx ctx_key ctx_val ctx

record world =
  now :: int
  next_id :: nat
  cancelled_at :: "nat \<Rightarrow> int option"
  choices :: "nat \<Rightarrow> bool"
  sems :: "nat \<Rightarrow> nat"

abbreviation next_choice :: "'u world_scheme \<Rightarrow> 'u world_scheme" where
  "next_choice w \<equiv> w\<lparr>choices := \<lambda>n. choices w (Suc n)\<rparr>"

text \<open>\<open>clock_free f\<close>: neither the clock nor the choices matter to \<open>f\<close>.\<close>

definition clock_free :: "('u world_scheme \<Rightarrow> 'b) \<Rightarrow> bool" where
  "clock_free f \<longleftrightarrow> (\<forall>w t. f (w\<lparr>now := t\<rparr>) = f w) \<and> (\<forall>w g. f (w\<lparr>choices := g\<rparr>) = f w)"

lemma clock_freeD:
  "clock_free f \<Longrightarrow> f (w\<lparr>now := t\<rparr>) = f w" "clock_free f \<Longrightarrow> f (w\<lparr>choices := g\<rparr>) = f w"
  "clock_free f \<Longrightarrow> f (w\<lparr>now := t, choices := g\<rparr>) = f w"
  unfolding clock_free_def by metis+

fun earliest :: "(int \<times> go_error) option \<Rightarrow> (int \<times> go_error) option \<Rightarrow> (int \<times> go_error) option" where
  "earliest None y = y"
| "earliest x None = x"
| "earliest (Some (s, e)) (Some (t, f)) = (if s \<le> t then Some (s, e) else Some (t, f))"

fun ctx_done :: "'u world_scheme \<Rightarrow> ctx \<Rightarrow> (int \<times> go_error) option" where
  "ctx_done w Background = None"
| "ctx_done w (ValueCtx k v p) = ctx_done w p"
| "ctx_done w (CancelCtx i p) =
     earliest (map_option (\<lambda>t. (t, CtxCanceled)) (cancelled_at w i)) (ctx_done w p)"
| "ctx_done w (TimerCtx i d p) =
     earliest (map_option (\<lambda>t. (t, CtxCanceled)) (cancelled_at w i))
       (earliest (Some (d, CtxDeadline)) (ctx_done w p))"

definition ctx_err :: "'u world_scheme \<Rightarrow> ctx \<Rightarrow> go_error option" where
  "ctx_err w c = (case ctx_done w c of
       None \<Rightarrow> None
     | Some (t, e) \<Rightarrow> if t \<le> now w then Some e else None)"

fun ctx_deadline :: "ctx \<Rightarrow> int option" where
  "ctx_deadline Background = None"
| "ctx_deadline (ValueCtx k v p) = ctx_deadline p"
| "ctx_deadline (CancelCtx i p) = ctx_deadline p"
| "ctx_deadline (TimerCtx i d p) = Some d"

fun ctx_value :: "ctx \<Rightarrow> ctx_key \<Rightarrow> ctx_val option" where
  "ctx_value Background k = None"
| "ctx_value (ValueCtx k' v p) k = (if k' = k then Some v else ctx_value p k)"
| "ctx_value (CancelCtx i p) k = ctx_value p k"
| "ctx_value (TimerCtx i d p) k = ctx_value p k"

text \<open>Calling a cancel function: the first call fixes the instant, later calls change nothing.\<close>

definition cancel_ctx :: "nat \<Rightarrow> (unit, 'u world_scheme) prog" where
  "cancel_ctx i = pmodify (\<lambda>w. w\<lparr>cancelled_at := (cancelled_at w)
     (i := Some (case cancelled_at w i of None \<Rightarrow> now w | Some t \<Rightarrow> min t (now w)))\<rparr>)"

text \<open>
  \<open>context.WithTimeout\<close>: a fresh identity, a deadline of its own unless the parent's is earlier;
  the second result is the identity its cancel function cancels.
\<close>

definition with_timeout :: "ctx \<Rightarrow> duration \<Rightarrow> (ctx \<times> nat, 'u world_scheme) prog" where
  "with_timeout parent d = (\<lambda>w.
     let i = next_id w; dl = now w + d;
         c = (case ctx_deadline parent of
                Some cur \<Rightarrow> if cur < dl then CancelCtx i parent else TimerCtx i dl parent
              | None \<Rightarrow> TimerCtx i dl parent)
     in Some (Ret (c, i), w\<lparr>next_id := Suc i\<rparr>))"

fun ctx_ids :: "ctx \<Rightarrow> nat list" where
  "ctx_ids Background = []"
| "ctx_ids (ValueCtx k v p) = ctx_ids p"
| "ctx_ids (CancelCtx i p) = i # ctx_ids p"
| "ctx_ids (TimerCtx i d p) = i # ctx_ids p"

section \<open>Facts about contexts\<close>

text \<open>\<open>due t x\<close>: the instant of \<open>x\<close>, if it has one, has come by \<open>t\<close>.\<close>

definition due :: "int \<Rightarrow> (int \<times> go_error) option \<Rightarrow> bool" where
  "due t x \<longleftrightarrow> (case x of None \<Rightarrow> False | Some (s, e) \<Rightarrow> s \<le> t)"

lemma due_simps [simp]:
  "\<not> due t None"
  "due t (Some (s, e)) \<longleftrightarrow> s \<le> t"
  "due t (earliest x y) \<longleftrightarrow> due t x \<or> due t y"
  by (simp_all add: due_def split: option.split) (cases x; cases y; auto)

lemma ctx_err_due: "ctx_err w c \<noteq> None \<longleftrightarrow> due (now w) (ctx_done w c)"
  by (auto simp: ctx_err_def due_def split: option.split)

lemma earliest_None [simp]: "earliest x None = x"
  by (cases x) simp_all

lemma earliest_Some_cases:
  "earliest x y = Some (t, e) \<Longrightarrow> x = Some (t, e) \<or> y = Some (t, e)"
  by (induction x y rule: earliest.induct) (auto split: if_splits)

lemma ctx_done_now [simp]: "ctx_done (w\<lparr>now := t\<rparr>) c = ctx_done w c"
  by (induction c) simp_all

lemma ctx_done_next_id [simp]: "ctx_done (w\<lparr>next_id := n\<rparr>) c = ctx_done w c"
  by (induction c) simp_all

lemma ctx_done_sems [simp]: "ctx_done (w\<lparr>sems := f\<rparr>) c = ctx_done w c"
  by (induction c) simp_all

text \<open>The reason is one of the two errors of package \<open>context\<close>.\<close>

lemma ctx_done_reason:
  "ctx_done w c = Some (t, e) \<Longrightarrow> e \<in> {CtxCanceled, CtxDeadline}"
  by (induction c arbitrary: t e) (fastforce dest!: earliest_Some_cases)+

lemma ctx_err_SomeD:
  assumes "ctx_err w c = Some e"
  obtains t where "ctx_done w c = Some (t, e)" "t \<le> now w"
  using assms by (auto simp: ctx_err_def split: option.splits if_splits)

lemma ctx_err_reason: "ctx_err w c = Some e \<Longrightarrow> e \<in> {CtxCanceled, CtxDeadline}"
  by (metis ctx_err_SomeD ctx_done_reason)

text \<open>A context is done once its parent is, once its deadline has passed, and once any context of
  its chain has been cancelled; cancelling another one leaves it alone.\<close>

fun ctx_parent :: "ctx \<Rightarrow> ctx" where
  "ctx_parent Background = Background"
| "ctx_parent (ValueCtx k v p) = p"
| "ctx_parent (CancelCtx i p) = p"
| "ctx_parent (TimerCtx i d p) = p"

lemma ctx_err_parent: "ctx_err w (ctx_parent c) \<noteq> None \<Longrightarrow> ctx_err w c \<noteq> None"
  unfolding ctx_err_due by (cases c) auto

lemma due_deadline: "ctx_deadline c = Some d \<Longrightarrow> d \<le> t \<Longrightarrow> due t (ctx_done w c)"
  by (induction c) auto

lemma ctx_done_cong_ids:
  "(\<And>i. i \<in> set (ctx_ids c) \<Longrightarrow> cancelled_at w i = cancelled_at w' i) \<Longrightarrow>
   ctx_done w c = ctx_done w' c"
  by (induction c) simp_all

lemma due_cancelled:
  "i \<in> set (ctx_ids c) \<Longrightarrow> cancelled_at w i = Some s \<Longrightarrow> s \<le> t \<Longrightarrow> due t (ctx_done w c)"
  by (induction c) auto

lemma cancel_ctx_eq:
  "cancel_ctx i w = Some (Ret (), w\<lparr>cancelled_at := (cancelled_at w)
     (i := Some (case cancelled_at w i of None \<Rightarrow> now w | Some t \<Rightarrow> min t (now w)))\<rparr>)"
  by (simp add: cancel_ctx_def)

lemma cancel_ctx_other:
  assumes "cancel_ctx i w = Some (r, w')" and "i \<notin> set (ctx_ids c)"
  shows "ctx_err w' c = ctx_err w c"
proof -
  have "ctx_done w' c = ctx_done w c"
    using assms by (intro ctx_done_cong_ids) (auto simp: cancel_ctx_eq)
  moreover have "now w' = now w" using assms(1) by (auto simp: cancel_ctx_eq)
  ultimately show ?thesis by (simp add: ctx_err_def split: option.split)
qed

lemma cancel_ctx_done:
  assumes "cancel_ctx i w = Some (r, w')" and "i \<in> set (ctx_ids c)"
  shows "ctx_err w' c \<noteq> None"
proof -
  obtain s where "cancelled_at w' i = Some s" "s \<le> now w'"
    using assms(1) by (auto simp: cancel_ctx_eq split: option.split)
  then show ?thesis unfolding ctx_err_due using assms(2) by (rule due_cancelled [rotated])
qed

lemma returns_cancel_ctx [simp, intro]: "returns (cancel_ctx i)"
  and returns_with_timeout [simp, intro]: "returns (with_timeout c d)"
  by (simp_all add: returns_def cancel_ctx_def with_timeout_def Let_def)

end
