(* ===== verification/Policy.thy ===== *)
theory Policy
  imports Client_Error Go_Context
begin

text \<open>
  \<^verbatim>\<open>policy.go\<close>, \<^verbatim>\<open>append.go\<close>: operations, the policy interface and \<open>InvokeWithPolicies\<close>, the
  engine every client runs its network calls through.

  A policy is the record of its methods, each a computation over the world; a policy that also
  implements \<open>RetryDecider\<close> has a \<open>ShouldRetry\<close>. A context argument is \<open>ctx option\<close>, \<open>None\<close> being
  the nil interface; so is an entry of a policy list. A panic that leaves a method is \<open>Panic\<close>; a
  call that never comes back is \<open>None\<close>. The retry loop is a \<^theory_text>\<open>partial_function (option)\<close>, so a
  policy that asks for one more attempt for ever makes the whole call not return.
\<close>

section \<open>Operations and policies\<close>

definition OperationKindUnknown :: string where "OperationKindUnknown = ''unknown''"
definition OperationKindRequest :: string where "OperationKindRequest = ''request''"
definition OperationKindDial :: string where "OperationKindDial = ''dial''"
definition OperationKindListen :: string where "OperationKindListen = ''listen''"

record operation =
  Protocol :: string
  Kind :: string
  Op :: string
  Network :: string
  Addr :: string

record 'w policy =
  Before :: "ctx option \<Rightarrow> operation \<Rightarrow> (ctx option \<times> go_error option, 'w) prog"
  After :: "ctx option \<Rightarrow> operation \<Rightarrow> go_error option \<Rightarrow> (go_error option, 'w) prog"
  ShouldRetry ::
    "(ctx option \<Rightarrow> operation \<Rightarrow> int \<Rightarrow> go_error option \<Rightarrow> (bool \<times> duration, 'w) prog) option"

text \<open>\<open>PolicyFuncs\<close>: plain functions, each possibly missing, as a policy.\<close>

definition PolicyFuncs ::
  "(ctx option \<Rightarrow> operation \<Rightarrow> (ctx option \<times> go_error option, 'w) prog) option \<Rightarrow>
   (ctx option \<Rightarrow> operation \<Rightarrow> go_error option \<Rightarrow> (go_error option, 'w) prog) option \<Rightarrow>
   'w policy" where
  "PolicyFuncs BeforeFunc AfterFunc = \<lparr>
     Before = (\<lambda>ctx operation. case BeforeFunc of
         Some f \<Rightarrow> f ctx operation
       | None \<Rightarrow> pret (ctx, None)),
     After = (\<lambda>ctx operation err. case AfterFunc of
         Some f \<Rightarrow> f ctx operation err
       | None \<Rightarrow> pret None),
     ShouldRetry = None\<rparr>"

definition AppendPolicies :: "'w policy option list \<Rightarrow> 'w policy option list \<Rightarrow> 'w policy option list" where
  "AppendPolicies items policies = items @ filter (\<lambda>p. p \<noteq> None) policies"

section \<open>The engine\<close>

definition normalizeContext :: "ctx option \<Rightarrow> ctx" where
  "normalizeContext ctx = (case ctx of None \<Rightarrow> Background | Some c \<Rightarrow> c)"

definition normalizeOperation :: "operation \<Rightarrow> operation" where
  "normalizeOperation operation =
     (let operation = (if Protocol operation = [] then operation\<lparr>Protocol := ProtocolUnknown\<rparr>
                       else operation) in
      if Kind operation = [] then operation\<lparr>Kind := OperationKindUnknown\<rparr> else operation)"

definition filterPolicies :: "'w policy option list \<Rightarrow> 'w policy list" where
  "filterPolicies policies = map the (filter (\<lambda>p. p \<noteq> None) policies)"

definition operation_attrs :: "operation \<Rightarrow> attrs" where
  "operation_attrs operation =
     [(''protocol'', AStr (Protocol operation)), (''operation_kind'', AStr (Kind operation)),
      (''network'', AStr (Network operation)), (''addr'', AStr (Addr operation))]"

definition wrapPolicyBeforeError :: "lib \<Rightarrow> operation \<Rightarrow> go_error option \<Rightarrow> go_error option" where
  "wrapPolicyBeforeError L operation err =
     (if err = None then None
      else oops_wrapf L ''clientx/policy''
             ((''op'', AStr ''policy_before'') # operation_attrs operation) err ''policy before'')"

definition wrapPolicyAfterError :: "lib \<Rightarrow> operation \<Rightarrow> go_error option \<Rightarrow> go_error option" where
  "wrapPolicyAfterError L operation err =
     (if err = None then None
      else oops_wrapf L ''clientx/policy''
             ((''op'', AStr ''policy_after'') # operation_attrs operation) err ''policy after'')"

text \<open>
  The results of the Go function are unnamed, so when \<open>policy.Before\<close> panics the deferred
  \<open>recover()\<close> makes the call return their zero values, a nil context and a nil error; the test of
  \<open>recovered\<close> after the call is then never reached.
\<close>

definition callPolicyBefore ::
  "lib \<Rightarrow> ctx option \<Rightarrow> 'w policy \<Rightarrow> operation \<Rightarrow> (ctx option \<times> go_error option, 'w) prog" where
  "callPolicyBefore L ctx policy operation =
     precover (None, None)
       (pbind (Before policy ctx operation) (\<lambda>(policyCtx, policyErr).
          if policyCtx = None then pret (ctx, wrapPolicyBeforeError L operation policyErr)
          else pret (policyCtx, wrapPolicyBeforeError L operation policyErr)))"

definition callPolicyAfter ::
  "lib \<Rightarrow> ctx option \<Rightarrow> 'w policy \<Rightarrow> operation \<Rightarrow> go_error option \<Rightarrow>
   (bool \<times> go_error option, 'w) prog" where
  "callPolicyAfter L ctx policy operation err =
     precover (False, None)
       (pbind (After policy ctx operation err) (\<lambda>e.
          pret (True, wrapPolicyAfterError L operation e)))"

definition callShouldRetry ::
  "(ctx option \<Rightarrow> operation \<Rightarrow> int \<Rightarrow> go_error option \<Rightarrow> (bool \<times> duration, 'w) prog) \<Rightarrow>
   ctx option \<Rightarrow> operation \<Rightarrow> int \<Rightarrow> go_error option \<Rightarrow> (bool \<times> duration \<times> bool, 'w) prog" where
  "callShouldRetry decider ctx operation attempt err =
     precover (False, 0, False)
       (pbind (decider ctx operation attempt err) (\<lambda>(retry, wait). pret (retry, wait, True)))"

fun applyBeforePolicies ::
  "lib \<Rightarrow> ctx option \<Rightarrow> 'w policy list \<Rightarrow> operation \<Rightarrow>
   (ctx option \<times> 'w policy list \<times> go_error option, 'w) prog" where
  "applyBeforePolicies L ctx [] operation = pret (ctx, [], None)"
| "applyBeforePolicies L ctx (p # ps) operation =
     pbind (callPolicyBefore L ctx p operation) (\<lambda>(nextCtx, err).
       if err \<noteq> None then pret (ctx, [], err)
       else pbind (applyBeforePolicies L nextCtx ps operation) (\<lambda>(finalCtx, tailApplied, tailErr).
              pret (finalCtx, p # tailApplied, tailErr)))"

text \<open>The loop runs from the last policy to the first; \<open>afterPolicies\<close> is given them reversed.\<close>

fun afterPolicies ::
  "lib \<Rightarrow> ctx option \<Rightarrow> 'w policy list \<Rightarrow> operation \<Rightarrow> go_error option \<Rightarrow>
   (go_error option, 'w) prog" where
  "afterPolicies L ctx [] operation aggErr = pret aggErr"
| "afterPolicies L ctx (policy # ps) operation aggErr =
     pbind (callPolicyAfter L ctx policy operation aggErr) (\<lambda>(afterOK, afterErr).
       afterPolicies L ctx ps operation
         (if afterOK \<and> afterErr \<noteq> None then errors_join [aggErr, afterErr] else aggErr))"

definition applyAfterPolicies ::
  "lib \<Rightarrow> ctx option \<Rightarrow> 'w policy list \<Rightarrow> operation \<Rightarrow> go_error option \<Rightarrow>
   (go_error option, 'w) prog" where
  "applyAfterPolicies L ctx policies operation baseErr =
     afterPolicies L ctx (rev policies) operation baseErr"

text \<open>The reduction of \<open>decideRetry\<close>, from the first policy to the last.\<close>

fun decideRetryFrom ::
  "bool \<times> duration \<Rightarrow> ctx option \<Rightarrow> 'w policy list \<Rightarrow> operation \<Rightarrow> int \<Rightarrow> go_error option \<Rightarrow>
   (bool \<times> duration, 'w) prog" where
  "decideRetryFrom agg ctx [] operation attempt err = pret agg"
| "decideRetryFrom agg ctx (policy # ps) operation attempt err =
     (case ShouldRetry policy of
        None \<Rightarrow> decideRetryFrom agg ctx ps operation attempt err
      | Some decider \<Rightarrow>
          pbind (callShouldRetry decider ctx operation attempt err)
            (\<lambda>(shouldRetry, delay, retryOK).
              if \<not> retryOK \<or> \<not> shouldRetry
              then decideRetryFrom agg ctx ps operation attempt err
              else decideRetryFrom (True, max (snd agg) delay) ctx ps operation attempt err))"

definition decideRetry ::
  "ctx option \<Rightarrow> 'w policy list \<Rightarrow> operation \<Rightarrow> int \<Rightarrow> go_error option \<Rightarrow>
   (bool \<times> duration, 'w) prog" where
  "decideRetry ctx policies operation attempt err =
     pbind (decideRetryFrom (False, 0) ctx policies operation attempt err)
       (\<lambda>(retry, wait). pret (retry, max wait 0))"

text \<open>The timer of the wait against the end of the context; the clock moves to what comes first.\<close>

definition sleepWithContext ::
  "lib \<Rightarrow> ctx \<Rightarrow> operation \<Rightarrow> int \<Rightarrow> duration \<Rightarrow> (go_error option, 'u world_scheme) prog" where
  "sleepWithContext L ctx operation attempt d = (\<lambda>w.
     if d \<le> 0 then Some (Ret None, w)
     else
       (let timer = now w + d;
            woken = (\<lambda>e t. (Ret (oops_wrapf L ''clientx/policy''
                  ([(''op'', AStr ''retry_wait''), (''attempt'', AInt attempt),
                    (''duration'', ADur d)] @ operation_attrs operation)
                  (Some e) ''context done''), w\<lparr>now := max t (now w)\<rparr>))
        in case ctx_done w ctx of
             None \<Rightarrow> Some (Ret None, w\<lparr>now := timer\<rparr>)
           | Some (t, e) \<Rightarrow>
               if t < timer then Some (woken e t)
               else if timer < t then Some (Ret None, w\<lparr>now := timer\<rparr>)
               else if choices w 0 then Some (map_prod id next_choice (woken e t))
               else Some (Ret None, next_choice (w\<lparr>now := timer\<rparr>))))"

text \<open>
  The body of the loop, which returns from the function or goes on to the next attempt;
  \<open>retryOrReturn\<close> is its end, after a failed execution.
\<close>

datatype 'r flow = Return 'r | Continue

definition retryOrReturn ::
  "lib \<Rightarrow> ctx \<Rightarrow> operation \<Rightarrow> 'u world_scheme policy list \<Rightarrow> int \<Rightarrow> 't \<Rightarrow> go_error option \<Rightarrow>
   (('t \<times> go_error option) flow, 'u world_scheme) prog" where
  "retryOrReturn L ctx operation activePolicies attempt result execErr =
     pbind (decideRetry (Some ctx) activePolicies operation attempt execErr)
       (\<lambda>(retry, wait).
         if \<not> retry then pret (Return (result, execErr))
         else
           pbind (sleepWithContext L ctx operation attempt wait) (\<lambda>sleepErr.
             if sleepErr \<noteq> None then pret (Return (result, errors_join [execErr, sleepErr]))
             else pret Continue))"

definition invokeAttempt ::
  "lib \<Rightarrow> ctx \<Rightarrow> operation \<Rightarrow>
   (ctx option \<Rightarrow> ('t \<times> go_error option, 'u world_scheme) prog) \<Rightarrow>
   'u world_scheme policy list \<Rightarrow> 't \<Rightarrow> int \<Rightarrow>
   (('t \<times> go_error option) flow, 'u world_scheme) prog" where
  "invokeAttempt L ctx operation fn activePolicies zero attempt =
     pbind (applyBeforePolicies L (Some ctx) activePolicies operation)
       (\<lambda>(attemptCtx, applied, err).
         if err \<noteq> None then
           pbind (applyAfterPolicies L attemptCtx applied operation err)
             (\<lambda>e. pret (Return (zero, e)))
         else
           pbind (fn attemptCtx) (\<lambda>(result, execErr).
           pbind (applyAfterPolicies L attemptCtx applied operation execErr) (\<lambda>execErr.
             if execErr = None then pret (Return (result, None))
             else retryOrReturn L ctx operation activePolicies attempt result execErr)))"

partial_function (option) invokeLoop ::
  "lib \<Rightarrow> ctx \<Rightarrow> operation \<Rightarrow>
   (ctx option \<Rightarrow> ('t \<times> go_error option, 'u world_scheme) prog) \<Rightarrow>
   'u world_scheme policy list \<Rightarrow> 't \<Rightarrow> int \<Rightarrow> 'u world_scheme \<Rightarrow>
   (('t \<times> go_error option) res \<times> 'u world_scheme) option" where
  "invokeLoop L ctx operation fn activePolicies zero attempt w =
     (case invokeAttempt L ctx operation fn activePolicies zero attempt w of
        None \<Rightarrow> None
      | Some (Panic, w') \<Rightarrow> Some (Panic, w')
      | Some (Ret (Return r), w') \<Rightarrow> Some (Ret r, w')
      | Some (Ret Continue, w') \<Rightarrow>
          invokeLoop L ctx operation fn activePolicies zero (attempt + 1) w')"

definition InvokeWithPolicies ::
  "lib \<Rightarrow> 't \<Rightarrow> ctx option \<Rightarrow> operation \<Rightarrow>
   (ctx option \<Rightarrow> ('t \<times> go_error option, 'u world_scheme) prog) option \<Rightarrow>
   'u world_scheme policy option list \<Rightarrow> ('t \<times> go_error option, 'u world_scheme) prog" where
  "InvokeWithPolicies L zero ctx operation fn policies =
     (let ctx = normalizeContext ctx; operation = normalizeOperation operation in
      case fn of
        None \<Rightarrow> pret (zero, Some (oops_new L ''clientx/policy''
                  ((''op'', AStr ''invoke'') # operation_attrs operation)
                  ''invoke function is nil''))
      | Some f \<Rightarrow> invokeLoop L ctx operation f (filterPolicies policies) zero 1)"

end
