(* ===== verification/Policy_Engine.thy ===== *)
theory Policy_Engine
  imports Policy
begin

text \<open>
  What the engine of \<^verbatim>\<open>policy.go\<close> guarantees, whatever the policies are: isolation of their
  panics, the order of the calls, that an error is never lost, that success is only reported after
  a successful execution, when the loop ends, and that what the policies acquire they release.
\<close>

declare invokeLoop.simps [simp del]

text \<open>An operation, and a world in which nothing has happened yet, for the witnesses.\<close>

definition sample_operation :: operation where
  "sample_operation = \<lparr>Protocol = ''tcp'', Kind = ''dial'', Op = ''dial'', Network = ''tcp'',
     Addr = ''h:1''\<rparr>"

definition start_world :: world where
  "start_world = \<lparr>now = 0, next_id = 0, cancelled_at = (\<lambda>_. None), choices = (\<lambda>_. True),
     sems = (\<lambda>_. 0)\<rparr>"

section \<open>Isolation\<close>

lemma calm_callPolicyBefore [simp, intro]: "calm (callPolicyBefore L ctx p operation)"
  by (simp add: callPolicyBefore_def)

lemma calm_callPolicyAfter [simp, intro]: "calm (callPolicyAfter L ctx p operation err)"
  by (simp add: callPolicyAfter_def)

lemma calm_callShouldRetry [simp, intro]: "calm (callShouldRetry d ctx operation attempt err)"
  by (simp add: callShouldRetry_def)

lemma calm_applyBeforePolicies [simp, intro]: "calm (applyBeforePolicies L ctx ps operation)"
  by (induction L ctx ps operation rule: applyBeforePolicies.induct)
    (auto intro!: calm_pbind split: prod.split)

lemma calm_afterPolicies [simp, intro]: "calm (afterPolicies L ctx ps operation err)"
  by (induction L ctx ps operation err rule: afterPolicies.induct)
    (auto intro!: calm_pbind split: prod.split)

lemma calm_applyAfterPolicies [simp, intro]: "calm (applyAfterPolicies L ctx ps operation err)"
  by (simp add: applyAfterPolicies_def)

lemma calm_decideRetryFrom [simp, intro]: "calm (decideRetryFrom agg ctx ps operation attempt err)"
  by (induction agg ctx ps operation attempt err rule: decideRetryFrom.induct)
    (auto intro!: calm_pbind split: prod.split option.split)

lemma calm_decideRetry [simp, intro]: "calm (decideRetry ctx ps operation attempt err)"
  by (auto simp: decideRetry_def intro!: calm_pbind split: prod.split)

lemma calm_sleepWithContext [simp, intro]: "calm (sleepWithContext L ctx operation attempt d)"
  by (auto simp: calm_def sleepWithContext_def Let_def split: option.split)

lemma attempt_calm:
  assumes "\<And>c. calm (fn c)"
  shows "calm (invokeAttempt L ctx operation fn ps zero attempt)"
  unfolding invokeAttempt_def retryOrReturn_def using assms
  by (auto intro!: calm_pbind split: prod.split)

text \<open>
  C17: panics of policies stay inside the engine: if the executed function never panics, neither
  does one attempt of \<open>InvokeWithPolicies\<close>, whatever \<open>Before\<close>, \<open>After\<close> and \<open>ShouldRetry\<close> do.
\<close>

theorem invokeAttempt_calm:
  assumes "\<And>c. calm (fn c)"
  shows "calm (invokeAttempt L ctx operation fn ps zero attempt)"
  by (rule attempt_calm [OF assms])

theorem invokeAttempt_calm_witness:
  "calm (invokeAttempt plain_lib Background sample_operation (\<lambda>c. pret (7 :: nat, None))
     [PolicyFuncs (Some (\<lambda>_ _. ppanic)) (Some (\<lambda>_ _ _. ppanic))] 0 1)"
  by (rule invokeAttempt_calm) simp

section \<open>Inversion of the two passes over the policies\<close>

lemma applyBeforePolicies_ConsE:
  assumes "applyBeforePolicies L c (p # ps) operation w = Some (Ret (c', applied, e), w')"
  obtains (refuse) n err where
      "callPolicyBefore L c p operation w = Some (Ret (n, Some err), w')"
      "c' = c" "applied = []" "e = Some err"
  | (accept) n w1 tl where
      "callPolicyBefore L c p operation w = Some (Ret (n, None), w1)"
      "applyBeforePolicies L n ps operation w1 = Some (Ret (c', tl, e), w')"
      "applied = p # tl"
proof -
  from assms obtain n err w1 where
    before: "callPolicyBefore L c p operation w = Some (Ret (n, err), w1)"
    and rest: "(if err \<noteq> None then pret (c, [], err)
       else pbind (applyBeforePolicies L n ps operation)
              (\<lambda>(finalCtx, tl, tailErr). pret (finalCtx, p # tl, tailErr))) w1
         = Some (Ret (c', applied, e), w')"
    by (auto elim!: calm_bind_SomeE)
  show thesis
  proof (cases err)
    case None
    with before rest accept show thesis by (auto elim!: calm_bind_SomeE)
  next
    case (Some x)
    show thesis by (rule refuse) (use before rest Some in auto)
  qed
qed

lemma afterPolicies_ConsE:
  assumes "afterPolicies L c (p # ps) operation e w = Some (r, w')"
  obtains a b w1 where
    "callPolicyAfter L c p operation e w = Some (Ret (a, b), w1)"
    "afterPolicies L c ps operation (if a \<and> b \<noteq> None then errors_join [e, b] else e) w1 = Some (r, w')"
  using assms by (auto elim!: calm_bind_SomeE)

lemma decideRetryFrom_ConsE:
  assumes "decideRetryFrom agg c (p # ps) operation attempt err w = Some (Ret x, w')"
  obtains (no_decider) "ShouldRetry p = None"
      "decideRetryFrom agg c ps operation attempt err w = Some (Ret x, w')"
  | (ask) d b t k w1 where "ShouldRetry p = Some d"
      "callShouldRetry d c operation attempt err w = Some (Ret (b, t, k), w1)"
      "decideRetryFrom (if k \<and> b then (True, max (snd agg) t) else agg) c ps operation attempt err w1
         = Some (Ret x, w')"
proof (cases "ShouldRetry p")
  case None
  then show thesis using assms no_decider by simp
next
  case (Some d)
  from assms Some obtain b t k w1 where
    "callShouldRetry d c operation attempt err w = Some (Ret (b, t, k), w1)"
    "(if \<not> k \<or> \<not> b then decideRetryFrom agg c ps operation attempt err
      else decideRetryFrom (True, max (snd agg) t) c ps operation attempt err) w1 = Some (Ret x, w')"
    by (auto elim!: calm_bind_SomeE)
  then show thesis using ask [OF Some] by (cases "k \<and> b") auto
qed

lemma callShouldRetry_SomeD:
  assumes "callShouldRetry d c operation attempt err w = Some (Ret (b, t, k), w')"
  shows "(k \<and> d c operation attempt err w = Some (Ret (b, t), w')) \<or> (\<not> k \<and> \<not> b \<and> t = 0)"
  using assms by (auto simp: callShouldRetry_def prog_simps split: option.splits res.splits prod.splits)

text \<open>\<open>waits_at_most M p\<close>: \<open>p\<close> never asks for a wait above \<open>M\<close>; the waits bound the one decided on.\<close>

definition waits_at_most :: "duration \<Rightarrow> 'w policy \<Rightarrow> bool" where
  "waits_at_most M p \<longleftrightarrow>
     (\<forall>d c operation attempt err w b t w'. ShouldRetry p = Some d \<longrightarrow>
        d c operation attempt err w = Some (Ret (b, t), w') \<longrightarrow> t \<le> M)"

lemma waits_at_mostD:
  "waits_at_most M p \<Longrightarrow> ShouldRetry p = Some d \<Longrightarrow>
   d c operation attempt err w = Some (Ret (b, t), w') \<Longrightarrow> t \<le> M"
  unfolding waits_at_most_def by blast

lemma decideRetryFrom_wait_le:
  assumes "\<forall>p \<in> set ps. waits_at_most M p" and "snd agg \<le> M"
    and "decideRetryFrom agg c ps operation attempt err w = Some (Ret x, w')"
  shows "snd x \<le> M"
  using assms
proof (induction ps arbitrary: agg w)
  case (Cons p ps)
  from Cons.prems(3) show ?case
  proof (cases rule: decideRetryFrom_ConsE)
    case no_decider
    then show ?thesis using Cons.IH Cons.prems(1,2) by simp
  next
    case (ask d b t k w1)
    have "k \<Longrightarrow> t \<le> M"
      using callShouldRetry_SomeD [OF ask(2)] waits_at_mostD [OF _ ask(1)] Cons.prems(1) by fastforce
    then have "snd (if k \<and> b then (True, max (snd agg) t) else agg) \<le> M" using Cons.prems(2) by simp
    then show ?thesis using Cons.IH ask(3) Cons.prems(1) by simp
  qed
qed simp

section \<open>What the engine itself leaves alone\<close>

text \<open>\<open>policy_keeps f p\<close>: no method of \<open>p\<close> changes the component \<open>f\<close> of the world.\<close>

definition policy_keeps :: "('w \<Rightarrow> 'b) \<Rightarrow> 'w policy \<Rightarrow> bool" where
  "policy_keeps f p \<longleftrightarrow>
     (\<forall>c operation. keeps f (Before p c operation)) \<and>
     (\<forall>c operation err. keeps f (After p c operation err)) \<and>
     (\<forall>d c operation attempt err. ShouldRetry p = Some d \<longrightarrow> keeps f (d c operation attempt err))"

lemma keeps_callPolicyBefore:
  "policy_keeps f p \<Longrightarrow> keeps f (callPolicyBefore L c p operation)"
  unfolding callPolicyBefore_def policy_keeps_def
  by (auto intro!: keeps_precover keeps_pbind split: prod.split)

lemma keeps_callPolicyAfter:
  "policy_keeps f p \<Longrightarrow> keeps f (callPolicyAfter L c p operation err)"
  unfolding callPolicyAfter_def policy_keeps_def
  by (auto intro!: keeps_precover keeps_pbind)

definition decider_keeps :: "('w \<Rightarrow> 'b) \<Rightarrow> 'w policy \<Rightarrow> bool" where
  "decider_keeps f p \<longleftrightarrow>
     (\<forall>d c operation attempt err. ShouldRetry p = Some d \<longrightarrow> keeps f (d c operation attempt err))"

lemma decider_keeps_policy_keeps: "policy_keeps f p \<Longrightarrow> decider_keeps f p"
  by (simp add: decider_keeps_def policy_keeps_def)

lemma keeps_decideRetryFrom:
  "\<forall>p \<in> set ps. decider_keeps f p \<Longrightarrow> keeps f (decideRetryFrom agg c ps operation attempt err)"
  by (induction agg c ps operation attempt err rule: decideRetryFrom.induct)
    (auto simp: callShouldRetry_def decider_keeps_def
      intro!: keeps_pbind keeps_precover split: option.split prod.split)

lemma keeps_decideRetry:
  "\<forall>p \<in> set ps. decider_keeps f p \<Longrightarrow> keeps f (decideRetry c ps operation attempt err)"
  unfolding decideRetry_def
  by (auto intro!: keeps_pbind keeps_decideRetryFrom split: prod.split)

lemma keeps_sleepWithContext:
  assumes "clock_free f"
  shows "keeps f (sleepWithContext L c operation attempt d)"
  using clock_freeD [OF assms] by (auto simp: keeps_def sleepWithContext_def Let_def split: option.splits if_splits)

section \<open>The order of the calls\<close>

text \<open>
  A trace of the calls: each policy, numbered by its position, and the executed function log their
  call before they run.
\<close>

datatype event = EvBefore nat | EvExec | EvAfter nat

record traced_world = world +
  trace :: "event list"

definition log_event :: "event \<Rightarrow> (unit, 'u traced_world_scheme) prog" where
  "log_event ev = pmodify (\<lambda>w. w\<lparr>trace := trace w @ [ev]\<rparr>)"

definition traced_policy ::
  "nat \<Rightarrow> 'u traced_world_scheme policy \<Rightarrow> 'u traced_world_scheme policy" where
  "traced_policy i p = p\<lparr>
     Before := (\<lambda>c operation. pbind (log_event (EvBefore i)) (\<lambda>_. Before p c operation)),
     After := (\<lambda>c operation err. pbind (log_event (EvAfter i)) (\<lambda>_. After p c operation err))\<rparr>"

definition traced_policies ::
  "nat \<Rightarrow> 'u traced_world_scheme policy list \<Rightarrow> 'u traced_world_scheme policy list" where
  "traced_policies i ps = map (\<lambda>(j, p). traced_policy j p) (enumerate i ps)"

definition traced_fn ::
  "(ctx option \<Rightarrow> ('t \<times> go_error option, 'u traced_world_scheme) prog) \<Rightarrow>
   ctx option \<Rightarrow> ('t \<times> go_error option, 'u traced_world_scheme) prog" where
  "traced_fn fn = (\<lambda>c. pbind (log_event EvExec) (\<lambda>_. fn c))"

text \<open>
  The specification of one attempt with \<open>n\<close> policies of which the first \<open>k\<close> accept: every \<open>Before\<close>
  up to the first that refuses, the execution if none does, and then the \<open>After\<close> of exactly those
  that accepted, in reverse.
\<close>

definition attempt_trace :: "nat \<Rightarrow> nat \<Rightarrow> event list" where
  "attempt_trace n k =
     map EvBefore [0..<min n (Suc k)] @ (if k = n then [EvExec] else []) @
     map EvAfter (rev [0..<k])"

lemma traced_policies_simps [simp]:
  "traced_policies i [] = []"
  "traced_policies i (p # ps) = traced_policy i p # traced_policies (Suc i) ps"
  "length (traced_policies i ps) = length ps"
  by (simp_all add: traced_policies_def)

lemma callPolicyBefore_traced:
  "callPolicyBefore L c (traced_policy i p) operation w =
     callPolicyBefore L c p operation (w\<lparr>trace := trace w @ [EvBefore i]\<rparr>)"
  by (simp add: callPolicyBefore_def traced_policy_def log_event_def prog_simps)

lemma callPolicyAfter_traced:
  "callPolicyAfter L c (traced_policy i p) operation err w =
     callPolicyAfter L c p operation err (w\<lparr>trace := trace w @ [EvAfter i]\<rparr>)"
  by (simp add: callPolicyAfter_def traced_policy_def log_event_def prog_simps)

lemma callPolicyBefore_trace:
  assumes "policy_keeps trace p" and "callPolicyBefore L c (traced_policy i p) operation w = Some (r, w')"
  shows "trace w' = trace w @ [EvBefore i]"
  using assms keepsD [OF keeps_callPolicyBefore [OF assms(1)]]
  by (fastforce simp: callPolicyBefore_traced)

lemma callPolicyAfter_trace:
  assumes "policy_keeps trace p" and "callPolicyAfter L c (traced_policy i p) operation err w = Some (r, w')"
  shows "trace w' = trace w @ [EvAfter i]"
  using assms keepsD [OF keeps_callPolicyAfter [OF assms(1)]]
  by (fastforce simp: callPolicyAfter_traced)

lemma applyBeforePolicies_trace:
  assumes "\<forall>p \<in> set ps. policy_keeps trace p"
    and "applyBeforePolicies L c (traced_policies i ps) operation w = Some (Ret (c', applied, e), w')"
  shows "\<exists>k \<le> length ps. applied = take k (traced_policies i ps) \<and>
           (e = None \<longrightarrow> k = length ps) \<and> (e \<noteq> None \<longrightarrow> k < length ps) \<and>
           trace w' = trace w @ map EvBefore [i..<i + min (length ps) (Suc k)]"
  using assms
proof (induction ps arbitrary: i c w c' applied e w')
  case Nil
  then show ?case by simp
next
  case (Cons p ps)
  have t1: "trace w1 = trace w @ [EvBefore i]"
    if "callPolicyBefore L c (traced_policy i p) operation w = Some (x, w1)" for x w1
    using callPolicyBefore_trace [OF _ that] Cons.prems(1) by simp
  note step = Cons.prems(2) [unfolded traced_policies_simps]
  from step show ?case
  proof (cases rule: applyBeforePolicies_ConsE)
    case (refuse n err)
    then show ?thesis using t1 by (intro exI [of _ 0]) auto
  next
    case (accept n w1 tl)
    obtain k where "k \<le> length ps" "tl = take k (traced_policies (Suc i) ps)"
      "e = None \<longrightarrow> k = length ps" "e \<noteq> None \<longrightarrow> k < length ps"
      "trace w' = trace w1 @ map EvBefore [Suc i..<Suc i + min (length ps) (Suc k)]"
      using Cons.IH [OF _ accept(2)] Cons.prems(1) by auto
    moreover have "[i..<i + min (Suc (length ps)) (Suc (Suc k))] =
        i # [Suc i..<Suc i + min (length ps) (Suc k)]"
      by (subst upt_conv_Cons) (simp_all del: upt_Suc)
    ultimately show ?thesis using accept(3) t1 [OF accept(1)]
      by (intro exI [of _ "Suc k"]) (simp del: upt_Suc)
  qed
qed

lemma afterPolicies_trace:
  assumes "\<forall>(j, p) \<in> set qs. policy_keeps trace p"
    and "afterPolicies L c (map (\<lambda>(j, p). traced_policy j p) qs) operation e w = Some (r, w')"
  shows "trace w' = trace w @ map (\<lambda>q. EvAfter (fst q)) qs"
  using assms
proof (induction qs arbitrary: e w)
  case (Cons q qs)
  obtain j p where q: "q = (j, p)" by (cases q)
  obtain a b w1 where
    after: "callPolicyAfter L c (traced_policy j p) operation e w = Some (Ret (a, b), w1)"
    and rest: "afterPolicies L c (map (\<lambda>(j, p). traced_policy j p) qs) operation
        (if a \<and> b \<noteq> None then errors_join [e, b] else e) w1 = Some (r, w')"
    using Cons.prems(2) unfolding q list.map prod.case by (rule afterPolicies_ConsE)
  have "trace w1 = trace w @ [EvAfter j]"
    using callPolicyAfter_trace [OF _ after] Cons.prems(1) q by simp
  then show ?case using Cons.IH [OF _ rest] Cons.prems(1) q by simp
qed simp

lemma applyAfterPolicies_trace:
  assumes "\<forall>p \<in> set ps. policy_keeps trace p" and "k \<le> length ps"
    and "applyAfterPolicies L c (take k (traced_policies 0 ps)) operation e w = Some (r, w')"
  shows "trace w' = trace w @ map EvAfter (rev [0..<k])"
proof -
  let ?qs = "rev (take k (enumerate 0 ps))"
  have "\<forall>(j, p) \<in> set ?qs. policy_keeps trace p"
    using assms(1) by (auto dest!: in_set_takeD simp: in_set_enumerate_eq)
  moreover have "rev (take k (traced_policies 0 ps)) = map (\<lambda>(j, p). traced_policy j p) ?qs"
    by (simp add: traced_policies_def take_map rev_map)
  ultimately have "trace w' = trace w @ map (\<lambda>q. EvAfter (fst q)) ?qs"
    using assms(3) afterPolicies_trace by (metis applyAfterPolicies_def)
  moreover have "map (\<lambda>q. EvAfter (fst q)) (enumerate 0 ps) = map EvAfter (map fst (enumerate 0 ps))"
    by (simp del: map_fst_enumerate)
  ultimately have "trace w' = trace w @ rev (take k (map EvAfter [0..<length ps]))"
    by (simp add: rev_map [symmetric] take_map [symmetric])
  then show ?thesis using assms(2) by (simp add: take_map take_upt rev_map)
qed

lemma in_traced_policies:
  "p \<in> set (traced_policies i ps) \<Longrightarrow> \<exists>j q. q \<in> set ps \<and> p = traced_policy j q"
  by (force simp: traced_policies_def in_set_enumerate_eq)

lemma decider_keeps_traced:
  "\<forall>p \<in> set ps. policy_keeps trace p \<Longrightarrow> \<forall>p \<in> set (traced_policies i ps). decider_keeps trace p"
  by (auto dest!: in_traced_policies simp: traced_policy_def decider_keeps_def policy_keeps_def)

lemma keeps_retryOrReturn:
  assumes "\<forall>p \<in> set ps. decider_keeps f p" and "clock_free f"
  shows "keeps f (retryOrReturn L ctx operation ps attempt res e)"
  unfolding retryOrReturn_def
  using keeps_decideRetry [OF assms(1)] keeps_sleepWithContext [OF assms(2)]
  by (auto intro!: keeps_pbind split: prod.split)

text \<open>The two ways one attempt can come back.\<close>

lemma invokeAttempt_cases:
  assumes "invokeAttempt L ctx operation fn ps zero attempt w = Some (Ret r, w')"
  obtains (refused) c applied err e w1 where
      "applyBeforePolicies L (Some ctx) ps operation w = Some (Ret (c, applied, Some err), w1)"
      "applyAfterPolicies L c applied operation (Some err) w1 = Some (Ret e, w')"
      "r = Return (zero, e)"
  | (executed) c applied res err e w1 w2 w3 where
      "applyBeforePolicies L (Some ctx) ps operation w = Some (Ret (c, applied, None), w1)"
      "fn c w1 = Some (Ret (res, err), w2)"
      "applyAfterPolicies L c applied operation err w2 = Some (Ret e, w3)"
      "e = None \<and> r = Return (res, None) \<and> w' = w3 \<or>
       e \<noteq> None \<and> retryOrReturn L ctx operation ps attempt res e w3 = Some (Ret r, w')"
proof -
  from assms obtain c applied err w1 where
    before: "applyBeforePolicies L (Some ctx) ps operation w = Some (Ret (c, applied, err), w1)"
    and rest: "(if err \<noteq> None then
           pbind (applyAfterPolicies L c applied operation err) (\<lambda>e. pret (Return (zero, e)))
         else
           pbind (fn c) (\<lambda>(result, execErr).
           pbind (applyAfterPolicies L c applied operation execErr) (\<lambda>execErr.
             if execErr = None then pret (Return (result, None))
             else retryOrReturn L ctx operation ps attempt result execErr))) w1 = Some (Ret r, w')"
    by (auto simp: invokeAttempt_def elim!: calm_bind_SomeE)
  show thesis
  proof (cases err)
    case (Some x)
    with rest before refused show thesis by (auto elim!: pbind_eq_SomeE)
  next
    case None
    with rest have "pbind (fn c) (\<lambda>(result, execErr).
           pbind (applyAfterPolicies L c applied operation execErr) (\<lambda>execErr.
             if execErr = None then pret (Return (result, None))
             else retryOrReturn L ctx operation ps attempt result execErr)) w1 = Some (Ret r, w')"
      by simp
    then obtain a w2 where "fn c w1 = Some (Ret a, w2)"
      and "(case a of (result, execErr) \<Rightarrow>
           pbind (applyAfterPolicies L c applied operation execErr) (\<lambda>execErr.
             if execErr = None then pret (Return (result, None))
             else retryOrReturn L ctx operation ps attempt result execErr)) w2 = Some (Ret r, w')"
      by (rule pbind_eq_SomeE) auto
    then obtain res xerr where fn: "fn c w1 = Some (Ret (res, xerr), w2)"
      and rest2: "pbind (applyAfterPolicies L c applied operation xerr) (\<lambda>execErr.
             if execErr = None then pret (Return (res, None))
             else retryOrReturn L ctx operation ps attempt res execErr) w2 = Some (Ret r, w')"
      by (cases a) auto
    from rest2 obtain e w3 where
      after: "applyAfterPolicies L c applied operation xerr w2 = Some (Ret e, w3)"
      and rest3: "(if e = None then pret (Return (res, None))
             else retryOrReturn L ctx operation ps attempt res e) w3 = Some (Ret r, w')"
      by (rule calm_bind_SomeE) auto
    show thesis
      using executed [OF before [unfolded None] fn after] rest3 by (auto split: if_splits)
  qed
qed

lemma attempt_trace_spec:
  assumes "\<forall>p \<in> set ps. policy_keeps trace p" and "\<forall>c. keeps trace (fn c)"
    and "invokeAttempt L ctx operation (traced_fn fn) (traced_policies 0 ps) zero attempt w =
           Some (Ret r, w')"
  shows "\<exists>k \<le> length ps. trace w' = trace w @ attempt_trace (length ps) k \<and>
           (r = Continue \<longrightarrow> k = length ps)"
  using assms(3)
proof (cases rule: invokeAttempt_cases)
  case (refused c applied err e w1)
  from applyBeforePolicies_trace [OF assms(1) refused(1)] obtain k where
    k: "k < length ps" "applied = take k (traced_policies 0 ps)"
      "trace w1 = trace w @ map EvBefore [0..<min (length ps) (Suc k)]" by auto
  have "trace w' = trace w1 @ map EvAfter (rev [0..<k])"
    using applyAfterPolicies_trace [OF assms(1) _ refused(2) [unfolded k(2)]] k(1) by simp
  then show ?thesis using k refused(3) by (intro exI [of _ k]) (auto simp: attempt_trace_def)
next
  case (executed c applied res err e w1 w2 w3)
  from applyBeforePolicies_trace [OF assms(1) executed(1)] have
    k: "applied = take (length ps) (traced_policies 0 ps)"
      "trace w1 = trace w @ map EvBefore [0..<min (length ps) (Suc (length ps))]" by auto
  have "trace w2 = trace w1 @ [EvExec]"
    using executed(2) assms(2)
    by (auto simp: traced_fn_def log_event_def prog_simps keeps_def)
  moreover have "trace w3 = trace w2 @ map EvAfter (rev [0..<length ps])"
    by (rule applyAfterPolicies_trace [OF assms(1) order_refl executed(3) [unfolded k(1)]])
  moreover have kr: "keeps trace (retryOrReturn L ctx operation (traced_policies 0 ps) attempt res e)"
    by (rule keeps_retryOrReturn [OF decider_keeps_traced [OF assms(1)]]) (simp add: clock_free_def)
  then have "trace w' = trace w3" using executed(4) keepsD [OF kr] by auto
  ultimately show ?thesis using k(2)
    by (intro exI [of _ "length ps"]) (simp add: attempt_trace_def)
qed

text \<open>
  The calls of one attempt form an onion. \<open>Before\<close> runs from the first policy on, up to and
  including the first that refuses; the function runs once, and only if none does; then \<open>After\<close> runs
  for exactly the policies whose \<open>Before\<close> accepted (or panicked), from the last to the first.
\<close>

theorem invokeAttempt_trace:
  assumes "\<forall>p \<in> set ps. policy_keeps trace p" and "\<forall>c. keeps trace (fn c)"
    and "invokeAttempt L ctx operation (traced_fn fn) (traced_policies 0 ps) zero attempt w =
           Some (Ret r, w')"
  shows "\<exists>k \<le> length ps. trace w' = trace w @ attempt_trace (length ps) k \<and>
           (r = Continue \<longrightarrow> k = length ps)"
  by (rule attempt_trace_spec [OF assms])

text \<open>The hypotheses hold for plain functions as policies that log nothing themselves.\<close>

definition traced_start :: traced_world where
  "traced_start = \<lparr>now = 0, next_id = 0, cancelled_at = (\<lambda>_. None), choices = (\<lambda>_. True),
     sems = (\<lambda>_. 0), trace = []\<rparr>"

lemma policy_keeps_PolicyFuncs_None: "policy_keeps f (PolicyFuncs None None)"
  by (simp add: policy_keeps_def PolicyFuncs_def)

theorem invokeAttempt_trace_witness:
  "\<exists>w'. invokeAttempt plain_lib Background sample_operation (traced_fn (\<lambda>_. pret (7 :: nat, None)))
          (traced_policies 0 [PolicyFuncs None None, PolicyFuncs None None]) 0 1 traced_start =
          Some (Ret (Return (7, None)), w') \<and>
        (\<exists>k \<le> 2. trace w' = attempt_trace 2 k) \<and>
        trace w' = [EvBefore 0, EvBefore 1, EvExec, EvAfter 1, EvAfter 0]"
proof -
  let ?ps = "[PolicyFuncs None None, PolicyFuncs None None] :: traced_world policy list"
  let ?m = "invokeAttempt plain_lib Background sample_operation (traced_fn (\<lambda>_. pret (7 :: nat, None)))
          (traced_policies 0 ?ps) 0 1 traced_start"
  have ps: "\<forall>p \<in> set ?ps. policy_keeps trace p" by (simp add: policy_keeps_PolicyFuncs_None)
  have fn: "\<forall>c :: ctx option. keeps trace (pret (7 :: nat, None :: go_error option) :: (_, traced_world) prog)"
    by simp
  obtain w' where w': "?m = Some (Ret (Return (7, None)), w')"
    and t: "trace w' = [EvBefore 0, EvBefore 1, EvExec, EvAfter 1, EvAfter 0]"
    by (simp add: invokeAttempt_def traced_fn_def traced_policy_def PolicyFuncs_def log_event_def
        callPolicyBefore_def callPolicyAfter_def applyAfterPolicies_def wrapPolicyBeforeError_def
        wrapPolicyAfterError_def traced_start_def prog_simps)
  then show ?thesis using invokeAttempt_trace [OF ps fn w']
    by (auto simp: traced_start_def numeral_2_eq_2)
qed

text \<open>Induction along the attempts of a call that comes back.\<close>

lemma invokeLoop_induct [consumes 1, case_names stop again]:
  assumes "invokeLoop L ctx operation fn ps zero attempt w = Some (Ret r, w')"
    and stop: "\<And>attempt w r w'.
      invokeAttempt L ctx operation fn ps zero attempt w = Some (Ret (Return r), w') \<Longrightarrow>
      P attempt w r w'"
    and again: "\<And>attempt w w1 r w'.
      invokeAttempt L ctx operation fn ps zero attempt w = Some (Ret Continue, w1) \<Longrightarrow>
      P (attempt + 1) w1 r w' \<Longrightarrow> P attempt w r w'"
  shows "P attempt w r w'"
proof -
  let ?Q = "\<lambda>L' ctx' op' fn' ps' zero' attempt w x. L' = L \<longrightarrow> ctx' = ctx \<longrightarrow> op' = operation \<longrightarrow>
      fn' = fn \<longrightarrow> ps' = ps \<longrightarrow> zero' = zero \<longrightarrow> (\<forall>r w'. x = (Ret r, w') \<longrightarrow> P attempt w r w')"
  have "?Q L ctx operation fn ps zero attempt w (Ret r, w')"
    by (rule invokeLoop.raw_induct [where P = ?Q, OF _ assms(1)])
      (auto split: option.splits prod.splits res.splits flow.splits intro: stop again)
  then show ?thesis by blast
qed

text \<open>
  C7: a whole call that comes back is a sequence of complete attempts, every one but the last with
  all policies accepting and the function executed, followed by one last attempt.
\<close>

theorem invokeLoop_trace:
  assumes "invokeLoop L ctx operation (traced_fn fn) (traced_policies 0 ps) zero attempt w =
             Some (Ret r, w')"
    and "\<forall>p \<in> set ps. policy_keeps trace p" and "\<forall>c. keeps trace (fn c)"
  shows "\<exists>m. \<exists>k \<le> length ps. trace w' = trace w @
           concat (replicate m (attempt_trace (length ps) (length ps))) @
           attempt_trace (length ps) k"
  using assms(1)
proof (induction rule: invokeLoop_induct)
  case (stop attempt w r w')
  from attempt_trace_spec [OF assms(2,3) stop] obtain k where "k \<le> length ps"
    "trace w' = trace w @ concat (replicate 0 (attempt_trace (length ps) (length ps))) @
      attempt_trace (length ps) k"
    by auto
  then show ?case by blast
next
  case (again attempt w w1 r w')
  then obtain m k where "k \<le> length ps" "trace w' = trace w1 @
      concat (replicate m (attempt_trace (length ps) (length ps))) @ attempt_trace (length ps) k"
    by blast
  moreover have "trace w1 = trace w @ attempt_trace (length ps) (length ps)"
    using attempt_trace_spec [OF assms(2,3) again.hyps] by auto
  ultimately have "trace w' = trace w @
      concat (replicate (Suc m) (attempt_trace (length ps) (length ps))) @ attempt_trace (length ps) k"
    by simp
  then show ?case using \<open>k \<le> length ps\<close> by blast
qed

section \<open>Errors are kept, and success is earned\<close>

lemma callPolicyAfter_afterPolicies_carries:
  assumes "afterPolicies L c ps operation e w = Some (Ret e', w')"
  shows "carries e' e"
  using assms
proof (induction L c ps operation e arbitrary: w rule: afterPolicies.induct)
  case (2 L c p ps operation e)
  from "2.prems" obtain a b w1 where
    rest: "afterPolicies L c ps operation (if a \<and> b \<noteq> None then errors_join [e, b] else e) w1
             = Some (Ret e', w')"
    by (rule afterPolicies_ConsE)
  have "carries (if a \<and> b \<noteq> None then errors_join [e, b] else e) e"
    using carries_join_left by simp
  moreover have "carries e' (if a \<and> b \<noteq> None then errors_join [e, b] else e)"
    using "2.IH" rest by blast
  ultimately show ?case by (rule carries_trans [rotated])
qed simp

lemma after_carries:
  assumes "applyAfterPolicies L c ps operation e w = Some (Ret e', w')"
  shows "carries e' e"
  using assms callPolicyAfter_afterPolicies_carries by (simp add: applyAfterPolicies_def)

text \<open>
  C15: whatever the \<open>After\<close> methods do, the error they are run with is not lost: every error in its
  tree is still found by \<open>errors.Is\<close> and \<open>errors.AsType\<close> in the error that comes out.
\<close>

theorem applyAfterPolicies_carries:
  assumes "applyAfterPolicies L c ps operation e w = Some (Ret e', w')"
  shows "carries e' e"
  by (rule after_carries [OF assms])

lemma retryOrReturn_Return:
  assumes "retryOrReturn L ctx operation ps attempt res e w = Some (Ret (Return (x, e')), w')"
  shows "x = res \<and> carries e' e"
proof -
  from assms obtain a w1 where "decideRetry (Some ctx) ps operation attempt e w = Some (Ret a, w1)"
    and rest: "(case a of (retry, wait) \<Rightarrow>
         if \<not> retry then pret (Return (res, e))
         else
           pbind (sleepWithContext L ctx operation attempt wait) (\<lambda>sleepErr.
             if sleepErr \<noteq> None then pret (Return (res, errors_join [e, sleepErr]))
             else pret Continue)) w1 = Some (Ret (Return (x, e')), w')"
    unfolding retryOrReturn_def by (rule calm_bind_SomeE) auto
  show ?thesis
  proof (cases "fst a")
    case True
    with rest obtain s w2 where "(if s \<noteq> None then pret (Return (res, errors_join [e, s]))
        else pret Continue) w2 = Some (Ret (Return (x, e')), w')"
      by (cases a) (auto elim!: calm_bind_SomeE)
    then show ?thesis using carries_join_left by (auto split: if_splits)
  qed (use rest in \<open>cases a, auto\<close>)
qed

lemma loop_success:
  assumes "invokeLoop L ctx operation fn ps zero attempt w = Some (Ret (x, None), w')"
  shows "\<exists>c w1 w2. fn c w1 = Some (Ret (x, None), w2)"
proof -
  have "snd r = None \<longrightarrow> (\<exists>c w1 w2. fn c w1 = Some (Ret (fst r, None), w2))"
    if "invokeLoop L ctx operation fn ps zero attempt w = Some (Ret r, w')" for r
    using that
  proof (induction rule: invokeLoop_induct)
    case (stop attempt w r w')
    then show ?case
    proof (cases rule: invokeAttempt_cases)
      case (refused c applied err e w1)
      then have "carries e (Some err)" by (blast intro: after_carries)
      then show ?thesis using refused(3) by (auto dest: carries_eq_None)
    next
      case (executed c applied res err e w1 w2 w3)
      have "carries e err" by (rule after_carries [OF executed(3)])
      then show ?thesis using executed(2,4) carries_eq_None
        by (cases r) (fastforce dest!: retryOrReturn_Return)
    qed
  qed
  then show ?thesis using assms by fastforce
qed

text \<open>
  C13: success is earned: a call that returns no error returns the value of an execution of the
  function that itself returned no error; no policy can turn a failure into a success.
\<close>

theorem invokeLoop_success:
  assumes "invokeLoop L ctx operation fn ps zero attempt w = Some (Ret (x, None), w')"
  shows "\<exists>c w1 w2. fn c w1 = Some (Ret (x, None), w2)"
  by (rule loop_success [OF assms])

section \<open>When the loop ends\<close>

definition policy_returns :: "'w policy \<Rightarrow> bool" where
  "policy_returns p \<longleftrightarrow>
     (\<forall>c operation. returns (Before p c operation)) \<and>
     (\<forall>c operation err. returns (After p c operation err)) \<and>
     (\<forall>d c operation attempt err. ShouldRetry p = Some d \<longrightarrow> returns (d c operation attempt err))"

text \<open>The methods a policy is called through after its \<open>Before\<close>.\<close>

definition later_returns :: "'w policy \<Rightarrow> bool" where
  "later_returns p \<longleftrightarrow>
     (\<forall>c operation err. returns (After p c operation err)) \<and>
     (\<forall>d c operation attempt err. ShouldRetry p = Some d \<longrightarrow> returns (d c operation attempt err))"

lemma policy_returns_later: "policy_returns p \<Longrightarrow> later_returns p"
  by (auto simp: policy_returns_def later_returns_def)

text \<open>\<open>stops_at n p\<close>: from the \<open>n\<close>-th attempt on, \<open>p\<close> asks for no more.\<close>

definition stops_at :: "int \<Rightarrow> 'w policy \<Rightarrow> bool" where
  "stops_at n p \<longleftrightarrow>
     (\<forall>d c operation attempt err w x w'. ShouldRetry p = Some d \<longrightarrow> n \<le> attempt \<longrightarrow>
        d c operation attempt err w = Some (Ret x, w') \<longrightarrow> \<not> fst x)"

lemma stops_atD:
  "stops_at n p \<Longrightarrow> ShouldRetry p = Some d \<Longrightarrow> n \<le> attempt \<Longrightarrow>
   d c operation attempt err w = Some (Ret x, w') \<Longrightarrow> \<not> fst x"
  unfolding stops_at_def by blast

lemma decideRetryFrom_stops:
  assumes "\<forall>p \<in> set ps. stops_at n p" and "n \<le> attempt"
    and "decideRetryFrom agg c ps operation attempt err w = Some (Ret x, w')"
  shows "x = agg"
  using assms(1,3)
proof (induction ps arbitrary: w)
  case (Cons p ps)
  from Cons.prems(2) show ?case
  proof (cases rule: decideRetryFrom_ConsE)
    case no_decider
    then show ?thesis using Cons.IH Cons.prems(1) by simp
  next
    case (ask d b t k w1)
    have "\<not> (k \<and> b)"
      using callShouldRetry_SomeD [OF ask(2)] stops_atD [OF _ ask(1) assms(2)] Cons.prems(1) by fastforce
    then have "decideRetryFrom agg c ps operation attempt err w1 = Some (Ret x, w')"
      using ask(3) by (simp only: if_False)
    then show ?thesis using Cons.IH Cons.prems(1) by simp
  qed
qed simp

lemma retryOrReturn_stops:
  assumes "\<forall>p \<in> set ps. stops_at n p" and "n \<le> attempt"
  shows "retryOrReturn L ctx operation ps attempt res e w \<noteq> Some (Ret Continue, w')"
proof
  assume "retryOrReturn L ctx operation ps attempt res e w = Some (Ret Continue, w')"
  then obtain a w1 where "decideRetry (Some ctx) ps operation attempt e w = Some (Ret a, w1)"
    and rest: "(case a of (retry, wait) \<Rightarrow>
         if \<not> retry then pret (Return (res, e))
         else
           pbind (sleepWithContext L ctx operation attempt wait) (\<lambda>sleepErr.
             if sleepErr \<noteq> None then pret (Return (res, errors_join [e, sleepErr]))
             else pret Continue)) w1 = Some (Ret Continue, w')"
    unfolding retryOrReturn_def by (rule calm_bind_SomeE) auto
  moreover from this have "\<not> fst a"
    by (auto simp: decideRetry_def elim!: calm_bind_SomeE dest!: decideRetryFrom_stops [OF assms])
  ultimately show False by (cases a) simp
qed

lemma invokeAttempt_stops:
  assumes "\<forall>p \<in> set ps. stops_at n p" and "n \<le> attempt"
  shows "invokeAttempt L ctx operation fn ps zero attempt w \<noteq> Some (Ret Continue, w')"
proof
  assume "invokeAttempt L ctx operation fn ps zero attempt w = Some (Ret Continue, w')"
  then show False
    by (cases rule: invokeAttempt_cases) (auto simp: retryOrReturn_stops [OF assms])
qed

lemma returns_applyBeforePolicies:
  "\<forall>p \<in> set ps. policy_returns p \<Longrightarrow> returns (applyBeforePolicies L c ps operation)"
  by (induction L c ps operation rule: applyBeforePolicies.induct)
    (auto simp: callPolicyBefore_def policy_returns_def
      intro!: returns_pbind returns_precover split: prod.split)

lemma returns_afterPolicies:
  "\<forall>p \<in> set ps. later_returns p \<Longrightarrow> returns (afterPolicies L c ps operation e)"
  by (induction L c ps operation e rule: afterPolicies.induct)
    (auto simp: callPolicyAfter_def later_returns_def
      intro!: returns_pbind returns_precover split: prod.split)

lemma returns_decideRetryFrom:
  "\<forall>p \<in> set ps. later_returns p \<Longrightarrow> returns (decideRetryFrom agg c ps operation attempt err)"
  by (induction agg c ps operation attempt err rule: decideRetryFrom.induct)
    (auto simp: callShouldRetry_def later_returns_def
      intro!: returns_pbind returns_precover split: prod.split option.split)

lemma returns_sleepWithContext [simp, intro]: "returns (sleepWithContext L c operation attempt d)"
  by (auto simp: returns_def sleepWithContext_def Let_def split: option.split)

lemma applyBeforePolicies_subset:
  "applyBeforePolicies L c ps operation w = Some (Ret (c', applied, e), w') \<Longrightarrow> set applied \<subseteq> set ps"
proof (induction ps arbitrary: c w applied)
  case (Cons p ps)
  from Cons.prems show ?case
    by (cases rule: applyBeforePolicies_ConsE) (auto dest: Cons.IH)
qed simp

lemma returns_retryOrReturn:
  "\<forall>p \<in> set ps. later_returns p \<Longrightarrow> returns (retryOrReturn L ctx operation ps attempt res e)"
  unfolding retryOrReturn_def decideRetry_def
  by (auto intro!: returns_pbind returns_decideRetryFrom split: prod.split)

lemma returns_invokeAttempt:
  assumes "returns (applyBeforePolicies L (Some ctx) ps operation)" and "\<forall>c. returns (fn c)"
    and "\<forall>p \<in> set ps. later_returns p"
  shows "returns (invokeAttempt L ctx operation fn ps zero attempt)"
  unfolding invokeAttempt_def
proof (rule returns_pbind' [OF assms(1)])
  fix a w w'
  assume "applyBeforePolicies L (Some ctx) ps operation w = Some (Ret a, w')"
  then obtain c applied e where a: "a = (c, applied, e)"
    and before: "applyBeforePolicies L (Some ctx) ps operation w = Some (Ret (c, applied, e), w')"
    by (cases a) auto
  have "\<forall>p \<in> set applied. later_returns p"
    using applyBeforePolicies_subset [OF before] assms(3) by blast
  then have after: "returns (applyAfterPolicies L c applied operation x)" for x
    by (simp add: applyAfterPolicies_def returns_afterPolicies)
  have refused: "returns (pbind (applyAfterPolicies L c applied operation e) (\<lambda>e. pret (Return (zero, e))))"
    by (rule returns_pbind [OF after]) simp
  have "returns (pbind (applyAfterPolicies L c applied operation x) (\<lambda>execErr.
          if execErr = None then pret (Return (res, None))
          else retryOrReturn L ctx operation ps attempt res execErr))" for res x
    by (rule returns_pbind [OF after]) (simp add: returns_retryOrReturn [OF assms(3)])
  then have executed: "returns (pbind (fn c) (\<lambda>(result, execErr).
        pbind (applyAfterPolicies L c applied operation execErr) (\<lambda>execErr.
          if execErr = None then pret (Return (result, None))
          else retryOrReturn L ctx operation ps attempt result execErr)))"
    by (intro returns_pbind) (use assms(2) in \<open>auto split: prod.split\<close>)
  show "(case a of (attemptCtx, applied, err) \<Rightarrow>
      if err \<noteq> None
      then pbind (applyAfterPolicies L attemptCtx applied operation err) (\<lambda>e. pret (Return (zero, e)))
      else pbind (fn attemptCtx) (\<lambda>(result, execErr).
        pbind (applyAfterPolicies L attemptCtx applied operation execErr) (\<lambda>execErr.
          if execErr = None then pret (Return (result, None))
          else retryOrReturn L ctx operation ps attempt result execErr))) w' \<noteq> None"
    using returnsD [OF refused, of w'] returnsD [OF executed, of w'] a by simp
qed

lemma loop_returns_passes:
  assumes "returns (applyBeforePolicies L (Some ctx) ps operation)"
    and "\<forall>p \<in> set ps. later_returns p \<and> stops_at n p" and "\<forall>c. returns (fn c)"
  shows "invokeLoop L ctx operation fn ps zero attempt w \<noteq> None"
proof (induction "nat (n - attempt)" arbitrary: attempt w rule: less_induct)
  case less
  obtain x w1 where x: "invokeAttempt L ctx operation fn ps zero attempt w = Some (x, w1)"
    using returnsD [OF returns_invokeAttempt [OF assms(1,3)], of zero attempt w] assms(2) by auto
  show ?case
  proof (cases "x = Ret Continue")
    case True
    then have "attempt < n"
      using x invokeAttempt_stops assms(2) by (metis linorder_not_le)
    then have "invokeLoop L ctx operation fn ps zero (attempt + 1) w1 \<noteq> None"
      by (intro less) simp
    then show ?thesis using x True by (simp add: invokeLoop.simps [of L ctx operation fn ps zero attempt w])
  next
    case False
    then show ?thesis using x
      by (cases x) (auto simp: invokeLoop.simps [of L ctx operation fn ps zero attempt w] split: flow.split)
  qed
qed

lemma loop_returns:
  assumes "\<forall>p \<in> set ps. policy_returns p \<and> stops_at n p" and "\<forall>c. returns (fn c)"
  shows "invokeLoop L ctx operation fn ps zero attempt w \<noteq> None"
  by (rule loop_returns_passes)
    (use assms in \<open>auto intro: returns_applyBeforePolicies policy_returns_later\<close>)

text \<open>
  C1: the retry loop ends: if every method and the function come back, and every policy stops asking
  for more from some attempt on, then the call comes back, from every world and whatever fails.
\<close>

theorem invokeLoop_returns:
  assumes "\<forall>p \<in> set ps. policy_returns p \<and> stops_at n p" and "\<forall>c. returns (fn c)"
  shows "invokeLoop L ctx operation fn ps zero attempt w \<noteq> None"
  by (rule loop_returns [OF assms])

lemma stops_at_traced: "stops_at n (traced_policy i p) = stops_at n p"
  by (simp add: stops_at_def traced_policy_def)

lemma count_attempt_trace:
  "count_list (attempt_trace n k) EvExec = (if k = n then 1 else 0)"
proof -
  have "count_list (map EvBefore xs) EvExec = 0" "count_list (map EvAfter ys) EvExec = 0" for xs ys
    by (auto simp: count_list_0_iff)
  then show ?thesis by (simp add: attempt_trace_def del: upt_Suc)
qed

lemma loop_executes:
  assumes "invokeLoop L ctx operation (traced_fn fn) (traced_policies 0 ps) zero attempt w =
             Some (Ret r, w')"
    and "\<forall>p \<in> set ps. policy_keeps trace p \<and> stops_at n p" and "\<forall>c. keeps trace (fn c)"
  shows "count_list (trace w') EvExec \<le> count_list (trace w) EvExec + nat (n - attempt) + 1"
  using assms(1)
proof (induction rule: invokeLoop_induct)
  case (stop attempt w r w')
  then show ?case using attempt_trace_spec [OF _ assms(3) stop] assms(2)
    by (auto simp: count_attempt_trace)
next
  case (again attempt w w1 r w')
  have keep: "\<forall>p \<in> set ps. policy_keeps trace p" using assms(2) by blast
  have stops: "\<forall>p \<in> set (traced_policies 0 ps). stops_at n p"
    using assms(2) by (auto dest!: in_traced_policies simp: stops_at_traced)
  have "attempt < n" using invokeAttempt_stops [OF stops] again.hyps by (metis linorder_not_le)
  moreover have "count_list (trace w1) EvExec = count_list (trace w) EvExec + 1"
    using attempt_trace_spec [OF keep assms(3) again.hyps] by (auto simp: count_attempt_trace)
  ultimately show ?case using again.IH by linarith
qed

text \<open>
  And it ends in time: with policies that stop asking at attempt \<open>n\<close>, a call executes the
  function at most \<open>n\<close> times (once if \<open>n\<close> is smaller).
\<close>

theorem invokeLoop_executions:
  assumes "invokeLoop L ctx operation (traced_fn fn) (traced_policies 0 ps) zero attempt w =
             Some (Ret r, w')"
    and "\<forall>p \<in> set ps. policy_keeps trace p \<and> stops_at n p" and "\<forall>c. keeps trace (fn c)"
  shows "count_list (trace w') EvExec \<le> count_list (trace w) EvExec + nat (n - attempt) + 1"
  by (rule loop_executes [OF assms])

text \<open>The same for anything the function adds at most one to and the policies leave alone.\<close>

lemma keeps_applyBeforePolicies:
  "\<forall>p \<in> set ps. policy_keeps f p \<Longrightarrow> keeps f (applyBeforePolicies L c ps operation)"
  by (induction L c ps operation rule: applyBeforePolicies.induct)
    (auto intro!: keeps_pbind keeps_callPolicyBefore split: prod.split)

lemma keeps_afterPolicies:
  "\<forall>p \<in> set ps. policy_keeps f p \<Longrightarrow> keeps f (afterPolicies L c ps operation e)"
  by (induction L c ps operation e rule: afterPolicies.induct)
    (auto intro!: keeps_pbind keeps_callPolicyAfter split: prod.split)

lemma invokeAttempt_count:
  assumes "\<forall>p \<in> set ps. policy_keeps count p" and "clock_free count"
    and "\<And>c w r w'. fn c w = Some (r, w') \<Longrightarrow> count w' \<le> count w + (1 :: nat)"
    and "invokeAttempt L ctx operation fn ps zero attempt w = Some (Ret r, w')"
  shows "count w' \<le> count w + 1"
  using assms(4)
proof (cases rule: invokeAttempt_cases)
  case (refused c applied err e w1)
  have "count w1 = count w" by (rule keepsD [OF keeps_applyBeforePolicies [OF assms(1)] refused(1)])
  moreover have "keeps count (afterPolicies L c (rev applied) operation (Some err))"
    using applyBeforePolicies_subset [OF refused(1)] assms(1) by (intro keeps_afterPolicies) auto
  then have "count w' = count w1"
    using refused(2) unfolding applyAfterPolicies_def by (rule keepsD)
  ultimately show ?thesis by simp
next
  case (executed c applied res err e w1 w2 w3)
  have "count w1 = count w" by (rule keepsD [OF keeps_applyBeforePolicies [OF assms(1)] executed(1)])
  moreover have "count w2 \<le> count w1 + 1" by (rule assms(3) [OF executed(2)])
  moreover have "keeps count (afterPolicies L c (rev applied) operation err)"
    using applyBeforePolicies_subset [OF executed(1)] assms(1) by (intro keeps_afterPolicies) auto
  then have "count w3 = count w2"
    using executed(3) unfolding applyAfterPolicies_def by (rule keepsD)
  moreover have "keeps count (retryOrReturn L ctx operation ps attempt res e)"
    using assms(1,2) by (intro keeps_retryOrReturn) (auto intro: decider_keeps_policy_keeps)
  then have "count w' = count w3" using executed(4) keepsD by fastforce
  ultimately show ?thesis by simp
qed

lemma loop_count:
  assumes "\<forall>p \<in> set ps. policy_keeps count p \<and> stops_at n p" and "clock_free count"
    and "\<And>c w r w'. fn c w = Some (r, w') \<Longrightarrow> count w' \<le> count w + (1 :: nat)"
    and "invokeLoop L ctx operation fn ps zero attempt w = Some (Ret r, w')"
  shows "count w' \<le> count w + nat (n - attempt) + 1"
proof -
  have once: "count w' \<le> count w + 1"
    if "invokeAttempt L ctx operation fn ps zero attempt w = Some (Ret r, w')" for attempt w r w'
    by (rule invokeAttempt_count [OF _ _ _ that]) (use assms(1-3) in blast)+
  show ?thesis using assms(4)
  proof (induction rule: invokeLoop_induct)
    case (stop attempt w r w')
    then show ?case using once [OF stop] by simp
  next
    case (again attempt w w1 r w')
    have "attempt < n" using invokeAttempt_stops [of ps n] assms(1) again.hyps by (metis linorder_not_le)
    moreover have "count w1 \<le> count w + 1"
      by (rule once [OF again.hyps])
    ultimately show ?case using again.IH by linarith
  qed
qed

section \<open>What is acquired is released\<close>

text \<open>
  The contract of policies that hold a resource: \<open>level\<close> measures how much of it is held, \<open>cost p\<close>
  what \<open>Before\<close> of \<open>p\<close> adds when it accepts (or panics: the engine then runs its \<open>After\<close> as well) and
  \<open>After\<close> of \<open>p\<close> gives back; a \<open>Before\<close> that refuses leaves the level as it was.
\<close>

locale balanced_policies =
  fixes ps :: "'u world_scheme policy list"
    and level :: "'u world_scheme \<Rightarrow> nat"
    and cost :: "'u world_scheme policy \<Rightarrow> nat"
  assumes level_clock: "clock_free level"
    and before_accept: "p \<in> set ps \<Longrightarrow> Before p c operation w = Some (Ret (c', None), w') \<Longrightarrow>
      level w' = level w + cost p"
    and before_panic: "p \<in> set ps \<Longrightarrow> Before p c operation w = Some (Panic, w') \<Longrightarrow>
      level w' = level w + cost p"
    and before_refuse: "p \<in> set ps \<Longrightarrow> Before p c operation w = Some (Ret (c', Some err), w') \<Longrightarrow>
      level w' = level w"
    and after_release: "p \<in> set ps \<Longrightarrow> After p c operation e w = Some (r, w') \<Longrightarrow>
      cost p \<le> level w \<Longrightarrow> level w' = level w - cost p"
    and decider_level: "p \<in> set ps \<Longrightarrow> decider_keeps level p"
begin

lemma callPolicyBefore_level:
  assumes "oops_ok L" and "p \<in> set ps"
    and "callPolicyBefore L c p operation w = Some (Ret (c', e), w')"
  shows "level w' = level w + (if e = None then cost p else 0)"
proof (cases "Before p c operation w")
  case (Some x)
  obtain r w1 where x: "x = (r, w1)" by (cases x)
  show ?thesis
  proof (cases r)
    case (Ret a)
    obtain pc pe where a: "a = (pc, pe)" by (cases a)
    have "w' = w1" and "e = None \<longleftrightarrow> pe = None"
      using assms(1,3) Some x Ret a
      by (auto simp: callPolicyBefore_def wrapPolicyBeforeError_def prog_simps split: if_splits)
    then show ?thesis
      using before_accept [OF assms(2)] before_refuse [OF assms(2)] Some x Ret a
      by (cases pe) auto
  next
    case Panic
    then show ?thesis using before_panic [OF assms(2)] assms(3) Some x
      by (auto simp: callPolicyBefore_def prog_simps)
  qed
qed (use assms(3) in \<open>simp add: callPolicyBefore_def prog_simps\<close>)

lemma callPolicyAfter_level:
  assumes "p \<in> set ps" and "callPolicyAfter L c p operation e w = Some (r, w')"
    and "cost p \<le> level w"
  shows "level w' = level w - cost p"
  using assms after_release [OF assms(1) _ assms(3)]
  by (auto simp: callPolicyAfter_def prog_simps split: option.splits res.splits)

lemma applyBeforePolicies_level:
  assumes "oops_ok L"
  shows "set qs \<subseteq> set ps \<Longrightarrow>
    applyBeforePolicies L c qs operation w = Some (Ret (c', applied, e), w') \<Longrightarrow>
    level w' = level w + sum_list (map cost applied)"
proof (induction qs arbitrary: c w applied)
  case (Cons p qs)
  have p: "p \<in> set ps" using Cons.prems(1) by simp
  from Cons.prems(2) show ?case
  proof (cases rule: applyBeforePolicies_ConsE)
    case (refuse n err)
    then show ?thesis using callPolicyBefore_level [OF assms p refuse(1)] by simp
  next
    case (accept n w1 tl)
    then show ?thesis
      using callPolicyBefore_level [OF assms p accept(1)] Cons.IH [OF _ accept(2)] Cons.prems(1)
      by simp
  qed
qed simp

lemma afterPolicies_level:
  "set qs \<subseteq> set ps \<Longrightarrow> afterPolicies L c qs operation e w = Some (r, w') \<Longrightarrow>
   sum_list (map cost qs) \<le> level w \<Longrightarrow> level w' = level w - sum_list (map cost qs)"
proof (induction qs arbitrary: e w)
  case (Cons p qs)
  from Cons.prems(2) obtain a b w1 where
    after: "callPolicyAfter L c p operation e w = Some (Ret (a, b), w1)"
    and rest: "afterPolicies L c qs operation (if a \<and> b \<noteq> None then errors_join [e, b] else e) w1
        = Some (r, w')"
    by (rule afterPolicies_ConsE)
  have "level w1 = level w - cost p"
    using callPolicyAfter_level [OF _ after] Cons.prems(1,3) by simp
  then show ?case using Cons.IH [OF _ rest] Cons.prems(1,3) by simp
qed simp

lemma applyAfterPolicies_level:
  assumes "set qs \<subseteq> set ps" and "applyAfterPolicies L c qs operation e w = Some (r, w')"
    and "sum_list (map cost qs) \<le> level w"
  shows "level w' = level w - sum_list (map cost qs)"
  using assms afterPolicies_level [of "rev qs" L c operation e w r w']
  by (simp add: applyAfterPolicies_def rev_map [symmetric])

lemma invokeAttempt_level:
  assumes "oops_ok L" and "\<forall>c. keeps level (fn c)"
    and "invokeAttempt L ctx operation fn ps zero attempt w = Some (Ret r, w')"
  shows "level w' = level w"
  using assms(3)
proof (cases rule: invokeAttempt_cases)
  case (refused c applied err e w1)
  then show ?thesis
    using applyBeforePolicies_level [OF assms(1) order_refl refused(1)]
      applyAfterPolicies_level [OF applyBeforePolicies_subset [OF refused(1)] refused(2)] by simp
next
  case (executed c applied res err e w1 w2 w3)
  have kr: "keeps level (retryOrReturn L ctx operation ps attempt res e)"
    by (rule keeps_retryOrReturn) (auto simp: level_clock decider_level)
  have "level w2 = level w1" by (rule keepsD [OF assms(2) [rule_format] executed(2)])
  moreover have "level w1 = level w + sum_list (map cost applied)"
    by (rule applyBeforePolicies_level [OF assms(1) order_refl executed(1)])
  ultimately have "level w3 = level w"
    using applyAfterPolicies_level [OF applyBeforePolicies_subset [OF executed(1)] executed(3)] by simp
  then show ?thesis using executed(4) keepsD [OF kr] by auto
qed

lemma invokeLoop_level:
  assumes "oops_ok L" and "\<forall>c. keeps level (fn c)"
    and "invokeLoop L ctx operation fn ps zero attempt w = Some (Ret r, w')"
  shows "level w' = level w"
  using assms(3)
  by (induction rule: invokeLoop_induct)
    (auto dest!: invokeAttempt_level [OF assms(1,2)])

end

section \<open>A policy that panics in Before\<close>

text \<open>
  A policy whose \<open>Before\<close> panics is skipped as intended, but not with the context it was given:
  the policies after it, and the executed function, run with a nil context.
\<close>

theorem before_panic_nil_context:
  assumes "Before p c operation w = Some (Panic, w1)"
  shows "applyBeforePolicies L c (p # ps) operation w =
    pbind (applyBeforePolicies L None ps operation)
      (\<lambda>(finalCtx, applied, err). pret (finalCtx, p # applied, err)) w1"
proof -
  have "callPolicyBefore L c p operation w = Some (Ret (None, None), w1)"
    using assms by (simp add: callPolicyBefore_def prog_simps)
  then show ?thesis by (simp add: pbind_apply)
qed

theorem before_panic_nil_context_witness:
  "applyBeforePolicies plain_lib (Some Background) [PolicyFuncs (Some (\<lambda>_ _. ppanic)) None]
     sample_operation start_world =
   pbind (applyBeforePolicies plain_lib None [] sample_operation)
      (\<lambda>(finalCtx, applied, err).
        pret (finalCtx, PolicyFuncs (Some (\<lambda>_ _. ppanic)) None # applied, err)) start_world"
  by (rule before_panic_nil_context) (simp add: PolicyFuncs_def)

end
