(* ===== verification/Hook.thy ===== *)
theory Hook
  imports Policy_Engine
begin

text \<open>
  \<^verbatim>\<open>hook.go\<close>, \<^verbatim>\<open>hook_logging.go\<close>, \<^verbatim>\<open>hook_observability.go\<close>, \<^verbatim>\<open>apply.go\<close>, \<^verbatim>\<open>append.go\<close>: the
  observers a client tells of its dials and transfers, and how options are applied.

  A hook is the record of its two methods; an entry of a hook list is \<open>None\<close> for a nil interface.
  What is outside \<open>src/\<close> is a parameter: \<open>option.Apply\<close> (\<open>oapply\<close>, with the law its
  documentation states), the logger, and the metrics of \<^verbatim>\<open>observabilityx\<close>. The conversion of whole
  milliseconds to \<open>float64\<close> is left inside \<open>Record\<close>.
\<close>

section \<open>Options\<close>

text \<open>An option is a function on the configuration it changes; nil options are skipped.\<close>

type_synonym 'c options = "('c \<Rightarrow> 'c) option list"

definition oapply_ok :: "('c \<Rightarrow> 'c options \<Rightarrow> 'c) \<Rightarrow> bool" where
  "oapply_ok ap \<longleftrightarrow>
     (\<forall>c. ap c [] = c) \<and> (\<forall>c os. ap c (None # os) = ap c os) \<and> (\<forall>c f os. ap c (Some f # os) = ap (f c) os)"

definition Apply :: "('c \<Rightarrow> 'c options \<Rightarrow> 'c) \<Rightarrow> 'c \<Rightarrow> 'c options \<Rightarrow> 'c" where
  "Apply ap target opts = ap target opts"

fun apply_all :: "'c \<Rightarrow> 'c options \<Rightarrow> 'c" where
  "apply_all c [] = c"
| "apply_all c (None # os) = apply_all c os"
| "apply_all c (Some f # os) = apply_all (f c) os"

lemma apply_all_ok [simp, intro]: "oapply_ok apply_all"
  by (simp add: oapply_ok_def)

lemma Apply_eq: "oapply_ok ap \<Longrightarrow> Apply ap c os = apply_all c os"
  unfolding Apply_def oapply_ok_def by (induction c os rule: apply_all.induct) simp_all

section \<open>Events and hooks\<close>

record DialEvent =
  dialProtocol :: string
  dialOp :: string
  dialNetwork :: string
  dialAddr :: string
  dialDuration :: duration
  dialErr :: "go_error option"

record IOEvent =
  ioProtocol :: string
  ioOp :: string
  ioAddr :: string
  ioBytes :: int
  ioDuration :: duration
  ioErr :: "go_error option"

record 'w hook =
  OnDial :: "DialEvent \<Rightarrow> (unit, 'w) prog"
  OnIO :: "IOEvent \<Rightarrow> (unit, 'w) prog"

definition HookFuncs ::
  "(DialEvent \<Rightarrow> (unit, 'w) prog) option \<Rightarrow> (IOEvent \<Rightarrow> (unit, 'w) prog) option \<Rightarrow> 'w hook" where
  "HookFuncs OnDialFunc OnIOFunc = \<lparr>
     OnDial = (\<lambda>event. case OnDialFunc of Some f \<Rightarrow> f event | None \<Rightarrow> pret ()),
     OnIO = (\<lambda>event. case OnIOFunc of Some f \<Rightarrow> f event | None \<Rightarrow> pret ())\<rparr>"

definition AppendHooks :: "'w hook option list \<Rightarrow> 'w hook option list \<Rightarrow> 'w hook option list" where
  "AppendHooks items hooks = items @ filter (\<lambda>h. h \<noteq> None) hooks"

definition emitDialSafe :: "'w hook option \<Rightarrow> DialEvent \<Rightarrow> (unit, 'w) prog" where
  "emitDialSafe h event = (case h of None \<Rightarrow> pret () | Some k \<Rightarrow> precover () (OnDial k event))"

definition emitIOSafe :: "'w hook option \<Rightarrow> IOEvent \<Rightarrow> (unit, 'w) prog" where
  "emitIOSafe h event = (case h of None \<Rightarrow> pret () | Some k \<Rightarrow> precover () (OnIO k event))"

fun emitHooks :: "'w hook option list \<Rightarrow> 'e \<Rightarrow> ('w hook option \<Rightarrow> 'e \<Rightarrow> (unit, 'w) prog) \<Rightarrow> (unit, 'w) prog" where
  "emitHooks [] event emit = pret ()"
| "emitHooks (h # hooks) event emit = pbind (emit h event) (\<lambda>_. emitHooks hooks event emit)"

definition EmitDial :: "'w hook option list \<Rightarrow> DialEvent \<Rightarrow> (unit, 'w) prog" where
  "EmitDial hooks event = emitHooks hooks event emitDialSafe"

definition EmitIO :: "'w hook option list \<Rightarrow> IOEvent \<Rightarrow> (unit, 'w) prog" where
  "EmitIO hooks event = emitHooks hooks event emitIOSafe"

section \<open>The logging hook\<close>

record loggingHookConfig =
  includeAddress :: bool

definition WithLoggingHookAddress :: "bool \<Rightarrow> loggingHookConfig \<Rightarrow> loggingHookConfig" where
  "WithLoggingHookAddress enabled cfg = cfg\<lparr>includeAddress := enabled\<rparr>"

record 'w logger =
  LogError :: "string \<Rightarrow> attrs \<Rightarrow> (unit, 'w) prog"
  LogDebug :: "string \<Rightarrow> attrs \<Rightarrow> (unit, 'w) prog"

text \<open>The tail the two methods share: the address, then the error and its kind.\<close>

definition log_event_attrs ::
  "loggingHookConfig \<Rightarrow> 'w logger \<Rightarrow> string \<Rightarrow> attrs \<Rightarrow> string \<Rightarrow> go_error option \<Rightarrow> (unit, 'w) prog" where
  "log_event_attrs cfg logger msg attrs addr err =
     (let attrs = (if includeAddress cfg \<and> addr \<noteq> [] then attrs @ [(''addr'', AStr addr)] else attrs) in
      case err of
        None \<Rightarrow> LogDebug logger msg attrs
      | Some e \<Rightarrow> pbind (pres (KindOf err)) (\<lambda>kind.
          LogError logger msg (attrs @ [(''error'', AErr e), (''error_kind'', AStr kind)])))"

definition loggingOnDial ::
  "('w logger option \<times> loggingHookConfig) option \<Rightarrow> DialEvent \<Rightarrow> (unit, 'w) prog" where
  "loggingOnDial h event =
     (case h of
        Some (Some logger, cfg) \<Rightarrow>
          log_event_attrs cfg logger ''clientx dial''
            [(''protocol'', AStr (dialProtocol event)), (''op'', AStr (dialOp event)),
             (''network'', AStr (dialNetwork event)), (''duration'', ADur (dialDuration event))]
            (dialAddr event) (dialErr event)
      | _ \<Rightarrow> pret ())"

definition loggingOnIO ::
  "('w logger option \<times> loggingHookConfig) option \<Rightarrow> IOEvent \<Rightarrow> (unit, 'w) prog" where
  "loggingOnIO h event =
     (case h of
        Some (Some logger, cfg) \<Rightarrow>
          log_event_attrs cfg logger ''clientx io''
            [(''protocol'', AStr (ioProtocol event)), (''op'', AStr (ioOp event)),
             (''bytes'', AInt (ioBytes event)), (''duration'', ADur (ioDuration event))]
            (ioAddr event) (ioErr event)
      | _ \<Rightarrow> pret ())"

text \<open>\<open>default_logger\<close> is \<open>slog.Default()\<close>.\<close>

definition NewLoggingHook ::
  "(loggingHookConfig \<Rightarrow> loggingHookConfig options \<Rightarrow> loggingHookConfig) \<Rightarrow> 'w logger option \<Rightarrow>
   'w logger option \<Rightarrow> loggingHookConfig options \<Rightarrow> 'w hook" where
  "NewLoggingHook ap default_logger logger opts =
     (let cfg = Apply ap \<lparr>includeAddress = True\<rparr> opts;
          logger = (if logger = None then default_logger else logger);
          h = Some (logger, cfg)
      in \<lparr>OnDial = loggingOnDial h, OnIO = loggingOnIO h\<rparr>)"

section \<open>The observability hook\<close>

record observabilityHookConfig =
  metricPrefix :: string
  includeAddressAttrs :: bool

definition WithHookMetricPrefix :: "string \<Rightarrow> observabilityHookConfig \<Rightarrow> observabilityHookConfig" where
  "WithHookMetricPrefix prefix cfg =
     (let clean = trim_space prefix in
      if clean \<noteq> [] then cfg\<lparr>metricPrefix := clean\<rparr> else cfg)"

definition WithHookAddressAttribute :: "bool \<Rightarrow> observabilityHookConfig \<Rightarrow> observabilityHookConfig" where
  "WithHookAddressAttribute enabled cfg = cfg\<lparr>includeAddressAttrs := enabled\<rparr>"

record metric_spec =
  spec_name :: string
  spec_description :: string
  spec_unit :: "string option"
  spec_labels :: "string list"

text \<open>A counter is its \<open>Add\<close>, a histogram its \<open>Record\<close>, with the background context.\<close>

record 'w observability =
  obs_counter :: "metric_spec \<Rightarrow> int \<Rightarrow> attrs \<Rightarrow> (unit, 'w) prog"
  obs_histogram :: "metric_spec \<Rightarrow> int \<Rightarrow> attrs \<Rightarrow> (unit, 'w) prog"

definition dialTotalSpec :: "string \<Rightarrow> metric_spec" where
  "dialTotalSpec prefix = \<lparr>spec_name = prefix @ ''_dial_total'',
     spec_description = ''Total number of dial operations.'', spec_unit = None,
     spec_labels = [''protocol'', ''op'', ''network'', ''result'', ''addr'', ''error_kind'']\<rparr>"

definition dialDurationSpec :: "string \<Rightarrow> metric_spec" where
  "dialDurationSpec prefix = \<lparr>spec_name = prefix @ ''_dial_duration_ms'',
     spec_description = ''Duration of dial operations in milliseconds.'', spec_unit = Some ''ms'',
     spec_labels = [''protocol'', ''op'', ''network'', ''result'', ''addr'', ''error_kind'']\<rparr>"

definition ioTotalSpec :: "string \<Rightarrow> metric_spec" where
  "ioTotalSpec prefix = \<lparr>spec_name = prefix @ ''_io_total'',
     spec_description = ''Total number of client I/O operations.'', spec_unit = None,
     spec_labels = [''protocol'', ''op'', ''result'', ''addr'', ''error_kind'']\<rparr>"

definition ioDurationSpec :: "string \<Rightarrow> metric_spec" where
  "ioDurationSpec prefix = \<lparr>spec_name = prefix @ ''_io_duration_ms'',
     spec_description = ''Duration of client I/O operations in milliseconds.'', spec_unit = Some ''ms'',
     spec_labels = [''protocol'', ''op'', ''result'', ''addr'', ''error_kind'']\<rparr>"

definition ioBytesTotalSpec :: "string \<Rightarrow> metric_spec" where
  "ioBytesTotalSpec prefix = \<lparr>spec_name = prefix @ ''_io_bytes_total'',
     spec_description = ''Total number of bytes transferred through client I/O.'', spec_unit = Some ''By'',
     spec_labels = [''protocol'', ''op'', ''result'', ''addr'', ''error_kind'']\<rparr>"

definition resultOf :: "go_error option \<Rightarrow> string" where
  "resultOf err = (if err = None then ''ok'' else ''error'')"

text \<open>\<open>Duration.Milliseconds\<close> rounds towards zero.\<close>

definition milliseconds :: "duration \<Rightarrow> int" where
  "milliseconds d = (if 0 \<le> d then d div 1000000 else - ((- d) div 1000000))"

text \<open>The attributes of an event; finding the kind of its error may panic.\<close>

definition event_attrs ::
  "observabilityHookConfig \<Rightarrow> attrs \<Rightarrow> string \<Rightarrow> go_error option \<Rightarrow> attrs res" where
  "event_attrs cfg attrs addr err =
     (let attrs = attrs @ [(''result'', AStr (resultOf err))];
          attrs = (if includeAddressAttrs cfg \<and> addr \<noteq> [] then attrs @ [(''addr'', AStr addr)] else attrs)
      in if err = None then Ret attrs
         else rbind (KindOf err) (\<lambda>kind. Ret (attrs @ [(''error_kind'', AStr kind)])))"

definition dial_attrs :: "observabilityHookConfig \<Rightarrow> DialEvent \<Rightarrow> attrs res" where
  "dial_attrs cfg event =
     event_attrs cfg
       [(''protocol'', AStr (dialProtocol event)), (''op'', AStr (dialOp event)),
        (''network'', AStr (dialNetwork event))] (dialAddr event) (dialErr event)"

definition io_attrs :: "observabilityHookConfig \<Rightarrow> IOEvent \<Rightarrow> attrs res" where
  "io_attrs cfg event =
     event_attrs cfg
       [(''protocol'', AStr (ioProtocol event)), (''op'', AStr (ioOp event))] (ioAddr event) (ioErr event)"

definition observabilityOnDial ::
  "'w observability \<Rightarrow> observabilityHookConfig \<Rightarrow> DialEvent \<Rightarrow> (unit, 'w) prog" where
  "observabilityOnDial obs cfg event =
     pbind (pres (dial_attrs cfg event)) (\<lambda>attrs.
     pbind (obs_counter obs (dialTotalSpec (metricPrefix cfg)) 1 attrs) (\<lambda>_.
     obs_histogram obs (dialDurationSpec (metricPrefix cfg)) (milliseconds (dialDuration event)) attrs))"

definition observabilityOnIO ::
  "'w observability \<Rightarrow> observabilityHookConfig \<Rightarrow> IOEvent \<Rightarrow> (unit, 'w) prog" where
  "observabilityOnIO obs cfg event =
     pbind (pres (io_attrs cfg event)) (\<lambda>attrs.
     pbind (obs_counter obs (ioTotalSpec (metricPrefix cfg)) 1 attrs) (\<lambda>_.
     pbind (obs_histogram obs (ioDurationSpec (metricPrefix cfg)) (milliseconds (ioDuration event)) attrs) (\<lambda>_.
     if 0 < ioBytes event then obs_counter obs (ioBytesTotalSpec (metricPrefix cfg)) (ioBytes event) attrs
     else pret ())))"

text \<open>\<open>obs_normalize\<close> is \<open>observabilityx.Normalize\<close> with its nil second argument.\<close>

definition NewObservabilityHook ::
  "(observabilityHookConfig \<Rightarrow> observabilityHookConfig options \<Rightarrow> observabilityHookConfig) \<Rightarrow>
   ('w observability option \<Rightarrow> 'w observability) \<Rightarrow> 'w observability option \<Rightarrow>
   observabilityHookConfig options \<Rightarrow> 'w hook" where
  "NewObservabilityHook ap obs_normalize obs opts =
     (let cfg = Apply ap \<lparr>metricPrefix = ''clientx'', includeAddressAttrs = False\<rparr> opts;
          normalized = obs_normalize obs
      in \<lparr>OnDial = observabilityOnDial normalized cfg, OnIO = observabilityOnIO normalized cfg\<rparr>)"

section \<open>Isolation\<close>

lemma calm_emit [simp, intro]:
  "calm (emitDialSafe h event)" "calm (emitIOSafe h io)"
  by (simp_all add: emitDialSafe_def emitIOSafe_def split: option.split)

lemma calm_emitHooks: "(\<And>h. calm (emit h event)) \<Longrightarrow> calm (emitHooks hooks event emit)"
  by (induction hooks) (auto intro!: calm_pbind)

lemma calm_EmitDial [simp, intro]: "calm (EmitDial hooks event)"
  by (simp add: EmitDial_def calm_emitHooks)

lemma calm_EmitIO [simp, intro]: "calm (EmitIO hooks event)"
  by (simp add: EmitIO_def calm_emitHooks)

text \<open>\<open>state_after m w\<close>: the world a call leaves, by a panic too.\<close>

definition state_after :: "('a, 'w) prog \<Rightarrow> 'w \<Rightarrow> 'w" where
  "state_after m w = (case m w of None \<Rightarrow> w | Some (r, w') \<Rightarrow> w')"

lemma precover_state_after:
  "returns m \<Longrightarrow> precover () m w = Some (Ret (), state_after m w)"
  using returnsD [of m w] by (auto simp: precover_apply state_after_def split: res.split)

lemma emitHooks_runs:
  assumes "\<And>k w. Some k \<in> set hooks \<Longrightarrow> emit (Some k) event w = Some (Ret (), state_after (f k) w)"
    and "\<And>w. emit None event w = Some (Ret (), w)"
  shows "emitHooks hooks event emit w =
    Some (Ret (), fold (\<lambda>k. state_after (f k)) (map the (filter (\<lambda>h. h \<noteq> None) hooks)) w)"
  using assms
proof (induction hooks arbitrary: w)
  case (Cons h hooks)
  then show ?case by (cases h) (simp_all add: pbind_apply)
qed simp

lemma EmitDial_runs:
  assumes "\<And>k. Some k \<in> set hooks \<Longrightarrow> returns (OnDial k event)"
  shows "EmitDial hooks event w =
    Some (Ret (), fold (\<lambda>k. state_after (OnDial k event)) (map the (filter (\<lambda>h. h \<noteq> None) hooks)) w)"
  unfolding EmitDial_def
  by (rule emitHooks_runs) (simp_all add: emitDialSafe_def precover_state_after assms)

lemma EmitIO_runs_each:
  assumes "\<And>k. Some k \<in> set hooks \<Longrightarrow> returns (OnIO k event)"
  shows "EmitIO hooks event w =
    Some (Ret (), fold (\<lambda>k. state_after (OnIO k event)) (map the (filter (\<lambda>h. h \<noteq> None) hooks)) w)"
  unfolding EmitIO_def
  by (rule emitHooks_runs) (simp_all add: emitIOSafe_def precover_state_after assms)

text \<open>
  C40: every hook hears of every event: nil hooks are skipped, the others run once each in the order
  of the list, one that panics keeps the effects it had and stops none of the later ones, and the
  panic does not reach the client.
\<close>

theorem EmitIO_runs:
  assumes "\<And>k. Some k \<in> set hooks \<Longrightarrow> returns (OnIO k event)"
  shows "EmitIO hooks event w =
    Some (Ret (), fold (\<lambda>k. state_after (OnIO k event)) (map the (filter (\<lambda>h. h \<noteq> None) hooks)) w)"
  by (rule EmitIO_runs_each [OF assms])

definition sample_io :: IOEvent where
  "sample_io = \<lparr>ioProtocol = ''tcp'', ioOp = ''read'', ioAddr = ''h:1'', ioBytes = 4, ioDuration = 1500000,
     ioErr = None\<rparr>"

theorem EmitIO_runs_witness:
  "EmitIO [Some (HookFuncs None (Some (\<lambda>e. pbind (pmodify (\<lambda>n. n + 1)) (\<lambda>_. ppanic)))), None,
      Some (HookFuncs None (Some (\<lambda>e. pmodify (\<lambda>n. 10 * n))))] sample_io (4 :: nat) = Some (Ret (), 50)"
proof -
  let ?hs = "[Some (HookFuncs None (Some (\<lambda>e. pbind (pmodify (\<lambda>n. n + 1)) (\<lambda>_. ppanic)))), None,
      Some (HookFuncs None (Some (\<lambda>e. pmodify (\<lambda>n. 10 * n))))] :: nat hook option list"
  have "returns (OnIO k sample_io)" if "Some k \<in> set ?hs" for k
    using that by (auto simp: HookFuncs_def intro!: returns_pbind)
  from EmitIO_runs [of ?hs sample_io 4, OF this] show ?thesis
    by (simp add: HookFuncs_def state_after_def pbind_apply)
qed

section \<open>Metrics\<close>

lemma event_attrs_keys:
  "event_attrs cfg as addr err = Ret bs \<Longrightarrow>
     \<exists>rest. bs = as @ (''result'', AStr (resultOf err)) # rest \<and>
       (map fst rest = [] \<or> map fst rest = [''addr''] \<or> map fst rest = [''error_kind''] \<or>
        map fst rest = [''addr'', ''error_kind''])"
  by (cases "KindOf err") (auto simp: event_attrs_def Let_def split: if_splits)

text \<open>
  The attributes of a metric are always among the labels it was declared with, without
  repetition, for dials and for transfers.
\<close>

theorem metric_labels:
  "(case dial_attrs cfg dial of
      Ret bs \<Rightarrow> distinct (map fst bs) \<and> set (map fst bs) \<subseteq> set (spec_labels (dialTotalSpec p)) \<and>
               set (map fst bs) \<subseteq> set (spec_labels (dialDurationSpec p))
    | Panic \<Rightarrow> KindOf (dialErr dial) = Panic) \<and>
   (case io_attrs cfg io of
      Ret bs \<Rightarrow> distinct (map fst bs) \<and> set (map fst bs) \<subseteq> set (spec_labels (ioTotalSpec p)) \<and>
               set (map fst bs) \<subseteq> set (spec_labels (ioDurationSpec p)) \<and>
               set (map fst bs) \<subseteq> set (spec_labels (ioBytesTotalSpec p))
    | Panic \<Rightarrow> KindOf (ioErr io) = Panic)"
proof
  show "case dial_attrs cfg dial of
      Ret bs \<Rightarrow> distinct (map fst bs) \<and> set (map fst bs) \<subseteq> set (spec_labels (dialTotalSpec p)) \<and>
               set (map fst bs) \<subseteq> set (spec_labels (dialDurationSpec p))
    | Panic \<Rightarrow> KindOf (dialErr dial) = Panic"
  proof (cases "dial_attrs cfg dial")
    case (Ret bs)
    from event_attrs_keys [OF Ret [unfolded dial_attrs_def]] show ?thesis
      using Ret by (auto simp: dialTotalSpec_def dialDurationSpec_def)
  next
    case Panic
    then show ?thesis
      by (cases "KindOf (dialErr dial)") (auto simp: dial_attrs_def event_attrs_def Let_def split: if_splits)
  qed
next
  show "case io_attrs cfg io of
      Ret bs \<Rightarrow> distinct (map fst bs) \<and> set (map fst bs) \<subseteq> set (spec_labels (ioTotalSpec p)) \<and>
               set (map fst bs) \<subseteq> set (spec_labels (ioDurationSpec p)) \<and>
               set (map fst bs) \<subseteq> set (spec_labels (ioBytesTotalSpec p))
    | Panic \<Rightarrow> KindOf (ioErr io) = Panic"
  proof (cases "io_attrs cfg io")
    case (Ret bs)
    from event_attrs_keys [OF Ret [unfolded io_attrs_def]] show ?thesis
      using Ret by (auto simp: ioTotalSpec_def ioDurationSpec_def ioBytesTotalSpec_def)
  next
    case Panic
    then show ?thesis
      by (cases "KindOf (ioErr io)") (auto simp: io_attrs_def event_attrs_def Let_def split: if_splits)
  qed
qed

text \<open>A recorder of what is measured: the name of the metric, the amount and the attributes.\<close>

definition recorder :: "(string \<times> int \<times> attrs) list observability" where
  "recorder = \<lparr>
     obs_counter = (\<lambda>spec n as. pmodify (\<lambda>log. log @ [(spec_name spec, n, as)])),
     obs_histogram = (\<lambda>spec n as. pmodify (\<lambda>log. log @ [(spec_name spec, n, as)]))\<rparr>"

text \<open>
  What a transfer adds to the metrics, through the hook as a client emits it: one to the count,
  its duration in whole milliseconds, and its bytes when there are any; and, when finding the kind
  of the error panics, nothing at all, the event being lost without a trace.
\<close>

theorem EmitIO_metrics:
  assumes "oapply_ok ap"
  shows "EmitIO [Some (NewObservabilityHook ap (\<lambda>_. recorder) obs opts)] event log = Some (Ret (),
    (let cfg = apply_all \<lparr>metricPrefix = ''clientx'', includeAddressAttrs = False\<rparr> opts in
     case io_attrs cfg event of
       Panic \<Rightarrow> log
     | Ret as \<Rightarrow> log @ [(metricPrefix cfg @ ''_io_total'', 1, as),
                      (metricPrefix cfg @ ''_io_duration_ms'', milliseconds (ioDuration event), as)] @
                (if 0 < ioBytes event then [(metricPrefix cfg @ ''_io_bytes_total'', ioBytes event, as)] else [])))"
  using assms
  by (simp add: EmitIO_def emitIOSafe_def NewObservabilityHook_def observabilityOnIO_def Apply_eq Let_def
      recorder_def ioTotalSpec_def ioDurationSpec_def ioBytesTotalSpec_def pbind_apply precover_apply
      split: res.split)

theorem EmitIO_metrics_witness:
  "EmitIO [Some (NewObservabilityHook apply_all (\<lambda>_. recorder) None [Some (WithHookMetricPrefix '' x '')])]
     sample_io [] = Some (Ret (),
       (let as = [(''protocol'', AStr ''tcp''), (''op'', AStr ''read''), (''result'', AStr ''ok'')] in
        [(''x_io_total'', 1, as), (''x_io_duration_ms'', 1, as), (''x_io_bytes_total'', 4, as)]))"
  using EmitIO_metrics [OF apply_all_ok, of None "[Some (WithHookMetricPrefix '' x '')]" sample_io "[]"]
  by (simp add: sample_io_def io_attrs_def event_attrs_def WithHookMetricPrefix_def trim_space_def
      trim_right_def is_space_def resultOf_def milliseconds_def Let_def)

section \<open>Logs\<close>

text \<open>A logger that keeps what it is given, the level first.\<close>

definition log_keeper :: "(bool \<times> string \<times> attrs) list logger" where
  "log_keeper = \<lparr>
     LogError = (\<lambda>msg as. pmodify (\<lambda>log. log @ [(True, msg, as)])),
     LogDebug = (\<lambda>msg as. pmodify (\<lambda>log. log @ [(False, msg, as)]))\<rparr>"

text \<open>
  A dial that failed is logged as an error with the kind it was classified under, one that
  succeeded as debug output; the address is there exactly when it is known and not switched off.
\<close>

theorem EmitDial_logs:
  assumes "oapply_ok ap" and "dialErr event = WrapError L p op addr err"
    and "errors_as is_client_error err = None"
  shows "\<exists>as. EmitDial [Some (NewLoggingHook ap None (Some log_keeper) opts)] event log =
      Some (Ret (), log @ [(err \<noteq> None, ''clientx dial'', as)]) \<and>
    map_of as ''error_kind'' =
      (if err = None then None else Some (AStr (classifyErrorKind L err))) \<and>
    map_of as ''addr'' =
      (if includeAddress (apply_all \<lparr>includeAddress = True\<rparr> opts) \<and> dialAddr event \<noteq> []
       then Some (AStr (dialAddr event)) else None)"
proof (cases err)
  case None
  then show ?thesis using assms
    by (simp add: EmitDial_def emitDialSafe_def NewLoggingHook_def loggingOnDial_def log_event_attrs_def
        Apply_eq Let_def log_keeper_def pbind_apply precover_apply WrapError_def)
next
  case (Some e)
  then obtain x where x: "WrapError L p op addr err = Some x" by (cases "WrapError L p op addr err")
      (simp_all add: WrapError_def)
  then have "KindOf (Some x) = Ret (classifyErrorKind L err)"
    using assms(3) Some KindOf_wrapped [of L p op addr "[]" e] by (simp add: WrapError_def)
  then show ?thesis using assms Some x
    by (simp add: EmitDial_def emitDialSafe_def NewLoggingHook_def loggingOnDial_def log_event_attrs_def
        Apply_eq Let_def log_keeper_def pbind_apply precover_apply)
qed

definition sample_dial :: DialEvent where
  "sample_dial = \<lparr>dialProtocol = ''tcp'', dialOp = ''dial'', dialNetwork = ''tcp'', dialAddr = ''h:1'',
     dialDuration = 0, dialErr = WrapError plain_lib ''tcp'' ''dial'' ''h:1'' (Some CtxDeadline)\<rparr>"

theorem EmitDial_logs_witness:
  "\<exists>as. EmitDial [Some (NewLoggingHook apply_all None (Some log_keeper) [])] sample_dial [] =
      Some (Ret (), [(True, ''clientx dial'', as)]) \<and>
    map_of as ''error_kind'' = Some (AStr (classifyErrorKind plain_lib (Some CtxDeadline))) \<and>
    map_of as ''addr'' = Some (AStr ''h:1'')"
proof -
  have d: "dialErr sample_dial = WrapError plain_lib ''tcp'' ''dial'' ''h:1'' (Some CtxDeadline)"
    by (simp add: sample_dial_def)
  have e: "errors_as is_client_error (Some CtxDeadline) = None" by (simp add: errors_as_def)
  show ?thesis using EmitDial_logs [OF apply_all_ok d e, of "[]" "[]"]
    by (simp add: sample_dial_def)
qed

end
