(* ===== verification/Framer.thy ===== *)
theory Framer
  imports Codec
begin

text \<open>
  \<^verbatim>\<open>codec/framer.go\<close>: frames on a byte stream, each preceded by its length in four bytes, the most
  significant first.

  A reader is given the length of the buffer and answers the bytes it put there; a writer answers
  how many bytes it took. \<open>read_full\<close> is \<open>io.ReadFull\<close> of the standard library. Both loops are
  \<^theory_text>\<open>partial_function (option)\<close>: they end only if the reader and the writer make progress.
\<close>

unbundle bit_operations_syntax

section \<open>Streams\<close>

type_synonym 'w reader = "nat \<Rightarrow> (byte list \<times> go_error option, 'w) prog"

type_synonym 'w writer = "byte list \<Rightarrow> (int \<times> go_error option, 'w) prog"

partial_function (option) read_loop ::
  "'w reader \<Rightarrow> nat \<Rightarrow> byte list \<Rightarrow> 'w \<Rightarrow> ((byte list \<times> go_error option) res \<times> 'w) option" where
  "read_loop r need got w =
     (if need \<le> length got then Some (Ret (got, None), w)
      else case r (need - length got) w of
          None \<Rightarrow> None
        | Some (Panic, w') \<Rightarrow> Some (Panic, w')
        | Some (Ret (data, err), w') \<Rightarrow>
            if err = None then read_loop r need (got @ data) w'
            else Some (Ret (got @ data,
              if need \<le> length (got @ data) then None
              else if got @ data \<noteq> [] \<and> err = Some ErrEOF then Some ErrUnexpectedEOF
              else err), w'))"

definition read_full :: "'w reader \<Rightarrow> nat \<Rightarrow> (byte list \<times> go_error option, 'w) prog" where
  "read_full r n = read_loop r n []"

declare read_loop.simps [simp del]

section \<open>The length prefix\<close>

definition be32_put :: "32 word \<Rightarrow> byte list" where
  "be32_put v = [ucast (drop_bit 24 v), ucast (drop_bit 16 v), ucast (drop_bit 8 v), ucast v]"

definition be32_get :: "byte list \<Rightarrow> 32 word" where
  "be32_get b = push_bit 24 (ucast (b ! 0)) OR push_bit 16 (ucast (b ! 1)) OR
                push_bit 8 (ucast (b ! 2)) OR ucast (b ! 3)"

lemma length_be32_put [simp]: "length (be32_put v) = 4"
  by (simp add: be32_put_def)

lemma be32_get_put [simp]: "be32_get (be32_put v) = v"
proof (rule bit_word_eqI)
  fix n
  assume n: "n < LENGTH(32)"
  have get: "bit (be32_get (be32_put v)) n \<longleftrightarrow>
      (24 \<le> n \<and> n < 32 \<and> bit v n) \<or> (16 \<le> n \<and> n < 24 \<and> bit v n) \<or>
      (8 \<le> n \<and> n < 16 \<and> bit v n) \<or> (n < 8 \<and> bit v n)"
    using n unfolding be32_get_def be32_put_def
    by (auto simp: bit_simps numeral_2_eq_2 numeral_3_eq_3)
  show "bit (be32_get (be32_put v)) n = bit v n"
    unfolding get using n by auto
qed

section \<open>The framer\<close>

record LengthPrefixedFramer =
  MaxFrameBytes :: "32 word"

definition DefaultMaxFrameBytes :: "32 word" where
  "DefaultMaxFrameBytes = 4 * 1024 * 1024"

definition NewLengthPrefixed :: "32 word \<Rightarrow> LengthPrefixedFramer" where
  "NewLengthPrefixed maxFrameBytes =
     \<lparr>MaxFrameBytes = (if maxFrameBytes = 0 then DefaultMaxFrameBytes else maxFrameBytes)\<rparr>"

record 'w framer =
  ReadFrame :: "'w reader option \<Rightarrow> (byte list \<times> go_error option, 'w) prog"
  WriteFrame :: "'w writer option \<Rightarrow> byte list \<Rightarrow> (go_error option, 'w) prog"

definition max_attr :: "LengthPrefixedFramer \<Rightarrow> attrs" where
  "max_attr f = [(''max_frame_bytes'', AInt (uint (MaxFrameBytes f)))]"

definition too_large :: "nat \<Rightarrow> 32 word \<Rightarrow> string" where
  "too_large n m = ''frame too large: '' @ show_nat n @ '' > '' @ show_nat (unat m)"

definition readFrame ::
  "lib \<Rightarrow> LengthPrefixedFramer \<Rightarrow> 'w reader option \<Rightarrow> (byte list \<times> go_error option, 'w) prog" where
  "readFrame L f r =
     (case r of
        None \<Rightarrow> pret ([], Some (oops_new L ''clientx/codec'' ((''op'', AStr ''read_frame'') # max_attr f)
                  ''reader is nil''))
      | Some rd \<Rightarrow>
          pbind (read_full rd 4) (\<lambda>(header, err).
            if err \<noteq> None
            then pret ([], oops_wrapf L ''clientx/codec''
                   ([(''op'', AStr ''read_frame''), (''stage'', AStr ''header'')] @ max_attr f)
                   err ''read frame header'')
            else
              (let size = be32_get header in
               if MaxFrameBytes f < size
               then pret ([], Some (oops_errorf L ''clientx/codec''
                      ([(''op'', AStr ''read_frame''), (''frame_size'', AInt (uint size))] @ max_attr f)
                      (too_large (unat size) (MaxFrameBytes f))))
               else if size = 0 then pret ([], None)
               else pbind (read_full rd (unat size)) (\<lambda>(frame, err).
                 if err \<noteq> None
                 then pret ([], oops_wrapf L ''clientx/codec''
                        ([(''op'', AStr ''read_frame''), (''stage'', AStr ''body''),
                          (''frame_size'', AInt (uint size))] @ max_attr f)
                        err ''read frame body'')
                 else pret (frame, None)))))"

partial_function (option) writeFull ::
  "lib \<Rightarrow> 'w writer \<Rightarrow> byte list \<Rightarrow> 'w \<Rightarrow> (go_error option res \<times> 'w) option" where
  "writeFull L wr data w =
     (if data = [] then Some (Ret None, w)
      else case wr data w of
          None \<Rightarrow> None
        | Some (Panic, w') \<Rightarrow> Some (Panic, w')
        | Some (Ret (n, err), w') \<Rightarrow>
            if err \<noteq> None
            then Some (Ret (oops_wrapf L ''clientx/codec''
                   [(''op'', AStr ''write_full''), (''remaining_bytes'', AInt (int (length data)))]
                   err ''write frame bytes''), w')
            else if n < 0 \<or> int (length data) < n then Some (Panic, w')
            else writeFull L wr (drop (nat n) data) w')"

declare writeFull.simps [simp del]

definition writeFrame ::
  "lib \<Rightarrow> LengthPrefixedFramer \<Rightarrow> 'w writer option \<Rightarrow> byte list \<Rightarrow> (go_error option, 'w) prog" where
  "writeFrame L f w frame =
     (case w of
        None \<Rightarrow> pret (Some (oops_new L ''clientx/codec'' ((''op'', AStr ''write_frame'') # max_attr f)
                  ''writer is nil''))
      | Some wr \<Rightarrow>
          (let frameSize = length frame;
               as = (\<lambda>stage. [(''op'', AStr ''write_frame'')] @ stage @
                             [(''frame_size'', AInt (int frameSize))] @ max_attr f)
           in if unat (MaxFrameBytes f) < frameSize
              then pret (Some (oops_errorf L ''clientx/codec'' (as []) (too_large frameSize (MaxFrameBytes f))))
              else pbind (writeFull L wr (be32_put (of_nat frameSize))) (\<lambda>err.
                if err \<noteq> None
                then pret (oops_wrapf L ''clientx/codec'' (as [(''stage'', AStr ''header'')]) err
                       ''write frame header'')
                else pbind (writeFull L wr frame) (\<lambda>err.
                  if err \<noteq> None
                  then pret (oops_wrapf L ''clientx/codec'' (as [(''stage'', AStr ''body'')]) err
                         ''write frame body'')
                  else pret None))))"

definition length_prefixed :: "lib \<Rightarrow> LengthPrefixedFramer \<Rightarrow> 'w framer" where
  "length_prefixed L f = \<lparr>ReadFrame = readFrame L f, WriteFrame = writeFrame L f\<rparr>"

section \<open>What a stream promises\<close>

lemma chunk_split:
  assumes "k \<le> m"
  shows "take k xs @ take (m - length (take k xs)) (drop k xs) = take m xs"
    and "drop (m - length (take k xs)) (drop k xs) = drop m xs"
proof -
  have "take m xs = take k xs @ take (m - k) (drop k xs)" using assms by (metis le_add_diff_inverse take_add)
  then show "take k xs @ take (m - length (take k xs)) (drop k xs) = take m xs"
    by (cases "k \<le> length xs") (simp_all add: min_def)
  show "drop (m - length (take k xs)) (drop k xs) = drop m xs"
    using assms by (cases "k \<le> length xs") (simp_all add: min_def)
qed

text \<open>
  A source of bytes: \<open>src\<close> is what is still to come. A read takes a non-empty part of it that fits
  the buffer, however small, and answers \<open>eof\<close> once nothing is left.
\<close>

locale byte_source =
  fixes rd :: "'w reader" and src :: "'w \<Rightarrow> byte list" and eof :: go_error
  assumes read_some: "0 < n \<Longrightarrow> src w \<noteq> [] \<Longrightarrow>
      \<exists>k w'. 0 < k \<and> k \<le> n \<and> rd n w = Some (Ret (take k (src w), None), w') \<and> src w' = drop k (src w)"
    and read_end: "0 < n \<Longrightarrow> src w = [] \<Longrightarrow> \<exists>w'. rd n w = Some (Ret ([], Some eof), w') \<and> src w' = []"
begin

definition short_error :: "byte list \<Rightarrow> go_error" where
  "short_error got = (if got \<noteq> [] \<and> eof = ErrEOF then ErrUnexpectedEOF else eof)"

lemma read_loop_spec:
  assumes "length got < need"
  shows "\<exists>w'. src w' = drop (need - length got) (src w) \<and>
    read_loop rd need got w =
      Some (Ret (got @ take (need - length got) (src w),
                 if need \<le> length got + length (src w) then None else Some (short_error (got @ src w))), w')"
  using assms
proof (induction "need - length got" arbitrary: got w rule: less_induct)
  case less
  show ?case
  proof (cases "src w = []")
    case True
    then obtain w' where "rd (need - length got) w = Some (Ret ([], Some eof), w')" "src w' = []"
      using read_end [of "need - length got" w] less.prems by auto
    then show ?thesis using True less.prems
      by (auto simp: read_loop.simps [of rd need got w] short_error_def)
  next
    case False
    then obtain k w1 where k: "0 < k" "k \<le> need - length got"
      and run: "rd (need - length got) w = Some (Ret (take k (src w), None), w1)" "src w1 = drop k (src w)"
      using read_some [of "need - length got" w] less.prems by auto
    let ?got = "got @ take k (src w)"
    have step: "read_loop rd need got w = read_loop rd need ?got w1"
      using run(1) less.prems by (simp add: read_loop.simps [of rd need got w])
    show ?thesis
    proof (cases "need \<le> length ?got")
      case True
      then have "k = need - length got" "need - length got \<le> length (src w)" using k(2) by auto
      moreover have "read_loop rd need ?got w1 = Some (Ret (?got, None), w1)"
        using True by (simp add: read_loop.simps [of rd need ?got w1])
      ultimately show ?thesis using step run(2) less.prems
        by (intro exI [of _ w1]) simp
    next
      case more: False
      have "need - length ?got < need - length got" using k(1) False less.prems by (cases "src w") auto
      from less.hyps [OF this, of w1] more obtain w' where
        "src w' = drop (need - length ?got) (src w1)"
        "read_loop rd need ?got w1 = Some (Ret (?got @ take (need - length ?got) (src w1),
           if need \<le> length ?got + length (src w1) then None else Some (short_error (?got @ src w1))), w')"
        by auto
      moreover have "?got @ src w1 = got @ src w" using run(2) by simp
      moreover have "?got @ take (need - length ?got) (src w1) = got @ take (need - length got) (src w)"
        and "drop (need - length ?got) (src w1) = drop (need - length got) (src w)"
        using chunk_split [OF k(2), of "src w"] run(2) by (simp_all add: diff_diff_left)
      moreover have "length ?got + length (src w1) = length got + length (src w)"
        using run(2) by (simp add: min_def)
      ultimately show ?thesis using step by auto
    qed
  qed
qed

lemma read_full_spec:
  assumes "0 < n"
  shows "\<exists>w'. src w' = drop n (src w) \<and> read_full rd n w =
    Some (Ret (take n (src w), if n \<le> length (src w) then None else Some (short_error (src w))), w')"
  using read_loop_spec [of "[]" n w] assms
  by (simp only: read_full_def append_Nil list.size diff_zero add_0)

lemma read_full_enough:
  assumes "0 < n" and "src w = xs @ rest" and "length xs = n"
  obtains w' where "read_full rd n w = Some (Ret (xs, None), w')" "src w' = rest"
  using read_full_spec [OF assms(1), of w] assms by auto

lemma read_full_short:
  assumes "0 < n" and "length (src w) < n"
  obtains w' where "read_full rd n w = Some (Ret (src w, Some (short_error (src w))), w')" "src w' = []"
  using read_full_spec [OF assms(1), of w] assms by auto

end

text \<open>
  A sink: \<open>out\<close> is what it has been given. A write takes a non-empty part of its argument, however
  small, and says how much.
\<close>

locale byte_sink =
  fixes wr :: "'w writer" and out :: "'w \<Rightarrow> byte list"
  assumes write_some: "data \<noteq> [] \<Longrightarrow>
      \<exists>k w'. 0 < k \<and> k \<le> length data \<and> wr data w = Some (Ret (int k, None), w') \<and>
             out w' = out w @ take k data"
begin

lemma writeFull_spec: "\<exists>w'. writeFull L wr data w = Some (Ret None, w') \<and> out w' = out w @ data"
proof (induction "length data" arbitrary: data w rule: less_induct)
  case less
  show ?case
  proof (cases "data = []")
    case False
    then obtain k w1 where k: "0 < k" "k \<le> length data"
      and run: "wr data w = Some (Ret (int k, None), w1)" "out w1 = out w @ take k data"
      using write_some by blast
    have "length (drop k data) < length data" using k False by simp
    from less [OF this, of w1] obtain w' where
      "writeFull L wr (drop k data) w1 = Some (Ret None, w')" "out w' = out w1 @ drop k data" by blast
    then show ?thesis using run k False by (simp add: writeFull.simps [of L wr data w])
  qed (simp add: writeFull.simps)
qed

end

section \<open>Frames\<close>

definition frame_bytes :: "byte list \<Rightarrow> byte list" where
  "frame_bytes frame = be32_put (of_nat (length frame)) @ frame"

definition fits :: "LengthPrefixedFramer \<Rightarrow> byte list \<Rightarrow> bool" where
  "fits f frame \<longleftrightarrow> length frame \<le> unat (MaxFrameBytes f)"

lemma fits_length:
  assumes "fits f frame"
  shows "unat (of_nat (length frame) :: 32 word) = length frame"
    and "\<not> MaxFrameBytes f < of_nat (length frame)"
proof -
  have "unat (MaxFrameBytes f) < 2 ^ LENGTH(32)" by (rule unsigned_less)
  then have "length frame < 2 ^ 32" using assms by (simp add: fits_def)
  then show len: "unat (of_nat (length frame) :: 32 word) = length frame"
    by (simp add: unat_of_nat take_bit_eq_mod)
  show "\<not> MaxFrameBytes f < of_nat (length frame)"
    using assms by (simp add: word_less_nat_alt len fits_def)
qed

context byte_sink begin

lemma writeFrame_spec:
  assumes "fits f frame"
  shows "\<exists>w'. writeFrame L f (Some wr) frame w = Some (Ret None, w') \<and> out w' = out w @ frame_bytes frame"
proof -
  obtain w1 where w1: "writeFull L wr (be32_put (of_nat (length frame))) w = Some (Ret None, w1)"
    "out w1 = out w @ be32_put (of_nat (length frame))" using writeFull_spec by blast
  obtain w2 where w2: "writeFull L wr frame w1 = Some (Ret None, w2)" "out w2 = out w1 @ frame"
    using writeFull_spec by blast
  show ?thesis using w1 w2 assms
    by (simp add: writeFrame_def Let_def fits_def frame_bytes_def pbind_apply)
qed

end

context byte_source begin

lemma readFrame_spec:
  assumes "fits f frame" and "src w = frame_bytes frame @ rest"
  shows "\<exists>w'. readFrame L f (Some rd) w = Some (Ret (frame, None), w') \<and> src w' = rest"
proof -
  obtain w1 where w1: "read_full rd 4 w = Some (Ret (be32_put (of_nat (length frame)), None), w1)"
    "src w1 = frame @ rest"
    using read_full_enough [of 4 w "be32_put (of_nat (length frame))" "frame @ rest"] assms(2)
    by (auto simp: frame_bytes_def)
  show ?thesis
  proof (cases "frame = []")
    case True
    then show ?thesis using w1 by (simp add: readFrame_def pbind_apply Let_def)
  next
    case False
    then obtain w2 where "read_full rd (length frame) w1 = Some (Ret (frame, None), w2)" "src w2 = rest"
      using read_full_enough [of "length frame" w1 frame rest] w1(2) by auto
    moreover have "(of_nat (length frame) :: 32 word) \<noteq> 0"
      using fits_length(1) [OF assms(1)] False by (metis length_0_conv unsigned_0)
    ultimately show ?thesis using w1(1) fits_length [OF assms(1)]
      by (simp add: readFrame_def pbind_apply Let_def)
  qed
qed

lemma readFrame_too_large:
  assumes "src w = be32_put v @ rest" and "MaxFrameBytes f < v"
  shows "\<exists>w' as tx. readFrame L f (Some rd) w =
      Some (Ret ([], Some (oops_errorf L ''clientx/codec'' as tx)), w') \<and> src w' = rest"
proof -
  obtain w1 where "read_full rd 4 w = Some (Ret (be32_put v, None), w1)" "src w1 = rest"
    using read_full_enough [of 4 w "be32_put v" rest] assms(1) by auto
  then show ?thesis using assms(2) by (auto simp: readFrame_def pbind_apply Let_def)
qed

lemma readFrame_short_wrapped:
  assumes "oops_ok L" and "frame_bytes frame = src w @ missing" and "missing \<noteq> []" and "fits f frame"
  shows "\<exists>w' e. readFrame L f (Some rd) w = Some (Ret ([], e), w') \<and> src w' = [] \<and>
    (\<exists>d as t. e = oops_wrapf L d as (Some (short_error (if length (src w) < 4 then src w else drop 4 (src w)))) t)"
proof (cases "length (src w) < 4")
  case True
  then obtain w1 where "read_full rd 4 w = Some (Ret (src w, Some (short_error (src w))), w1)" "src w1 = []"
    using read_full_short [of 4 w] by auto
  then show ?thesis using True
    by (auto simp: readFrame_def pbind_apply)
next
  case False
  let ?h = "be32_put (of_nat (length frame))"
  have "take 4 (src w) = take 4 (frame_bytes frame)" using False assms(2) by simp
  then have h: "take 4 (src w) = ?h" by (simp add: frame_bytes_def)
  have "length (src w) + length missing = 4 + length frame"
    using arg_cong [OF assms(2), of length] by (simp add: frame_bytes_def)
  moreover have "0 < length missing" using assms(3) by simp
  ultimately have len: "length (drop 4 (src w)) < length frame" using False unfolding length_drop by linarith
  then have "0 < length frame" by linarith
  obtain w1 where w1: "read_full rd 4 w = Some (Ret (?h, None), w1)" "src w1 = drop 4 (src w)"
    using read_full_enough [of 4 w ?h "drop 4 (src w)"] h False by (metis append_take_drop_id length_be32_put zero_less_numeral)
  obtain w2 where w2: "read_full rd (length frame) w1 =
      Some (Ret (drop 4 (src w), Some (short_error (drop 4 (src w)))), w2)" "src w2 = []"
    using read_full_short [of "length frame" w1] len w1(2) \<open>0 < length frame\<close> by metis
  have "(of_nat (length frame) :: 32 word) \<noteq> 0"
    using fits_length(1) [OF assms(4)] len by (metis gr_implies_not0 unsigned_0)
  then show ?thesis using False w1(1) w2 fits_length [OF assms(4)]
    by (auto simp: readFrame_def pbind_apply Let_def)
qed

lemma readFrame_short:
  assumes "oops_ok L" and "frame_bytes frame = src w @ missing" and "missing \<noteq> []" and "fits f frame"
  shows "\<exists>w' e. readFrame L f (Some rd) w = Some (Ret ([], e), w') \<and> src w' = [] \<and>
    carries e (Some (short_error (if length (src w) < 4 then src w else drop 4 (src w))))"
  using readFrame_short_wrapped [OF assms] carries_wrapf [OF assms(1)] by blast

end

section \<open>A stream in memory\<close>

text \<open>A buffer that moves at most \<open>Suc pipe_chunk\<close> bytes a call.\<close>

record pipe =
  pipe_data :: "byte list"
  pipe_chunk :: nat

definition pipe_read :: "'u pipe_scheme reader" where
  "pipe_read n = (\<lambda>w. let k = min n (Suc (pipe_chunk w)) in
     if pipe_data w = [] then Some (Ret ([], Some ErrEOF), w)
     else Some (Ret (take k (pipe_data w), None), w\<lparr>pipe_data := drop k (pipe_data w)\<rparr>))"

definition pipe_write :: "'u pipe_scheme writer" where
  "pipe_write data = (\<lambda>w. let k = min (length data) (Suc (pipe_chunk w)) in
     Some (Ret (int k, None), w\<lparr>pipe_data := pipe_data w @ take k data\<rparr>))"

interpretation pipe_in: byte_source pipe_read pipe_data ErrEOF
proof
  fix n :: nat and w :: "'a pipe_scheme"
  assume n: "0 < n"
  show "\<exists>w'. pipe_read n w = Some (Ret ([], Some ErrEOF), w') \<and> pipe_data w' = []" if "pipe_data w = []"
    using that by (simp add: pipe_read_def Let_def)
  show "\<exists>k w'. 0 < k \<and> k \<le> n \<and> pipe_read n w = Some (Ret (take k (pipe_data w), None), w') \<and>
      pipe_data w' = drop k (pipe_data w)" if "pipe_data w \<noteq> []"
    using that n by (intro exI [of _ "min n (Suc (pipe_chunk w))"]) (simp add: pipe_read_def Let_def)
qed

interpretation pipe_out: byte_sink pipe_write pipe_data
proof
  fix data :: "byte list" and w :: "'a pipe_scheme"
  assume "data \<noteq> []"
  then show "\<exists>k w'. 0 < k \<and> k \<le> length data \<and> pipe_write data w = Some (Ret (int k, None), w') \<and>
      pipe_data w' = pipe_data w @ take k data"
    by (intro exI [of _ "min (length data) (Suc (pipe_chunk w))"]) (simp add: pipe_write_def Let_def)
qed

section \<open>Properties\<close>

text \<open>
  C10: frames survive the stream. For any sink and any source, however they cut the bytes: writing a
  frame within the limit appends its four bytes of length and its bytes, and reading where these
  come next gives the frame back and leaves what follows them.
\<close>

theorem frame_roundtrip:
  assumes "byte_sink wr out" and "byte_source rd src eof" and "fits f frame"
  shows "(\<exists>w'. writeFrame L f (Some wr) frame w = Some (Ret None, w') \<and> out w' = out w @ frame_bytes frame) \<and>
    (\<forall>rest. src v = frame_bytes frame @ rest \<longrightarrow>
      (\<exists>v'. readFrame L f (Some rd) v = Some (Ret (frame, None), v') \<and> src v' = rest))"
  using byte_sink.writeFrame_spec [OF assms(1,3)] byte_source.readFrame_spec [OF assms(2,3)] by blast

theorem frame_roundtrip_witness:
  "\<exists>w v. writeFrame plain_lib (NewLengthPrefixed 32) (Some pipe_write) [1, 2, 3]
        \<lparr>pipe_data = [], pipe_chunk = 1\<rparr> = Some (Ret None, w) \<and>
      readFrame plain_lib (NewLengthPrefixed 32) (Some pipe_read) (w\<lparr>pipe_chunk := 0\<rparr>) =
        Some (Ret ([1, 2, 3], None), v) \<and> pipe_data v = []"
proof -
  let ?f = "NewLengthPrefixed 32" and ?x = "[1, 2, 3] :: byte list"
  have fit: "fits ?f ?x" by (simp add: fits_def NewLengthPrefixed_def)
  obtain w where w: "writeFrame plain_lib ?f (Some pipe_write) ?x \<lparr>pipe_data = [], pipe_chunk = 1\<rparr> =
      Some (Ret None, w)" "pipe_data w = frame_bytes ?x"
    using frame_roundtrip [OF pipe_out.byte_sink_axioms pipe_in.byte_source_axioms fit,
        of plain_lib "\<lparr>pipe_data = [], pipe_chunk = 1\<rparr>"] by auto
  then have "pipe_data (w\<lparr>pipe_chunk := 0\<rparr>) = frame_bytes ?x @ []" by simp
  then show ?thesis
    using frame_roundtrip [OF pipe_out.byte_sink_axioms pipe_in.byte_source_axioms fit,
        of plain_lib _ "w\<lparr>pipe_chunk := 0\<rparr>"] w(1) by blast
qed

text \<open>
  No frame is ever delivered in part. When the stream ends inside a frame the read fails, with an
  error that carries \<open>io.EOF\<close> if it ended before the header or just after it, and
  \<open>io.ErrUnexpectedEOF\<close> if it ended inside either.
\<close>

theorem readFrame_truncated:
  assumes "byte_source rd src ErrEOF" and "oops_ok L" and "frame_bytes frame = src w @ missing"
    and "missing \<noteq> []" and "fits f frame"
  shows "\<exists>w' e. readFrame L f (Some rd) w = Some (Ret ([], e), w') \<and> e \<noteq> None \<and>
    carries e (Some (if length (src w) \<in> {0, 4} then ErrEOF else ErrUnexpectedEOF))"
proof -
  obtain w' e where run: "readFrame L f (Some rd) w = Some (Ret ([], e), w')"
    and c: "carries e (Some (byte_source.short_error ErrEOF
              (if length (src w) < 4 then src w else drop 4 (src w))))"
    using byte_source.readFrame_short [OF assms] by blast
  have "byte_source.short_error ErrEOF (if length (src w) < 4 then src w else drop 4 (src w)) =
      (if length (src w) \<in> {0, 4} then ErrEOF else ErrUnexpectedEOF)"
    by (auto simp: byte_source.short_error_def [OF assms(1)])
  moreover have "e \<noteq> None" using c by (metis carries_eq_None option.distinct(1))
  ultimately show ?thesis using run c by auto
qed

theorem readFrame_truncated_witness:
  "\<exists>w' e. readFrame plain_lib (NewLengthPrefixed 32) (Some pipe_read)
        \<lparr>pipe_data = [0, 0, 0, 3, 9], pipe_chunk = 0\<rparr> = Some (Ret ([], e), w') \<and>
     carries e (Some ErrUnexpectedEOF)"
proof -
  let ?w = "\<lparr>pipe_data = [0, 0, 0, 3, 9 :: byte], pipe_chunk = 0\<rparr>"
  have b: "frame_bytes [9, 9, 9] = pipe_data ?w @ [9, 9]" by (simp add: frame_bytes_def be32_put_def)
  have m: "[9, 9 :: byte] \<noteq> []" by simp
  have f: "fits (NewLengthPrefixed 32) [9, 9, 9]" by (simp add: fits_def NewLengthPrefixed_def)
  show ?thesis using readFrame_truncated [OF pipe_in.byte_source_axioms plain_lib_ok b m f] by auto
qed

text \<open>
  Both sides enforce the limit before they touch the payload: a frame above it is refused without
  a byte written, and a header that announces one is refused before any memory is set aside for it.
  The four bytes of the header are gone by then, so the stream is no longer at the start of a frame.
\<close>

theorem frame_limit:
  assumes "byte_source rd src eof" and "\<not> fits f frame" and "src v = be32_put n @ rest"
    and "MaxFrameBytes f < n"
  shows "(\<exists>as tx. writeFrame L f (Some wr) frame w =
      Some (Ret (Some (oops_errorf L ''clientx/codec'' as tx)), w)) \<and>
    (\<exists>v' as tx. readFrame L f (Some rd) v =
      Some (Ret ([], Some (oops_errorf L ''clientx/codec'' as tx)), v') \<and> src v' = rest)"
proof
  show "\<exists>as tx. writeFrame L f (Some wr) frame w =
      Some (Ret (Some (oops_errorf L ''clientx/codec'' as tx)), w)"
    using assms(2) by (auto simp: writeFrame_def fits_def Let_def)
  show "\<exists>v' as tx. readFrame L f (Some rd) v =
      Some (Ret ([], Some (oops_errorf L ''clientx/codec'' as tx)), v') \<and> src v' = rest"
    using byte_source.readFrame_too_large [OF assms(1,3,4)] by blast
qed

theorem frame_limit_witness:
  "(\<exists>as tx. writeFrame plain_lib (NewLengthPrefixed 2) (Some pipe_write) [1, 2, 3]
       \<lparr>pipe_data = [], pipe_chunk = 0\<rparr> =
       Some (Ret (Some (oops_errorf plain_lib ''clientx/codec'' as tx)), \<lparr>pipe_data = [], pipe_chunk = 0\<rparr>)) \<and>
   (\<exists>v' as tx. readFrame plain_lib (NewLengthPrefixed 2) (Some pipe_read)
       \<lparr>pipe_data = [0, 0, 0, 3, 7], pipe_chunk = 0\<rparr> =
       Some (Ret ([], Some (oops_errorf plain_lib ''clientx/codec'' as tx)), v') \<and> pipe_data v' = [7])"
proof -
  have f: "\<not> fits (NewLengthPrefixed 2) [1, 2, 3]" by (simp add: fits_def NewLengthPrefixed_def)
  have b: "pipe_data \<lparr>pipe_data = [0, 0, 0, 3, 7 :: byte], pipe_chunk = 0\<rparr> = be32_put 3 @ [7]"
    by (simp add: be32_put_def)
  have m: "MaxFrameBytes (NewLengthPrefixed 2) < 3" by (simp add: NewLengthPrefixed_def)
  show ?thesis by (rule frame_limit [OF pipe_in.byte_source_axioms f b m])
qed

text \<open>
  A writer that takes nothing and reports no error, which \<open>io.Writer\<close> forbids, is retried for
  ever: the write of a non-empty payload does not return.
\<close>

theorem writeFull_stalls:
  assumes "\<And>w. wr data w = Some (Ret (0, None), w)" and "data \<noteq> []"
  shows "writeFull L wr data w = None"
proof -
  let ?Q = "\<lambda>L' wr' data' (w' :: 'a) (x :: go_error option res \<times> 'a). wr' = wr \<longrightarrow> data' = data \<longrightarrow> False"
  have "?Q L wr data w x" if "writeFull L wr data w = Some x" for x
    using that
  proof (rule writeFull.raw_induct [of ?Q, rotated])
    fix g :: "lib \<Rightarrow> 'a writer \<Rightarrow> byte list \<Rightarrow> 'a \<Rightarrow> (go_error option res \<times> 'a) option" and L wr' data' w x
    assume IH: "\<And>L wr' data' w x. g L wr' data' w = Some x \<Longrightarrow> ?Q L wr' data' w x"
      and step: "(if data' = [] then Some (Ret None, w)
        else case wr' data' w of
          None \<Rightarrow> None
        | Some (Panic, w') \<Rightarrow> Some (Panic, w')
        | Some (Ret (n, err), w') \<Rightarrow>
            if err \<noteq> None
            then Some (Ret (oops_wrapf L ''clientx/codec''
                   [(''op'', AStr ''write_full''), (''remaining_bytes'', AInt (int (length data')))]
                   err ''write frame bytes''), w')
            else if n < 0 \<or> int (length data') < n then Some (Panic, w')
            else g L wr' (drop (nat n) data') w') = Some x"
    show "?Q L wr' data' w x" using IH [of L wr data w x] step assms by auto
  qed
  then show ?thesis by (metis option.exhaust)
qed

theorem writeFull_stalls_witness:
  "writeFull plain_lib (\<lambda>data w. Some (Ret (0, None), w)) [1] () = None"
  by (rule writeFull_stalls) simp_all

end
