(* ===== verification/Client_Call.thy ===== *)
theory Client_Call
  imports Policy_Engine
begin

text \<open>
  How every client uses the engine: \<open>invokeWithPolicies\<close> of the three packages and the call around it
  are one shape, \<open>client_call\<close>. Its contract is the locale \<open>client_calls\<close>: what an attempt hands out
  when it succeeds is \<open>good\<close>, and the client's error carries the engine's.
\<close>

definition client_call ::
  "lib \<Rightarrow> (ctx option \<Rightarrow> ('c option \<times> go_error option, 'u world_scheme) prog) \<Rightarrow>
   (go_error option \<Rightarrow> go_error option) \<Rightarrow> ctx option \<Rightarrow> operation \<Rightarrow>
   'u world_scheme policy option list \<Rightarrow> ('c option \<times> go_error option, 'u world_scheme) prog" where
  "client_call L once fail ctx operation policies =
     pbind
       (pbind (InvokeWithPolicies L None ctx operation (Some once) policies)
         (\<lambda>(conn, err). if err \<noteq> None then pret (None, fail err) else pret (conn, None)))
       (\<lambda>(conn, err). if err \<noteq> None then pret (None, err) else pret (conn, None))"

locale client_calls =
  fixes once :: "ctx option \<Rightarrow> ('c option \<times> go_error option, 'u world_scheme) prog"
    and fail :: "go_error option \<Rightarrow> go_error option" and good :: "'c \<Rightarrow> bool"
  assumes once_good: "once execCtx w = Some (Ret (x, None), w') \<Longrightarrow> \<exists>c. x = Some c \<and> good c"
    and fail_carries: "carries (fail (Some e)) (Some e)"
begin

lemma fail_Some: "fail (Some e) \<noteq> None"
  using fail_carries [of e] by (metis carries_eq_None option.distinct(1))

lemma fails:
  assumes "InvokeWithPolicies L None ctx operation (Some once) policies w = Some (Ret (x, Some e), w')"
  shows "\<exists>err. client_call L once fail ctx operation policies w = Some (Ret (None, err), w') \<and>
    carries err (Some e)"
proof -
  obtain y where "fail (Some e) = Some y" using fail_Some by blast
  then show ?thesis using assms fail_carries [of e] by (simp add: client_call_def pbind_apply)
qed

lemma result:
  assumes "client_call L once fail ctx operation policies w = Some (Ret (conn, err), w')"
  shows "if err = None then \<exists>c. conn = Some c \<and> good c else conn = None"
proof -
  obtain x e w1 where run: "InvokeWithPolicies L None ctx operation (Some once) policies w = Some (Ret (x, e), w1)"
    using assms unfolding client_call_def by (auto elim!: pbind_eq_SomeE)
  show ?thesis
  proof (cases e)
    case None
    then obtain execCtx v v' where "once execCtx v = Some (Ret (x, None), v')"
      using run loop_success by (fastforce simp: InvokeWithPolicies_def Let_def)
    then have "\<exists>c. x = Some c \<and> good c" by (rule once_good)
    moreover have "conn = x \<and> err = None" using assms run None by (simp add: client_call_def pbind_apply)
    ultimately show ?thesis by simp
  next
    case (Some y)
    obtain r where "client_call L once fail ctx operation policies w = Some (Ret (None, r), w1)"
      and "carries r (Some y)" using fails [OF run [unfolded Some]] by blast
    moreover from this(2) have "r \<noteq> None" by (metis carries_eq_None option.distinct(1))
    ultimately show ?thesis using assms by simp
  qed
qed

lemma client_call_returns:
  assumes "\<And>c. returns (once c)"
    and "\<forall>p. Some p \<in> set policies \<longrightarrow> policy_returns p \<and> stops_at n p"
  shows "client_call L once fail ctx operation policies w \<noteq> None"
proof -
  have "\<forall>p \<in> set (filterPolicies policies). policy_returns p \<and> stops_at n p"
    using assms(2) by (auto simp: filterPolicies_def)
  then have "InvokeWithPolicies L None ctx operation (Some once) policies w \<noteq> None"
    unfolding InvokeWithPolicies_def Let_def option.case
    by (rule loop_returns) (use assms(1) in blast)
  then show ?thesis by (auto simp: client_call_def pbind_apply split: res.split)
qed

end

end
