(* ===== verification/Net_Conn.thy ===== *)
theory Net_Conn
  imports Hook Framer Client_Call
begin

text \<open>
  What the TCP and the UDP client share: the \<open>net.Conn\<close> interface, a client's state, and the shape of
  the guarded read and write both build around it, with the facts that hold of any such wrapper.
  A wrapper has \<open>LocalAddr\<close>, \<open>RemoteAddr\<close> and \<open>SetDeadline\<close> of the connection it embeds.
\<close>

section \<open>Connections\<close>

record net_addr =
  AddrNetwork :: string
  AddrString :: string

record 'w conn =
  ConnRead :: "'w reader"
  ConnWrite :: "'w writer"
  ConnClose :: "(go_error option, 'w) prog"
  SetReadDeadline :: "int \<Rightarrow> (go_error option, 'w) prog"
  SetWriteDeadline :: "int \<Rightarrow> (go_error option, 'w) prog"
  SetDeadline :: "int \<Rightarrow> (go_error option, 'w) prog"
  LocalAddr :: net_addr
  RemoteAddr :: net_addr

record TLSConfig =
  TLSEnabled :: bool
  InsecureSkipVerify :: bool
  ServerName :: string

record 'w net =
  net_dial :: "TLSConfig option \<Rightarrow> duration \<Rightarrow> duration \<Rightarrow> ctx option \<Rightarrow> string \<Rightarrow> string \<Rightarrow>
     (go_error + 'w conn, 'w) prog"

section \<open>Guarded input and output\<close>

text \<open>
  The shape of \<open>runIO\<close> in both packages: set a deadline, run, wrap the error, tell the hooks once.
  \<open>size_of\<close> reads the number of bytes off the result.
\<close>

definition guarded_io ::
  "(go_error option, 'u world_scheme) prog \<Rightarrow>
   ('r \<times> go_error option, 'u world_scheme) prog \<Rightarrow> 'r \<Rightarrow> ('r \<Rightarrow> int) \<Rightarrow>
   (go_error option \<Rightarrow> go_error option) \<Rightarrow>
   (int \<Rightarrow> duration \<Rightarrow> go_error option \<Rightarrow> (unit, 'u world_scheme) prog) \<Rightarrow>
   ('r \<times> go_error option, 'u world_scheme) prog" where
  "guarded_io deadline run nothing size_of wrap emit =
     pbind (pget now) (\<lambda>start.
     pbind deadline (\<lambda>err.
       if err \<noteq> None
       then pbind (pget now) (\<lambda>t. pbind (emit 0 (t - start) err) (\<lambda>_. pret (nothing, err)))
       else
         pbind run (\<lambda>(x, err).
           if err \<noteq> None
           then (let wrapped = wrap err in
                 pbind (pget now) (\<lambda>t. pbind (emit (size_of x) (t - start) wrapped) (\<lambda>_. pret (x, wrapped))))
           else pbind (pget now) (\<lambda>t. pbind (emit (size_of x) (t - start) None) (\<lambda>_. pret (x, None))))))"

text \<open>\<open>quiet f m\<close>: the call comes back, does not panic, and leaves \<open>f\<close> alone.\<close>

definition quiet :: "('w \<Rightarrow> 'b) \<Rightarrow> ('a, 'w) prog \<Rightarrow> bool" where
  "quiet f m \<longleftrightarrow> (\<forall>w. \<exists>a w'. m w = Some (Ret a, w') \<and> f w' = f w)"

lemma quietE:
  assumes "quiet f m"
  obtains a w' where "m w = Some (Ret a, w')" "f w' = f w"
  using assms unfolding quiet_def by blast

lemma quiet_pret [simp, intro]: "quiet f (pret a)"
  by (simp add: quiet_def)

lemma quiet_EmitIO:
  assumes "\<And>k. Some k \<in> set hooks \<Longrightarrow> returns (OnIO k event)"
    and "\<And>k. Some k \<in> set hooks \<Longrightarrow> keeps f (OnIO k event)"
  shows "quiet f (EmitIO hooks event)"
proof -
  have "f (fold (\<lambda>k. state_after (OnIO k event)) ks w) = f w"
    if "\<forall>k \<in> set ks. returns (OnIO k event) \<and> keeps f (OnIO k event)" for ks w
    using that
  proof (induction ks arbitrary: w)
    case (Cons k ks)
    have "f (state_after (OnIO k event) w) = f w"
      using Cons.prems returnsD [of "OnIO k event" w] keepsD [of f "OnIO k event" w]
      by (auto simp: state_after_def split: option.split)
    then show ?case using Cons by simp
  qed simp
  moreover have "\<forall>k \<in> set (map the (filter (\<lambda>h. h \<noteq> None) hooks)). returns (OnIO k event) \<and> keeps f (OnIO k event)"
    using assms by auto
  ultimately show ?thesis
    unfolding quiet_def by (metis EmitIO_runs_each [OF assms(1)])
qed

text \<open>Each way the call can go, the hooks being quiet.\<close>

lemma guarded_io_deadline:
  assumes "deadline w = Some (Ret (Some e), w1)" and "\<And>n d err. quiet f (emit n d err)"
  shows "\<exists>w2. guarded_io deadline run nothing size_of wrap emit w = Some (Ret (nothing, Some e), w2) \<and> f w2 = f w1"
proof -
  obtain a w2 where "emit 0 (now w1 - now w) (Some e) w1 = Some (Ret a, w2)" "f w2 = f w1"
    using assms(2) by (rule quietE)
  then show ?thesis using assms(1) by (simp add: guarded_io_def pbind_apply)
qed

lemma guarded_io_run:
  assumes "deadline w = Some (Ret None, w1)" and "run w1 = Some (Ret (x, err), w2)"
    and "\<And>n d err. quiet f (emit n d err)"
  shows "\<exists>w3. guarded_io deadline run nothing size_of wrap emit w =
      Some (Ret (x, if err = None then None else wrap err), w3) \<and> f w3 = f w2"
proof -
  obtain a w3 where "emit (size_of x) (now w2 - now w) (if err = None then None else wrap err) w2 = Some (Ret a, w3)"
    "f w3 = f w2" using assms(3) by (rule quietE)
  then show ?thesis using assms(1,2) by (auto simp: guarded_io_def pbind_apply Let_def)
qed

lemma guarded_io_ok:
  assumes "deadline w = Some (Ret None, w1)" and "run w1 = Some (Ret (x, None), w2)"
    and "\<And>n d err. quiet f (emit n d err)"
  shows "\<exists>w3. guarded_io deadline run nothing size_of wrap emit w = Some (Ret (x, None), w3) \<and> f w3 = f w2"
  using guarded_io_run [of deadline w w1 run x None w2 f emit nothing size_of wrap] assms by simp

text \<open>
  A guarded stream over a stream: as long as deadlines can be set and the hooks are quiet, a wrapper
  of a source is a source, whose end is the wrapped end, and a wrapper of a sink is a sink.
\<close>

locale guarded_source = byte_source rd src eof
  for rd :: "'u world_scheme reader" and src :: "'u world_scheme \<Rightarrow> byte list" and eof :: go_error +
  fixes deadline :: "(go_error option, 'u world_scheme) prog" and wrapped :: go_error
    and wrap :: "go_error option \<Rightarrow> go_error option"
    and emit :: "int \<Rightarrow> duration \<Rightarrow> go_error option \<Rightarrow> (unit, 'u world_scheme) prog"
  assumes deadline_set: "\<exists>w'. deadline w = Some (Ret None, w') \<and> src w' = src w"
    and wrap_eof: "wrap (Some eof) = Some wrapped"
    and emit_quiet: "quiet src (emit n d e)"

sublocale guarded_source \<subseteq> guarded: byte_source
    "\<lambda>n. guarded_io deadline (rd n) [] (\<lambda>x. int (length x)) wrap emit" src wrapped
proof
  fix n :: nat and w :: "'u world_scheme"
  assume n: "0 < n"
  obtain w1 where d: "deadline w = Some (Ret None, w1)" "src w1 = src w" using deadline_set by blast
  show "\<exists>k w'. 0 < k \<and> k \<le> n \<and>
      guarded_io deadline (rd n) [] (\<lambda>x. int (length x)) wrap emit w = Some (Ret (take k (src w), None), w') \<and>
      src w' = drop k (src w)" if "src w \<noteq> []"
  proof -
    obtain k w2 where k: "0 < k" "k \<le> n" "rd n w1 = Some (Ret (take k (src w1), None), w2)" "src w2 = drop k (src w1)"
      using read_some [OF n, of w1] d(2) \<open>src w \<noteq> []\<close> by auto
    from guarded_io_run [where f = src and emit = emit and deadline = deadline and run = "rd n", OF d(1) k(3) emit_quiet]
    show ?thesis
      using k d(2) by fastforce
  qed
  show "\<exists>w'. guarded_io deadline (rd n) [] (\<lambda>x. int (length x)) wrap emit w = Some (Ret ([], Some wrapped), w') \<and>
      src w' = []" if "src w = []"
  proof -
    obtain w2 where r: "rd n w1 = Some (Ret ([], Some eof), w2)" "src w2 = []"
      using read_end [OF n, of w1] d(2) \<open>src w = []\<close> by auto
    from guarded_io_run [where f = src and emit = emit and deadline = deadline and run = "rd n" and wrap = wrap
        and nothing = "[]" and size_of = "\<lambda>x. int (length x)", OF d(1) r(1) emit_quiet]
    show ?thesis
      using r(2) wrap_eof by auto
  qed
qed

context guarded_source begin

lemma guarded_byte_source:
  "byte_source (\<lambda>n. guarded_io deadline (rd n) [] (\<lambda>x. int (length x)) wrap emit) src wrapped"
  by (rule guarded.byte_source_axioms)

end

locale guarded_sink = byte_sink wr out
  for wr :: "'u world_scheme writer" and out :: "'u world_scheme \<Rightarrow> byte list" +
  fixes deadline :: "(go_error option, 'u world_scheme) prog"
    and wrap :: "go_error option \<Rightarrow> go_error option"
    and emit :: "int \<Rightarrow> duration \<Rightarrow> go_error option \<Rightarrow> (unit, 'u world_scheme) prog"
  assumes deadline_set: "\<exists>w'. deadline w = Some (Ret None, w') \<and> out w' = out w"
    and emit_quiet: "quiet out (emit n d e)"

sublocale guarded_sink \<subseteq> guarded: byte_sink
    "\<lambda>data. guarded_io deadline (wr data) 0 (\<lambda>n. n) wrap emit" out
proof
  fix data :: "byte list" and w :: "'u world_scheme"
  assume "data \<noteq> []"
  obtain w1 where d: "deadline w = Some (Ret None, w1)" "out w1 = out w" using deadline_set by blast
  obtain k w2 where k: "0 < k" "k \<le> length data" "wr data w1 = Some (Ret (int k, None), w2)"
    "out w2 = out w1 @ take k data" using write_some [OF \<open>data \<noteq> []\<close>] by blast
  from guarded_io_run [where f = out and emit = emit and deadline = deadline and run = "wr data",
      OF d(1) k(3) emit_quiet]
  show "\<exists>k w'. 0 < k \<and> k \<le> length data \<and>
      guarded_io deadline (wr data) 0 (\<lambda>n. n) wrap emit w = Some (Ret (int k, None), w') \<and>
      out w' = out w @ take k data"
    using k d(2) by fastforce
qed

context guarded_sink begin

lemma guarded_byte_sink: "byte_sink (\<lambda>data. guarded_io deadline (wr data) 0 (\<lambda>n. n) wrap emit) out"
  by (rule guarded.byte_sink_axioms)

end

section \<open>Opening a connection\<close>

text \<open>
  An attempt of TCP's \<open>Dial\<close> and of UDP's \<open>Dial\<close> and \<open>ListenPacket\<close>: open with \<open>dial\<close>, tell the hooks,
  hand out \<open>mk\<close> of what was opened; \<open>wrap\<close> makes the error.
\<close>

definition open_once ::
  "(ctx option \<Rightarrow> (go_error + 'c, 'u world_scheme) prog) \<Rightarrow>
   (duration \<Rightarrow> go_error option \<Rightarrow> (unit, 'u world_scheme) prog) \<Rightarrow>
   (go_error option \<Rightarrow> go_error option) \<Rightarrow> ('c \<Rightarrow> 'c) \<Rightarrow> ctx option \<Rightarrow>
   ('c option \<times> go_error option, 'u world_scheme) prog" where
  "open_once dial emit wrap mk execCtx =
     pbind (pget now) (\<lambda>start. pbind (dial execCtx) (\<lambda>r. pbind (pget now) (\<lambda>t.
       case r of
         Inl err \<Rightarrow> (let e = wrap (Some err) in pbind (emit (t - start) e) (\<lambda>_. pret (None, e)))
       | Inr conn \<Rightarrow> pbind (emit (t - start) None) (\<lambda>_. pret (Some (mk conn), None)))))"

lemma open_once_success:
  assumes "\<And>e. wrap (Some e) \<noteq> None" and "open_once dial emit wrap mk execCtx w = Some (Ret (x, None), w')"
  shows "\<exists>raw w1. dial execCtx w = Some (Ret (Inr raw), w1) \<and> x = Some (mk raw)"
proof (cases "dial execCtx w")
  case (Some a)
  obtain r w1 where a: "a = (r, w1)" by (cases a)
  note run = assms(2) [unfolded open_once_def pbind_apply pget_apply Some a option.case prod.case res.case]
  show ?thesis
  proof (cases r)
    case (Ret d)
    show ?thesis
    proof (cases d)
      case (Inl err)
      then show ?thesis using run Ret assms(1) [of err]
        by (auto simp: Let_def pbind_apply split: option.splits res.splits)
    next
      case (Inr conn)
      then show ?thesis using run Ret Some a by (auto simp: pbind_apply split: option.splits res.splits)
    qed
  qed (use run in simp)
qed (use assms in \<open>simp add: open_once_def pbind_apply\<close>)

lemma returns_open_once:
  assumes "\<And>execCtx. returns (dial execCtx)" and "\<And>d e. returns (emit d e)"
  shows "returns (open_once dial emit wrap mk execCtx)"
  unfolding open_once_def Let_def
  using assms by (intro returns_pbind) (auto split: sum.split intro!: returns_pbind)

section \<open>A connection in memory\<close>

text \<open>
  A connection whose deadlines can always be set and that moves at most \<open>Suc net_chunk\<close> bytes a
  call: \<open>net_in\<close> is what the peer has sent before it closed, \<open>net_out\<close> what it has been sent.
  \<open>quiet_hooks\<close> are the hooks of a list that come back and leave \<open>f\<close> alone.
\<close>

record net_world = world +
  net_in :: "byte list"
  net_out :: "byte list"
  net_chunk :: nat
  net_closed :: nat

definition mem_read :: "'u net_world_scheme reader" where
  "mem_read n = (\<lambda>w. let k = min n (Suc (net_chunk w)) in
     if net_in w = [] then Some (Ret ([], Some ErrEOF), w)
     else Some (Ret (take k (net_in w), None), w\<lparr>net_in := drop k (net_in w)\<rparr>))"

definition mem_write :: "'u net_world_scheme writer" where
  "mem_write data = (\<lambda>w. let k = min (length data) (Suc (net_chunk w)) in
     Some (Ret (int k, None), w\<lparr>net_out := net_out w @ take k data\<rparr>))"

definition mem_conn :: "'u net_world_scheme conn" where
  "mem_conn = \<lparr>ConnRead = mem_read, ConnWrite = mem_write,
     ConnClose = pbind (pmodify (\<lambda>w. w\<lparr>net_closed := net_closed w + 1\<rparr>)) (\<lambda>_. pret None),
     SetReadDeadline = (\<lambda>t. pret None), SetWriteDeadline = (\<lambda>t. pret None), SetDeadline = (\<lambda>t. pret None),
     LocalAddr = \<lparr>AddrNetwork = ''tcp'', AddrString = ''h:0''\<rparr>, RemoteAddr = \<lparr>AddrNetwork = ''tcp'', AddrString = ''h:1''\<rparr>\<rparr>"

interpretation mem_in: byte_source mem_read net_in ErrEOF
proof
  fix n :: nat and w :: "'a net_world_scheme"
  assume n: "0 < n"
  show "\<exists>w'. mem_read n w = Some (Ret ([], Some ErrEOF), w') \<and> net_in w' = []" if "net_in w = []"
    using that by (simp add: mem_read_def Let_def)
  show "\<exists>k w'. 0 < k \<and> k \<le> n \<and> mem_read n w = Some (Ret (take k (net_in w), None), w') \<and>
      net_in w' = drop k (net_in w)" if "net_in w \<noteq> []"
    using that n by (intro exI [of _ "min n (Suc (net_chunk w))"]) (simp add: mem_read_def Let_def)
qed

interpretation mem_out: byte_sink mem_write net_out
proof
  fix data :: "byte list" and w :: "'a net_world_scheme"
  assume "data \<noteq> []"
  then show "\<exists>k w'. 0 < k \<and> k \<le> length data \<and> mem_write data w = Some (Ret (int k, None), w') \<and>
      net_out w' = net_out w @ take k data"
    by (intro exI [of _ "min (length data) (Suc (net_chunk w))"]) (simp add: mem_write_def Let_def)
qed

definition quiet_hook :: "('w \<Rightarrow> 'b) \<Rightarrow> 'w hook option \<Rightarrow> bool" where
  "quiet_hook f h \<longleftrightarrow> (\<forall>k e. h = Some k \<longrightarrow> returns (OnIO k e) \<and> keeps f (OnIO k e))"

lemma quiet_hooksD:
  "\<forall>h \<in> set hooks. quiet_hook f h \<Longrightarrow> Some k \<in> set hooks \<Longrightarrow> returns (OnIO k e) \<and> keeps f (OnIO k e)"
  unfolding quiet_hook_def by blast

definition net_start :: "byte list \<Rightarrow> net_world" where
  "net_start bs = \<lparr>now = 0, next_id = 0, cancelled_at = (\<lambda>_. None), choices = (\<lambda>_. False), sems = (\<lambda>_. 0),
     net_in = bs, net_out = [], net_chunk = 0, net_closed = 0\<rparr>"

end
