(* ===== verification/Retry_Policy.thy ===== *)
theory Retry_Policy
  imports Complex_Main "HOL-Library.Log_Nat" Policy_Engine
begin

text \<open>
  \<^verbatim>\<open>policy_retry.go\<close>: the retry policy, its defaults, which errors it retries and how long it
  waits.

  The arithmetic of \<open>float64\<close> is a parameter, the record \<open>float64\<close> of the operations the file
  uses (\<open>f_ratio\<close> is a literal such as \<^verbatim>\<open>0.2\<close>), so the bounds of the wait hold for any rounding, overflow and NaN
  behaviour. What the wait is in numbers rests on the laws of the locale \<open>go_float\<close>, which the
  arithmetic of IEEE 754 keeps; \<open>binary64\<close> is an instance, rationals rounded to the nearest with 53 bits.
\<close>

section \<open>The policy\<close>

record ('f, 'w) float64 =
  f_int :: "int \<Rightarrow> 'f"
  f_ratio :: "int \<Rightarrow> int \<Rightarrow> 'f"
  f_dur :: "'f \<Rightarrow> duration"
  f_add :: "'f \<Rightarrow> 'f \<Rightarrow> 'f"
  f_sub :: "'f \<Rightarrow> 'f \<Rightarrow> 'f"
  f_mul :: "'f \<Rightarrow> 'f \<Rightarrow> 'f"
  f_pow :: "'f \<Rightarrow> 'f \<Rightarrow> 'f"
  f_less :: "'f \<Rightarrow> 'f \<Rightarrow> bool"
  f_le :: "'f \<Rightarrow> 'f \<Rightarrow> bool"
  f_rand :: "('f, 'w) prog"

record ('f, 'w) RetryPolicyConfig =
  MaxAttempts :: int
  BaseDelay :: duration
  MaxDelay :: duration
  Multiplier :: 'f
  JitterRatio :: 'f
  Retryable :: "(go_error option \<Rightarrow> (bool, 'w) prog) option"

record ('f, 'w) retryPolicy =
  maxAttempts :: int
  baseDelay :: duration
  maxDelay :: duration
  multiplier :: 'f
  jitterRatio :: 'f
  retryable :: "go_error option \<Rightarrow> (bool, 'w) prog"

definition defaultRetryable :: "go_error option \<Rightarrow> bool res" where
  "defaultRetryable err =
     (if err = None then Ret False
      else if errors_is err CtxCanceled then Ret False
      else if errors_is err CtxDeadline then Ret True
      else rbind (KindOf err) (\<lambda>kind.
        if kind \<in> set [ErrorKindTimeout, ErrorKindTemporary, ErrorKindConnRefused, ErrorKindDNS,
                        ErrorKindNetwork] then Ret True
        else if kind \<in> set [ErrorKindUnknown, ErrorKindCanceled, ErrorKindClosed, ErrorKindTLS,
                             ErrorKindCodec] then Ret False
        else (case errors_as is_net_error err of
                Some netErr \<Rightarrow> Ret (timeout_method netErr = Some True)
              | None \<Rightarrow> Ret False)))"

definition newRetryPolicy :: "('f, 'w) float64 \<Rightarrow> ('f, 'w) RetryPolicyConfig \<Rightarrow> ('f, 'w) retryPolicy" where
  "newRetryPolicy F cfg =
     (let maxAttempts = (if MaxAttempts cfg \<le> 0 then 3 else MaxAttempts cfg);
          baseDelay = (if BaseDelay cfg \<le> 0 then 100 * millisecond else BaseDelay cfg);
          maxDelay = (if MaxDelay cfg \<le> 0 then 2 * second else MaxDelay cfg);
          maxDelay = (if maxDelay < baseDelay then baseDelay else maxDelay);
          multiplier = (if f_less F (Multiplier cfg) (f_int F 1) then f_int F 2 else Multiplier cfg);
          jitterRatio = (if f_less F (JitterRatio cfg) (f_int F 0) then f_int F 0 else JitterRatio cfg);
          jitterRatio = (if f_less F (f_int F 1) jitterRatio then f_int F 1 else jitterRatio);
          retryable = (case Retryable cfg of
              None \<Rightarrow> (\<lambda>err. pres (defaultRetryable err))
            | Some f \<Rightarrow> f)
      in \<lparr>maxAttempts = maxAttempts, baseDelay = baseDelay, maxDelay = maxDelay,
          multiplier = multiplier, jitterRatio = jitterRatio, retryable = retryable\<rparr>)"

definition backoffDelay ::
  "('f, 'w) float64 \<Rightarrow> ('f, 'w) retryPolicy \<Rightarrow> int \<Rightarrow> (duration, 'w) prog" where
  "backoffDelay F p attempt =
     (let attempt = (if attempt < 1 then 1 else attempt);
          delayFloat = f_mul F (f_int F (baseDelay p))
                         (f_pow F (multiplier p) (f_int F (attempt - 1)));
          delay = f_dur F delayFloat;
          delay = (if delay < 0 \<or> maxDelay p < delay then maxDelay p else delay)
      in if f_le F (jitterRatio p) (f_int F 0) then pret delay
         else
           (let delta = f_mul F (f_int F delay) (jitterRatio p);
                minDelay = f_sub F (f_int F delay) delta;
                maxDelayF = f_add F (f_int F delay) delta
            in if f_le F maxDelayF minDelay then pret delay
               else pbind (f_rand F) (\<lambda>x.
                 let jittered = f_add F minDelay (f_mul F x (f_sub F maxDelayF minDelay));
                     jittered = (if f_less F jittered (f_int F 0) then f_int F 0 else jittered);
                     jitteredDelay = f_dur F jittered
                 in pret (if maxDelay p < jitteredDelay then maxDelay p else jitteredDelay))))"

definition retryShouldRetry ::
  "('f, 'u world_scheme) float64 \<Rightarrow> ('f, 'u world_scheme) retryPolicy \<Rightarrow>
   ctx option \<Rightarrow> operation \<Rightarrow> int \<Rightarrow> go_error option \<Rightarrow> (bool \<times> duration, 'u world_scheme) prog" where
  "retryShouldRetry F p ctx operation attempt err =
     (if err = None then pret (False, 0)
      else if maxAttempts p \<le> 1 \<or> maxAttempts p \<le> attempt then pret (False, 0)
      else pbind (pget (\<lambda>w. case ctx of None \<Rightarrow> False | Some c \<Rightarrow> ctx_err w c \<noteq> None)) (\<lambda>done.
        if done then pret (False, 0)
        else pbind (retryable p err) (\<lambda>ok.
          if \<not> ok then pret (False, 0)
          else pbind (backoffDelay F p attempt) (\<lambda>d. pret (True, d)))))"

definition NewRetryPolicy ::
  "('f, 'u world_scheme) float64 \<Rightarrow> ('f, 'u world_scheme) RetryPolicyConfig \<Rightarrow>
   'u world_scheme policy" where
  "NewRetryPolicy F cfg =
     (let p = newRetryPolicy F cfg in
      \<lparr>Before = (\<lambda>ctx operation. pret (ctx, None)),
       After = (\<lambda>ctx operation err. pret None),
       ShouldRetry = Some (retryShouldRetry F p)\<rparr>)"

section \<open>Defaults\<close>

lemma new_retry_normal:
  "1 \<le> maxAttempts (newRetryPolicy F cfg) \<and> 0 < baseDelay (newRetryPolicy F cfg) \<and>
   baseDelay (newRetryPolicy F cfg) \<le> maxDelay (newRetryPolicy F cfg)"
  by (simp add: newRetryPolicy_def Let_def)

text \<open>
  The policy that \<open>NewRetryPolicy\<close> makes is well formed whatever the configuration: at least one
  attempt, a positive base delay, and a maximum that is not below it.
\<close>

theorem newRetryPolicy_normal:
  "1 \<le> maxAttempts (newRetryPolicy F cfg) \<and> 0 < baseDelay (newRetryPolicy F cfg) \<and>
   baseDelay (newRetryPolicy F cfg) \<le> maxDelay (newRetryPolicy F cfg)"
  by (rule new_retry_normal)

lemma newRetryPolicy_maxAttempts:
  "maxAttempts (newRetryPolicy F cfg) = (if MaxAttempts cfg \<le> 0 then 3 else MaxAttempts cfg)"
  by (simp add: newRetryPolicy_def Let_def)

lemma newRetryPolicy_maxDelay_pos: "0 < maxDelay (newRetryPolicy F cfg)"
  using new_retry_normal by (metis order_less_le_trans)

section \<open>The wait is bounded\<close>

lemma backoffDelay_le:
  assumes "0 \<le> maxDelay p" and "backoffDelay F p attempt w = Some (Ret d, w')"
  shows "d \<le> maxDelay p"
  using assms
  by (auto simp: backoffDelay_def Let_def pbind_apply split: if_splits option.splits res.splits)

lemma retryShouldRetry_le:
  assumes "0 \<le> maxDelay p" and "retryShouldRetry F p c operation attempt err w = Some (Ret (b, d), w')"
  shows "d \<le> maxDelay p"
  using assms backoffDelay_le [OF assms(1)]
  by (auto simp: retryShouldRetry_def split: if_splits elim!: pbind_eq_SomeE)

lemma waits_NewRetryPolicy: "waits_at_most (maxDelay (newRetryPolicy F cfg)) (NewRetryPolicy F cfg)"
  using retryShouldRetry_le [OF less_imp_le [OF newRetryPolicy_maxDelay_pos]]
  by (fastforce simp: waits_at_most_def NewRetryPolicy_def Let_def)

lemma retry_wait_bounds:
  assumes "\<And>p. p \<in> set ps \<Longrightarrow> ShouldRetry p = None \<or>
      (\<exists>cfg. p = NewRetryPolicy F cfg \<and> maxDelay (newRetryPolicy F cfg) \<le> M)"
    and "0 \<le> M"
    and "decideRetry c ps operation attempt err w = Some (Ret (b, d), w')"
  shows "0 \<le> d \<and> d \<le> M"
proof -
  from assms(3) obtain x w1 where d: "d = max (snd x) 0"
    and x: "decideRetryFrom (False, 0) c ps operation attempt err w = Some (Ret x, w1)"
    by (auto simp: decideRetry_def elim!: calm_bind_SomeE)
  have "waits_at_most M p" if "p \<in> set ps" for p
    using assms(1) [OF that]
  proof
    assume "\<exists>cfg. p = NewRetryPolicy F cfg \<and> maxDelay (newRetryPolicy F cfg) \<le> M"
    then obtain cfg where "p = NewRetryPolicy F cfg" "maxDelay (newRetryPolicy F cfg) \<le> M" by blast
    then show ?thesis using waits_NewRetryPolicy [of F cfg] by (fastforce simp: waits_at_most_def)
  qed (simp add: waits_at_most_def)
  then have "snd x \<le> M" using decideRetryFrom_wait_le [OF _ _ x] assms(2) by simp
  then show ?thesis using d assms(2) by simp
qed

text \<open>
  C21: the wait the engine decides on lies between zero and the largest maximum configured, for any
  behaviour of floating-point arithmetic and of the random source: the deciders among the policies
  being retry policies with a maximum of at most \<open>M\<close>.
\<close>

theorem decideRetry_wait_bounds:
  assumes "\<And>p. p \<in> set ps \<Longrightarrow> ShouldRetry p = None \<or>
      (\<exists>cfg. p = NewRetryPolicy F cfg \<and> maxDelay (newRetryPolicy F cfg) \<le> M)"
    and "0 \<le> M"
    and "decideRetry c ps operation attempt err w = Some (Ret (b, d), w')"
  shows "0 \<le> d \<and> d \<le> M"
  by (rule retry_wait_bounds [OF assms])

section \<open>What float64 promises\<close>

text \<open>
  Truncation towards zero, as the conversion to \<^verbatim>\<open>time.Duration\<close> does. \<open>near r e\<close>: \<open>r\<close> is on the same side
  of every whole number up to 2^53 as \<open>e\<close>; so is the rounding of \<open>e\<close> to the nearest float64, for rounding
  is monotone and these numbers are float64 themselves.
\<close>

definition trunc_rat :: "rat \<Rightarrow> int" where
  "trunc_rat x = (if 0 \<le> x then \<lfloor>x\<rfloor> else \<lceil>x\<rceil>)"

definition near :: "rat \<Rightarrow> rat \<Rightarrow> bool" where
  "near r e \<longleftrightarrow> (\<forall>n. \<bar>n\<bar> \<le> 2 ^ 53 \<longrightarrow>
     (rat_of_int n \<le> e \<longrightarrow> rat_of_int n \<le> r) \<and> (e \<le> rat_of_int n \<longrightarrow> r \<le> rat_of_int n))"

lemma near_le: "near r e \<Longrightarrow> \<bar>n\<bar> \<le> 2 ^ 53 \<Longrightarrow> e \<le> rat_of_int n \<Longrightarrow> r \<le> rat_of_int n"
  and near_ge: "near r e \<Longrightarrow> \<bar>n\<bar> \<le> 2 ^ 53 \<Longrightarrow> rat_of_int n \<le> e \<Longrightarrow> rat_of_int n \<le> r"
  by (simp_all add: near_def)

lemma near_whole: "near r (rat_of_int n) \<Longrightarrow> \<bar>n\<bar> \<le> 2 ^ 53 \<Longrightarrow> r = rat_of_int n"
  by (intro order_antisym) (auto intro: near_le near_ge)

text \<open>
  What the retry policy relies on of Go's arithmetic. \<open>fin\<close> holds of the floats that are numbers, \<open>val\<close> is
  their value. A sum, difference or product is the rounding of the exact one. \<open>math.Pow\<close> of whole
  numbers is exact up to 2^53, and at least 2^52, infinity included, beyond; a product with such a number
  stays large. The conversion truncates, and out of the range of \<open>int64\<close> it gives the least or the
  greatest one (amd64, arm64). \<^verbatim>\<open>rand.Float64\<close> answers a number of the unit interval. Nothing is said of
  fractional powers. (Each operation is rounded for itself, as on amd64: no fused multiply-add.)
\<close>

locale go_float =
  fixes F :: "('f, 'w) float64" and fin :: "'f \<Rightarrow> bool" and val :: "'f \<Rightarrow> rat"
  assumes int_exact: "\<bar>n\<bar> \<le> 2 ^ 53 \<Longrightarrow> fin (f_int F n) \<and> val (f_int F n) = rat_of_int n"
    and less_val: "fin x \<Longrightarrow> fin y \<Longrightarrow> f_less F x y \<longleftrightarrow> val x < val y"
    and le_val: "fin x \<Longrightarrow> fin y \<Longrightarrow> f_le F x y \<longleftrightarrow> val x \<le> val y"
    and add_near: "fin x \<Longrightarrow> fin y \<Longrightarrow> \<bar>val x + val y\<bar> \<le> 2 ^ 200 \<Longrightarrow>
      fin (f_add F x y) \<and> near (val (f_add F x y)) (val x + val y)"
    and sub_near: "fin x \<Longrightarrow> fin y \<Longrightarrow> \<bar>val x - val y\<bar> \<le> 2 ^ 200 \<Longrightarrow>
      fin (f_sub F x y) \<and> near (val (f_sub F x y)) (val x - val y)"
    and mul_near: "fin x \<Longrightarrow> fin y \<Longrightarrow> \<bar>val x * val y\<bar> \<le> 2 ^ 200 \<Longrightarrow>
      fin (f_mul F x y) \<and> near (val (f_mul F x y)) (val x * val y)"
    and mul_large: "0 < n \<Longrightarrow> n \<le> 2 ^ 53 \<Longrightarrow> f_le F (f_int F (2 ^ 52)) x \<Longrightarrow>
      f_le F (f_int F (2 ^ 52)) (f_mul F (f_int F n) x)"
    and pow_whole: "0 < m \<Longrightarrow> m \<le> 2 ^ 53 \<Longrightarrow> 0 \<le> k \<Longrightarrow> k < 2 ^ 63 \<Longrightarrow> m ^ nat k \<le> 2 ^ 53 \<Longrightarrow>
      fin (f_pow F (f_int F m) (f_int F k)) \<and> val (f_pow F (f_int F m) (f_int F k)) = rat_of_int (m ^ nat k)"
    and pow_large: "0 < m \<Longrightarrow> m \<le> 2 ^ 53 \<Longrightarrow> 0 \<le> k \<Longrightarrow> k < 2 ^ 63 \<Longrightarrow> 2 ^ 53 < m ^ nat k \<Longrightarrow>
      f_le F (f_int F (2 ^ 52)) (f_pow F (f_int F m) (f_int F k))"
    and dur_trunc: "fin x \<Longrightarrow> \<bar>val x\<bar> < 2 ^ 63 \<Longrightarrow> f_dur F x = trunc_rat (val x)"
    and dur_large: "f_le F (f_int F (2 ^ 52)) x \<Longrightarrow> f_dur F x < 0 \<or> 2 ^ 52 \<le> f_dur F x"
    and rand_unit: "\<exists>x w'. f_rand F w = Some (Ret x, w') \<and> fin x \<and> 0 \<le> val x \<and> val x < 1"

section \<open>The two halves of the delay\<close>

definition plain_delay :: "('f, 'w) float64 \<Rightarrow> ('f, 'w) retryPolicy \<Rightarrow> int \<Rightarrow> duration" where
  "plain_delay F p attempt =
     (let d = f_dur F (f_mul F (f_int F (baseDelay p)) (f_pow F (multiplier p)
                (f_int F (max attempt 1 - 1))))
      in if d < 0 \<or> maxDelay p < d then maxDelay p else d)"

definition jitter_delay :: "('f, 'w) float64 \<Rightarrow> ('f, 'w) retryPolicy \<Rightarrow> duration \<Rightarrow> (duration, 'w) prog" where
  "jitter_delay F p delay =
     (if f_le F (jitterRatio p) (f_int F 0) then pret delay
      else let delta = f_mul F (f_int F delay) (jitterRatio p);
               lo = f_sub F (f_int F delay) delta;
               hi = f_add F (f_int F delay) delta
           in if f_le F hi lo then pret delay
              else pbind (f_rand F) (\<lambda>x.
                 let j = f_add F lo (f_mul F x (f_sub F hi lo));
                     t = f_dur F (if f_less F j (f_int F 0) then f_int F 0 else j)
                 in pret (if maxDelay p < t then maxDelay p else t)))"

lemma backoffDelay_split: "backoffDelay F p attempt = jitter_delay F p (plain_delay F p attempt)"
proof -
  have "(if attempt < 1 then 1 else attempt) = max attempt 1" by simp
  then show ?thesis
    unfolding backoffDelay_def plain_delay_def jitter_delay_def Let_def by (simp only:)
qed

lemma plain_delay_bounds: "0 \<le> maxDelay p \<Longrightarrow> 0 \<le> plain_delay F p attempt \<and> plain_delay F p attempt \<le> maxDelay p"
  by (simp add: plain_delay_def Let_def)

context go_float begin

lemma int_vals [simp]: "fin (f_int F 0)" "fin (f_int F 1)" "val (f_int F 0) = 0" "val (f_int F 1) = 1"
  using int_exact [of 0] int_exact [of 1] by simp_all

lemma dur_near:
  assumes "fin x" and "near (val x) (rat_of_int n)" and "0 < n"
  shows "if n \<le> 2 ^ 53 then f_dur F x = n else f_dur F x < 0 \<or> 2 ^ 52 \<le> f_dur F x"
proof (cases "n \<le> 2 ^ 53")
  case True
  then have v: "val x = rat_of_int n" using near_whole [OF assms(2)] assms(3) by auto
  have "n < 2 ^ 63" using True by simp
  then have "\<bar>n\<bar> < 2 ^ 63" using assms(3) by simp
  then have "\<bar>val x\<bar> < rat_of_int (2 ^ 63)" unfolding v by (simp only: of_int_abs [symmetric] of_int_less_iff)
  then show ?thesis using dur_trunc [OF assms(1)] v True assms(3) by (simp add: trunc_rat_def)
next
  case False
  then have "rat_of_int (2 ^ 52) \<le> rat_of_int n" by (simp only: of_int_le_iff) simp
  then have "rat_of_int (2 ^ 52) \<le> val x" using near_ge [OF assms(2), of "2 ^ 52"] by simp
  then have "f_le F (f_int F (2 ^ 52)) x" using le_val [OF _ assms(1)] int_exact [of "2 ^ 52"] by simp
  then show ?thesis using dur_large False by simp
qed

lemma mul_whole:
  assumes "fin x" and "val x = rat_of_int P" and "0 < P" and "P \<le> 2 ^ 53" and "0 < B" and "B \<le> 2 ^ 52"
  shows "fin (f_mul F (f_int F B) x) \<and> near (val (f_mul F (f_int F B) x)) (rat_of_int (B * P))"
proof -
  have B: "fin (f_int F B)" "val (f_int F B) = rat_of_int B" using int_exact [of B] assms(5,6) by auto
  have "B * P \<le> 2 ^ 52 * 2 ^ 53" using assms(3-6) by (intro mult_mono) auto
  then have "\<bar>B * P\<bar> \<le> 2 ^ 200" using assms(3,5) by (simp add: abs_le_iff)
  then have "\<bar>rat_of_int (B * P)\<bar> \<le> rat_of_int (2 ^ 200)" by (simp only: of_int_abs [symmetric] of_int_le_iff)
  then show ?thesis using mul_near [OF B(1) assms(1)] unfolding B(2) assms(2) by simp
qed

text \<open>A whole multiplier: the power is exact or large, and so is the product.\<close>

lemma dur_power:
  assumes "1 \<le> m" and "m \<le> 2 ^ 53" and "0 \<le> k" and "k < 2 ^ 63" and "0 < B" and "B \<le> 2 ^ 52"
  defines "d \<equiv> f_dur F (f_mul F (f_int F B) (f_pow F (f_int F m) (f_int F k)))"
  shows "d = B * m ^ nat k \<or> 2 ^ 52 \<le> B * m ^ nat k \<and> (d < 0 \<or> 2 ^ 52 \<le> d)"
proof -
  let ?P = "m ^ nat k"
  have m: "0 < m" and P: "0 < ?P" using assms(1) by simp_all
  have "1 * ?P \<le> B * ?P" using assms(5) P by (intro mult_right_mono) simp_all
  show ?thesis
  proof (cases "?P \<le> 2 ^ 53")
    case True
    from pow_whole [OF m assms(2-4) True] mul_whole [OF _ _ P True assms(5,6)]
    have "if B * ?P \<le> 2 ^ 53 then d = B * ?P else d < 0 \<or> 2 ^ 52 \<le> d"
      unfolding d_def using assms(5) P by (intro dur_near) auto
    then show ?thesis by (auto split: if_splits)
  next
    case False
    then have "d < 0 \<or> 2 ^ 52 \<le> d"
      unfolding d_def using assms(5,6) pow_large [OF m assms(2-4)] by (intro dur_large mul_large) auto
    moreover have "2 ^ 52 \<le> ?P" using False by simp
    then have "2 ^ 52 \<le> B * ?P" using \<open>1 * ?P \<le> B * ?P\<close> unfolding mult_1 by (rule order_trans)
    ultimately show ?thesis by blast
  qed
qed

lemma plain_delay_whole:
  assumes "multiplier p = f_int F m" and "1 \<le> m" and "m \<le> 2 ^ 53"
    and "0 < baseDelay p" and "baseDelay p \<le> maxDelay p" and "maxDelay p \<le> 2 ^ 52" and "attempt < 2 ^ 63"
  shows "plain_delay F p attempt = min (maxDelay p) (baseDelay p * m ^ nat (max attempt 1 - 1))"
proof -
  let ?k = "max attempt 1 - 1"
  have "0 < baseDelay p * m ^ nat ?k" using assms(2,4) by simp
  moreover have "0 \<le> ?k" "?k < 2 ^ 63" "baseDelay p \<le> 2 ^ 52" using assms(5-7) by auto
  note dur_power [OF assms(2,3) this(1,2) assms(4) this(3)]
  moreover have "(if d < 0 \<or> maxDelay p < d then maxDelay p else d) = min (maxDelay p) n"
    if "d = n \<or> 2 ^ 52 \<le> n \<and> (d < 0 \<or> 2 ^ 52 \<le> d)" "0 < n" for d n :: int
    using that assms(6) by auto
  ultimately show ?thesis unfolding plain_delay_def Let_def assms(1) by blast
qed

text \<open>
  The jitter: \<open>c\<close> is the whole number above the spread \<open>D * J\<close>; each rounding stays on its side of the
  whole numbers around it.
\<close>

lemma jitter_ends:
  assumes "0 \<le> D" and "D \<le> 2 ^ 52" and "fin j" and "0 \<le> val j" and "val j \<le> 1"
  defines "delta \<equiv> f_mul F (f_int F D) j" and "c \<equiv> \<lceil>rat_of_int D * val j\<rceil>"
  defines "lo \<equiv> f_sub F (f_int F D) delta" and "hi \<equiv> f_add F (f_int F D) delta"
  shows "fin lo \<and> rat_of_int (D - c) \<le> val lo \<and> val lo \<le> rat_of_int (D - c + 1)"
    and "fin hi \<and> rat_of_int (D + c - 1) \<le> val hi \<and> val hi \<le> rat_of_int (D + c)" and "0 \<le> c" and "c \<le> D"
proof -
  let ?q = "rat_of_int D * val j"
  have q: "0 \<le> ?q" "?q \<le> rat_of_int D * 1" using assms(1,4,5) by (simp, intro mult_left_mono) simp_all
  show c: "0 \<le> c" "c \<le> D" using q by (simp_all add: c_def ceiling_le_iff)
  have cq: "rat_of_int (c - 1) \<le> ?q" "?q \<le> rat_of_int c"
    unfolding c_def using ceiling_correct [of ?q] by simp_all
  have big: "rat_of_int D \<le> 2 ^ 52" using assms(2) of_int_le_iff [of D "2 ^ 52", where 'a = rat] by simp
  have D: "fin (f_int F D)" "val (f_int F D) = rat_of_int D" using int_exact [of D] assms(1,2) by simp_all
  have "\<bar>?q\<bar> \<le> 2 ^ 200" using q big by simp
  then have delta: "fin delta" "near (val delta) ?q" using mul_near [OF D(1) assms(3)] D(2) unfolding delta_def by simp_all
  have d: "rat_of_int (c - 1) \<le> val delta" "val delta \<le> rat_of_int c" "rat_of_int c \<le> rat_of_int D" "0 \<le> rat_of_int c"
    using near_ge [OF delta(2) _ cq(1)] near_le [OF delta(2) _ cq(2)] c assms(2) by simp_all
  have "\<bar>rat_of_int D - val delta\<bar> \<le> 2 ^ 200" "\<bar>rat_of_int D + val delta\<bar> \<le> 2 ^ 200" using d big by auto
  then have lo: "fin lo" "near (val lo) (rat_of_int D - val delta)" and hi: "fin hi" "near (val hi) (rat_of_int D + val delta)"
    using sub_near [OF D(1) delta(1)] add_near [OF D(1) delta(1)] unfolding D(2) lo_def hi_def by simp_all
  show "fin lo \<and> rat_of_int (D - c) \<le> val lo \<and> val lo \<le> rat_of_int (D - c + 1)"
    using lo(1) near_ge [OF lo(2), of "D - c"] near_le [OF lo(2), of "D - c + 1"] d c assms(2) by simp
  show "fin hi \<and> rat_of_int (D + c - 1) \<le> val hi \<and> val hi \<le> rat_of_int (D + c)"
    using hi(1) near_ge [OF hi(2), of "D + c - 1"] near_le [OF hi(2), of "D + c"] d c assms(2) by simp
qed

lemma jitter_point:
  assumes "fin lo" and "fin hi" and "rat_of_int a \<le> val lo" and "val lo \<le> rat_of_int (a + 1)"
    and "val lo \<le> val hi" and "val hi \<le> rat_of_int b"
    and "fin x" and "0 \<le> val x" and "val x < 1" and "0 \<le> a" and "a \<le> b" and "b < 2 ^ 53"
  defines "y \<equiv> f_add F lo (f_mul F x (f_sub F hi lo))"
  shows "fin y \<and> rat_of_int a \<le> val y \<and> val y \<le> rat_of_int (b + 1)"
proof -
  let ?s = "f_sub F hi lo" and ?m = "f_mul F x (f_sub F hi lo)"
  have big: "rat_of_int b \<le> 2 ^ 53" using assms(12) of_int_le_iff [of b "2 ^ 53", where 'a = rat] by simp
  have a: "0 \<le> rat_of_int a" using assms(10) by simp
  have "\<bar>val hi - val lo\<bar> \<le> 2 ^ 200" using assms(3,5,6) big a by simp
  then have s: "fin ?s" "near (val ?s) (val hi - val lo)" using sub_near [OF assms(2,1)] by simp_all
  have s': "0 \<le> val ?s" "val ?s \<le> rat_of_int (b - a)"
    using near_ge [OF s(2), of 0] near_le [OF s(2), of "b - a"] assms(3,5,6,10-12) by simp_all
  have xs: "0 \<le> val x * val ?s" "val x * val ?s \<le> 1 * val ?s"
    using s' assms(8,9) mult_right_mono [of "val x" 1 "val ?s"] by simp_all
  then have "\<bar>val x * val ?s\<bar> \<le> 2 ^ 200" using s' big a by simp
  then have m: "fin ?m" "near (val ?m) (val x * val ?s)" using mul_near [OF assms(7) s(1)] by simp_all
  have m': "0 \<le> val ?m" "val ?m \<le> rat_of_int (b - a)"
    using near_ge [OF m(2), of 0] near_le [OF m(2), of "b - a"] xs s' assms(10-12) by simp_all
  have "\<bar>val lo + val ?m\<bar> \<le> 2 ^ 200" using m' assms(3,4) big a by simp
  then have y: "fin y" "near (val y) (val lo + val ?m)" using add_near [OF assms(1) m(1)] unfolding y_def by simp_all
  then show ?thesis
    using near_ge [OF y(2), of a] near_le [OF y(2), of "b + 1"] m' assms(3,4,10-12) by simp
qed

lemma jitter_delay_spread:
  assumes "0 \<le> D" and "D \<le> maxDelay p" and "maxDelay p < 2 ^ 52"
    and "fin (jitterRatio p)" and "0 \<le> val (jitterRatio p)" and "val (jitterRatio p) \<le> 1"
  shows "\<exists>d w'. jitter_delay F p D w = Some (Ret d, w') \<and>
    D - \<lceil>rat_of_int D * val (jitterRatio p)\<rceil> \<le> d \<and> d \<le> D + \<lceil>rat_of_int D * val (jitterRatio p)\<rceil> + 1 \<and>
    d \<le> maxDelay p"
proof -
  let ?c = "\<lceil>rat_of_int D * val (jitterRatio p)\<rceil>"
  define lo where "lo = f_sub F (f_int F D) (f_mul F (f_int F D) (jitterRatio p))"
  define hi where "hi = f_add F (f_int F D) (f_mul F (f_int F D) (jitterRatio p))"
  have "D \<le> 2 ^ 52" using assms(2,3) by simp
  note ends = jitter_ends [OF assms(1) this assms(4-6), folded lo_def hi_def]
  note run = jitter_delay_def [of F p D, unfolded Let_def, folded lo_def hi_def]
  obtain x w' where x: "f_rand F w = Some (Ret x, w')" "fin x" "0 \<le> val x" "val x < 1" using rand_unit by blast
  let ?y = "f_add F lo (f_mul F x (f_sub F hi lo))"
  show ?thesis
  proof (cases "f_le F (jitterRatio p) (f_int F 0) \<or> f_le F hi lo")
    case True
    then show ?thesis unfolding run using ends(3) assms(2) by auto
  next
    case False
    then have "val lo \<le> val hi" using le_val [of hi lo] ends(1,2) by auto
    then have y: "fin ?y" "rat_of_int (D - ?c) \<le> val ?y" "val ?y \<le> rat_of_int (D + ?c + 1)"
      using jitter_point [of lo hi "D - ?c" "D + ?c" x] ends x(2-4) assms(2,3) by auto
    have y0: "0 \<le> val ?y" using y(2) ends(4) of_int_0_le_iff [of "D - ?c", where 'a = rat] by linarith
    have "rat_of_int (D + ?c + 1) < rat_of_int (2 ^ 63)" using ends(4) assms(2,3) by (simp only: of_int_less_iff) simp
    then have "\<bar>val ?y\<bar> < 2 ^ 63" using y(3) y0 by simp
    then have t: "f_dur F ?y = \<lfloor>val ?y\<rfloor>" "\<not> f_less F ?y (f_int F 0)"
      using dur_trunc [OF y(1)] less_val [OF y(1)] y0 by (simp_all add: trunc_rat_def)
    have "D - ?c \<le> \<lfloor>val ?y\<rfloor>" "\<lfloor>val ?y\<rfloor> \<le> D + ?c + 1" using y(2,3) by (simp_all add: le_floor_iff floor_le_iff)
    moreover have "jitter_delay F p D w = Some (Ret (if maxDelay p < \<lfloor>val ?y\<rfloor> then maxDelay p else \<lfloor>val ?y\<rfloor>), w')"
      using False x(1) t by (simp add: run pbind_apply)
    ultimately show ?thesis using ends(3) assms(2) by auto
  qed
qed

text \<open>What the constructor makes of the two ratios of a configuration.\<close>

lemma new_retry_jitter:
  assumes "fin (JitterRatio cfg)"
  shows "fin (jitterRatio (newRetryPolicy F cfg)) \<and>
    val (jitterRatio (newRetryPolicy F cfg)) = max 0 (min 1 (val (JitterRatio cfg)))"
  using assms by (simp add: newRetryPolicy_def Let_def less_val)

lemma new_retry_multiplier:
  assumes "Multiplier cfg = f_int F m" and "\<bar>m\<bar> \<le> 2 ^ 53"
  shows "multiplier (newRetryPolicy F cfg) = f_int F (if m < 1 then 2 else m)"
  using assms int_exact [OF assms(2)] by (simp add: newRetryPolicy_def Let_def less_val)

lemma backoff_whole:
  assumes "Multiplier cfg = f_int F m" and "\<bar>m\<bar> \<le> 2 ^ 53" and "fin (JitterRatio cfg)" and "val (JitterRatio cfg) \<le> 0"
    and "maxDelay (newRetryPolicy F cfg) < 2 ^ 52" and "attempt < 2 ^ 63"
  shows "backoffDelay F (newRetryPolicy F cfg) attempt = pret (min (maxDelay (newRetryPolicy F cfg))
    (baseDelay (newRetryPolicy F cfg) * (if m < 1 then 2 else m) ^ nat (max attempt 1 - 1)))"
proof -
  let ?p = "newRetryPolicy F cfg"
  have "f_le F (jitterRatio ?p) (f_int F 0)" using new_retry_jitter [OF assms(3)] assms(4) by (simp add: le_val)
  then have "backoffDelay F ?p attempt = pret (plain_delay F ?p attempt)"
    by (simp add: backoffDelay_split jitter_delay_def)
  moreover have "1 \<le> (if m < 1 then 2 else m)" "(if m < 1 then 2 else m) \<le> 2 ^ 53" using assms(2) by auto
  note plain_delay_whole [OF new_retry_multiplier [OF assms(1,2)] this]
  ultimately show ?thesis using new_retry_normal [of F cfg] assms(5,6) by simp
qed

lemma backoff_jitter:
  assumes "fin (JitterRatio cfg)" and "maxDelay (newRetryPolicy F cfg) < 2 ^ 52" and "p = newRetryPolicy F cfg"
    and "J = max 0 (min 1 (val (JitterRatio cfg)))"
  shows "\<exists>D d w'. backoffDelay F (p\<lparr>jitterRatio := f_int F 0\<rparr>) attempt = pret D \<and> 0 \<le> D \<and> D \<le> maxDelay p \<and>
    backoffDelay F p attempt w = Some (Ret d, w') \<and>
    D - \<lceil>rat_of_int D * J\<rceil> \<le> d \<and> d \<le> D + \<lceil>rat_of_int D * J\<rceil> + 1 \<and> d \<le> maxDelay p"
proof -
  let ?D = "plain_delay F p attempt"
  have j: "fin (jitterRatio p)" "val (jitterRatio p) = J" using new_retry_jitter [OF assms(1)] assms(3,4) by simp_all
  have D: "0 \<le> ?D" "?D \<le> maxDelay p"
    using plain_delay_bounds [of p F attempt] newRetryPolicy_maxDelay_pos [of F cfg] assms(3) by auto
  have "plain_delay F (p\<lparr>jitterRatio := f_int F 0\<rparr>) attempt = ?D" by (simp add: plain_delay_def Let_def)
  then have "backoffDelay F (p\<lparr>jitterRatio := f_int F 0\<rparr>) attempt = pret ?D"
    by (simp add: backoffDelay_split jitter_delay_def le_val)
  moreover have "0 \<le> J" "J \<le> 1" using assms(4) by auto
  then have "\<exists>d w'. jitter_delay F p ?D w = Some (Ret d, w') \<and>
      ?D - \<lceil>rat_of_int ?D * J\<rceil> \<le> d \<and> d \<le> ?D + \<lceil>rat_of_int ?D * J\<rceil> + 1 \<and> d \<le> maxDelay p"
    using jitter_delay_spread [OF D, of w] assms(2,3) j by simp
  ultimately show ?thesis using D unfolding backoffDelay_split [of F p] by blast
qed

end

section \<open>Rounding to 53 bits\<close>

text \<open>
  An instance: rationals rounded to the nearest with 53 bits, ties to the even one, for any exponent. A
  conversion out of range gives the least \<open>int64\<close>. The random source answers a fixed number of the unit
  interval. \<open>ilog x\<close> is the exponent of the greatest power of two that is not above \<open>\<bar>x\<bar>\<close>.
\<close>

definition rne :: "rat \<Rightarrow> int" where
  "rne x = (let n = \<lfloor>x\<rfloor>; d = x - rat_of_int n in
     if d < 1 / 2 then n else if 1 / 2 < d then n + 1 else if even n then n else n + 1)"

definition ilog :: "rat \<Rightarrow> int" where
  "ilog x = (case quotient_of \<bar>x\<bar> of (a, b) \<Rightarrow>
     let k = int (floorlog 2 (nat a)) - int (floorlog 2 (nat b)) in if 2 powi k \<le> \<bar>x\<bar> then k else k - 1)"

definition rnd :: "rat \<Rightarrow> rat" where
  "rnd x = (if x = 0 then 0 else let u = 2 powi (ilog x - 52) in rat_of_int (rne (x / u)) * u)"

lemma rne_bounds:
  shows "rat_of_int n \<le> x \<Longrightarrow> n \<le> rne x" and "x \<le> rat_of_int n \<Longrightarrow> rne x \<le> n"
proof -
  show "n \<le> rne x" if "rat_of_int n \<le> x"
    using that le_floor_iff [of n x] by (auto simp: rne_def Let_def)
  show "rne x \<le> n" if "x \<le> rat_of_int n"
  proof (cases "\<lfloor>x\<rfloor> = n")
    case True
    then have "x - rat_of_int \<lfloor>x\<rfloor> = 0" using that of_int_floor_le [of x] by linarith
    then show ?thesis using True by (simp add: rne_def Let_def)
  next
    case False
    have "\<lfloor>x\<rfloor> \<le> n" using floor_mono [OF that] by simp
    then show ?thesis using False by (auto simp: rne_def Let_def)
  qed
qed

lemma ilog_le:
  assumes "x \<noteq> 0"
  shows "2 powi (ilog x) \<le> \<bar>x\<bar>"
proof -
  obtain a b where q: "quotient_of \<bar>x\<bar> = (a, b)" by fastforce
  have b: "0 < b" and x: "\<bar>x\<bar> = rat_of_int a / rat_of_int b"
    using quotient_of_denom_pos [OF q] quotient_of_div [OF q] by simp_all
  have a: "0 < a" using assms b x by (metis zero_less_abs_iff of_int_0_less_iff zero_less_divide_iff less_asym)
  let ?la = "floorlog 2 (nat a)" and ?lb = "floorlog 2 (nat b)"
  have la: "2 ^ (?la - 1) \<le> nat a" and lb: "nat b < 2 ^ ?lb" and pos: "0 < ?la"
    using floorlog_bounds [of "nat a" 2] floorlog_bounds [of "nat b" 2] a b by (auto simp: floorlog_def)
  have "2 powi (int ?la - int ?lb - 1) = (2 :: rat) ^ (?la - 1) / 2 ^ ?lb"
    using pos by (simp add: power_int_diff power_diff)
  also have "\<dots> \<le> rat_of_int a / rat_of_int b"
  proof (rule frac_le)
    show "(2 :: rat) ^ (?la - 1) \<le> rat_of_int a" using la a by (metis of_nat_le_iff of_nat_power of_nat_numeral of_nat_nat less_imp_le)
    show "rat_of_int b \<le> 2 ^ ?lb" using lb b by (metis of_nat_le_iff of_nat_power of_nat_numeral of_nat_nat less_imp_le)
  qed (use b a in simp_all)
  finally show ?thesis unfolding ilog_def q using x by (simp add: Let_def)
qed

text \<open>Whole numbers up to 2^53 are fixed points, and rounding keeps on their sides.\<close>

lemma rnd_between:
  assumes "x \<noteq> 0" and "u = 2 powi (ilog x - 52)"
  shows "rat_of_int n * u \<le> x \<Longrightarrow> rat_of_int n * u \<le> rnd x" and "x \<le> rat_of_int n * u \<Longrightarrow> rnd x \<le> rat_of_int n * u"
proof -
  have u: "0 < u" using assms(2) by simp
  have r: "rnd x = rat_of_int (rne (x / u)) * u" using assms by (simp add: rnd_def Let_def)
  show "rat_of_int n * u \<le> rnd x" if "rat_of_int n * u \<le> x"
    using that rne_bounds(1) [of n "x / u"] u by (simp add: r pos_le_divide_eq)
  show "rnd x \<le> rat_of_int n * u" if "x \<le> rat_of_int n * u"
    using that rne_bounds(2) [of "x / u" n] u by (simp add: r pos_divide_le_eq)
qed

lemma rnd_near: "near (rnd x) x"
proof (cases "x = 0")
  case False
  define u :: rat where "u = 2 powi (ilog x - 52)"
  note side = rnd_between [OF False u_def]
  have "2 powi (ilog x) = 2 ^ 52 * u" by (simp add: u_def power_int_diff)
  then have lower: "2 ^ 52 * u \<le> \<bar>x\<bar>" using ilog_le [OF False] by simp
  have "(rat_of_int n \<le> x \<longrightarrow> rat_of_int n \<le> rnd x) \<and> (x \<le> rat_of_int n \<longrightarrow> rnd x \<le> rat_of_int n)"
    if n: "\<bar>n\<bar> \<le> 2 ^ 53" for n
  proof (cases "ilog x \<le> 52")
    case True
    then have "rat_of_int n = rat_of_int (n * 2 ^ nat (52 - ilog x)) * u"
      by (simp add: u_def power_int_def power_add [symmetric] field_simps)
    then show ?thesis using side [of "n * 2 ^ nat (52 - ilog x)"] by metis
  next
    case False
    then have "2 powi 1 \<le> u" unfolding u_def by (intro power_int_increasing) simp_all
    then have u: "2 \<le> u" by simp
    define y where "y = rat_of_int n"
    have y: "- (2 ^ 53) \<le> y" "y \<le> 2 ^ 53" unfolding y_def
      using n of_int_le_iff [of n "2 ^ 53", where 'a = rat] of_int_le_iff [of "- (2 ^ 53)" n, where 'a = rat] by auto
    define r where "r = rnd x"
    show ?thesis unfolding y_def [symmetric] r_def [symmetric]
      using side [of "2 ^ 52", folded r_def] side [of "- (2 ^ 52)", folded r_def] u y lower by (cases "0 \<le> x") auto
  qed
  then show ?thesis by (simp add: near_def)
qed (simp add: near_def rnd_def)

lemma rnd_whole: "\<bar>n\<bar> \<le> 2 ^ 53 \<Longrightarrow> rnd (rat_of_int n) = rat_of_int n"
  by (rule near_whole [OF rnd_near])

lemma rnd_simps [simp]:
  "rnd 0 = 0" "rnd 1 = 1" "numeral k \<le> (2 ^ 53 :: int) \<Longrightarrow> rnd (numeral k) = numeral k"
  using rnd_whole [of 1] rnd_whole [of "numeral k"] by (simp_all add: rnd_def)

definition binary64 :: "rat \<Rightarrow> (rat, 'w) float64" where
  "binary64 r = \<lparr>
     f_int = (\<lambda>n. rnd (rat_of_int n)), f_ratio = (\<lambda>x y. rnd (rat_of_int x / rat_of_int y)),
     f_dur = (\<lambda>x. if \<bar>trunc_rat x\<bar> < 2 ^ 63 then trunc_rat x else - (2 ^ 63)),
     f_add = (\<lambda>x y. rnd (x + y)), f_sub = (\<lambda>x y. rnd (x - y)), f_mul = (\<lambda>x y. rnd (x * y)),
     f_pow = (\<lambda>x y. rnd (x ^ nat \<lfloor>y\<rfloor>)),
     f_less = (<), f_le = (\<le>),
     f_rand = pret (if 0 \<le> r \<and> r < 1 then r else 0)\<rparr>"

lemma binary64_simps [simp]:
  "f_int (binary64 r) n = rnd (rat_of_int n)"
  "f_dur (binary64 r) x = (if \<bar>trunc_rat x\<bar> < 2 ^ 63 then trunc_rat x else - (2 ^ 63))"
  "f_add (binary64 r) x y = rnd (x + y)"
  "f_sub (binary64 r) x y = rnd (x - y)"
  "f_mul (binary64 r) x y = rnd (x * y)"
  "f_pow (binary64 r) x y = rnd (x ^ nat \<lfloor>y\<rfloor>)"
  "f_less (binary64 r) x y = (x < y)"
  "f_le (binary64 r) x y = (x \<le> y)"
  "f_rand (binary64 r) = pret (if 0 \<le> r \<and> r < 1 then r else 0)"
  by (simp_all add: binary64_def)

text \<open>The powers: a base of two or more and an exponent that is itself rounded give a large one.\<close>

lemma rnd_exponent:
  assumes "0 \<le> k"
  shows "if k \<le> 2 ^ 53 then nat \<lfloor>rnd (rat_of_int k)\<rfloor> = nat k else 54 \<le> nat \<lfloor>rnd (rat_of_int k)\<rfloor> \<and> 54 \<le> nat k"
proof (cases "k \<le> 2 ^ 53")
  case False
  have nat: "54 \<le> z \<Longrightarrow> 54 \<le> nat z" for z by simp
  have "rat_of_int 54 \<le> rat_of_int k" using False by (simp only: of_int_le_iff) simp
  then have "rat_of_int 54 \<le> rnd (rat_of_int k)" by (intro near_ge [OF rnd_near]) simp_all
  then have "54 \<le> nat \<lfloor>rnd (rat_of_int k)\<rfloor>" by (intro nat) (simp only: le_floor_iff)
  then show ?thesis using False nat [of k] by (simp only: if_False) simp
qed (simp add: rnd_whole assms)

lemma rnd_power:
  assumes "0 < m" and "m \<le> 2 ^ 53" and "0 \<le> k"
  defines "P \<equiv> rnd (rnd (rat_of_int m) ^ nat \<lfloor>rnd (rat_of_int k)\<rfloor>)"
  shows "if m ^ nat k \<le> 2 ^ 53 then P = rat_of_int (m ^ nat k) else 2 ^ 52 \<le> P"
proof -
  let ?j = "nat \<lfloor>rnd (rat_of_int k)\<rfloor>"
  have P: "P = rnd (rat_of_int (m ^ ?j))" using assms(1,2) by (simp add: P_def rnd_whole)
  have big: "2 ^ 52 \<le> P" if "2 ^ 53 \<le> m ^ ?j"
  proof -
    have "rat_of_int (2 ^ 52) \<le> rat_of_int (m ^ ?j)" using that by (simp only: of_int_le_iff) simp
    then show ?thesis unfolding P using near_ge [OF rnd_near, of "2 ^ 52"] by simp
  qed
  consider "m = 1" | "2 \<le> m" "k \<le> 2 ^ 53" | "2 \<le> m" "2 ^ 53 < k" using assms(1) by linarith
  then show ?thesis
  proof cases
    case 2
    then have "?j = nat k" using rnd_exponent [OF assms(3)] by simp
    then show ?thesis using P big assms(1) by (auto intro!: rnd_whole simp del: of_int_power)
  next
    case 3
    have m: "2 ^ 53 < m ^ i" if "54 \<le> i" for i
    proof -
      have "(2 :: int) ^ 53 < 2 ^ 54" by simp
      also have "(2 :: int) ^ 54 \<le> m ^ 54" using 3(1) by (intro power_mono) simp_all
      also have "\<dots> \<le> m ^ i" using that 3(1) by (intro power_increasing) simp_all
      finally show ?thesis .
    qed
    have j: "54 \<le> ?j" "54 \<le> nat k" using rnd_exponent [OF assms(3)] 3(2) by auto
    have "\<not> m ^ nat k \<le> 2 ^ 53" and "2 ^ 52 \<le> P" using m [OF j(2)] big [OF less_imp_le [OF m [OF j(1)]]] by simp_all
    then show ?thesis by (simp only: if_False)
  qed (simp add: P)
qed

interpretation b64: go_float "binary64 r" "\<lambda>_. True" "\<lambda>x. x" for r
proof
  fix n m k :: int and x :: rat
  show "True \<and> f_int (binary64 r) n = rat_of_int n" if "\<bar>n\<bar> \<le> 2 ^ 53" using that by (simp add: rnd_whole)
  have two: "rnd (rat_of_int (2 ^ 52)) = 2 ^ 52" using rnd_whole [of "2 ^ 52"] by simp
  show "f_le (binary64 r) (f_int (binary64 r) (2 ^ 52)) (f_mul (binary64 r) (f_int (binary64 r) n) x)"
    if "0 < n" "n \<le> 2 ^ 53" "f_le (binary64 r) (f_int (binary64 r) (2 ^ 52)) x"
  proof -
    have "1 * 2 ^ 52 \<le> rat_of_int n * x" using that two by (intro mult_mono) simp_all
    then show ?thesis using near_ge [OF rnd_near, of "2 ^ 52" "rat_of_int n * x"] that(1,2) two by (simp add: rnd_whole)
  qed
  show "True \<and> f_pow (binary64 r) (f_int (binary64 r) m) (f_int (binary64 r) k) = rat_of_int (m ^ nat k)"
    if "0 < m" "m \<le> 2 ^ 53" "0 \<le> k" "m ^ nat k \<le> 2 ^ 53" using rnd_power [OF that(1-3)] that(4) by simp
  show "f_le (binary64 r) (f_int (binary64 r) (2 ^ 52)) (f_pow (binary64 r) (f_int (binary64 r) m) (f_int (binary64 r) k))"
    if "0 < m" "m \<le> 2 ^ 53" "0 \<le> k" "2 ^ 53 < m ^ nat k" using rnd_power [OF that(1-3)] that(4) two by simp
  show "f_dur (binary64 r) x < 0 \<or> 2 ^ 52 \<le> f_dur (binary64 r) x" if "f_le (binary64 r) (f_int (binary64 r) (2 ^ 52)) x"
    using that two by (auto simp: trunc_rat_def le_floor_iff)
  show "f_dur (binary64 r) x = trunc_rat x" if "\<bar>x\<bar> < 2 ^ 63"
  proof -
    have "\<lfloor>x\<rfloor> < 2 ^ 63" "- (2 ^ 63) < \<lceil>x\<rceil>" using that by (simp_all add: floor_less_iff less_ceiling_iff)
    moreover have "0 \<le> x \<Longrightarrow> 0 \<le> \<lfloor>x\<rfloor>" "\<not> 0 \<le> x \<Longrightarrow> \<lceil>x\<rceil> \<le> 0" by simp_all
    ultimately have "\<bar>trunc_rat x\<bar> < 2 ^ 63"
      unfolding trunc_rat_def by (metis abs_of_nonneg abs_of_nonpos minus_less_iff)
    then show ?thesis by simp
  qed
qed (simp_all add: rnd_near)

section \<open>The delay in numbers\<close>

text \<open>
  C22: with a whole multiplier (2 unless the configuration has another), no jitter and a maximum below
  2^52 nanoseconds (52 days), the wait after attempt \<open>n\<close> of the policy that \<open>NewRetryPolicy\<close> makes is
  \<open>min maxDelay (baseDelay * multiplier ^ (n - 1))\<close>, to the nanosecond and for every \<open>n\<close>, whatever float64
  arithmetic that keeps the laws of \<open>go_float\<close>: a product that no longer fits a duration, and converts to
  the least or the greatest one, is caught and gives the maximum.
\<close>

theorem backoffDelay_exact:
  assumes "go_float F fin val" and "Multiplier cfg = f_int F m" and "\<bar>m\<bar> \<le> 2 ^ 53"
    and "fin (JitterRatio cfg)" and "val (JitterRatio cfg) \<le> 0"
    and "p = newRetryPolicy F cfg" and "maxDelay p < 2 ^ 52" and "attempt < 2 ^ 63"
  shows "backoffDelay F p attempt =
    pret (min (maxDelay p) (baseDelay p * (if m < 1 then 2 else m) ^ nat (max attempt 1 - 1)))"
  using go_float.backoff_whole [OF assms(1-5)] assms(6-8) by simp

definition sample_retry :: "(rat, world) RetryPolicyConfig" where
  "sample_retry = \<lparr>MaxAttempts = 80, BaseDelay = 100 * millisecond, MaxDelay = 2 * second,
     Multiplier = 2, JitterRatio = 0, Retryable = None\<rparr>"

lemma sample_retry_facts:
  "baseDelay (newRetryPolicy F sample_retry) = 100 * millisecond" "maxDelay (newRetryPolicy F sample_retry) = 2 * second"
  by (simp_all add: newRetryPolicy_def Let_def sample_retry_def millisecond_def second_def)

theorem backoffDelay_exact_witness:
  "backoffDelay (binary64 0) (newRetryPolicy (binary64 0) sample_retry) 3 = pret (400 * millisecond) \<and>
   backoffDelay (binary64 0) (newRetryPolicy (binary64 0) sample_retry) 79 = pret (2 * second)"
proof -
  have h: "Multiplier sample_retry = f_int (binary64 0) 2" "\<bar>2 :: int\<bar> \<le> 2 ^ 53" "JitterRatio sample_retry \<le> 0"
    "maxDelay (newRetryPolicy (binary64 0) sample_retry) < 2 ^ 52" "(3 :: int) < 2 ^ 63" "(79 :: int) < 2 ^ 63"
    by (simp_all add: sample_retry_facts second_def millisecond_def) (simp_all add: sample_retry_def)
  note d = backoffDelay_exact [OF b64.go_float_axioms h(1,2) TrueI h(3) refl h(4)]
  show ?thesis using d [OF h(5)] d [OF h(6)] by (simp add: sample_retry_facts millisecond_def second_def)
qed

text \<open>
  C23: the jitter moves the wait by at most its ratio, cut to the unit interval, of the wait without
  jitter, and one nanosecond more upwards for rounding: with \<open>D\<close> the wait of the same policy without
  jitter, whatever its multiplier, and \<open>s = \<lceil>D * ratio\<rceil>\<close>, a wait between \<open>D - s\<close> and \<open>D + s + 1\<close> is
  answered, never above the maximum (below 2^52 nanoseconds), for any float64 arithmetic that keeps the
  laws of \<open>go_float\<close>.
\<close>

theorem backoffDelay_jitter:
  assumes "go_float F fin val" and "fin (JitterRatio cfg)" and "J = max 0 (min 1 (val (JitterRatio cfg)))"
    and "p = newRetryPolicy F cfg" and "maxDelay p < 2 ^ 52"
  shows "\<exists>D d w'. backoffDelay F (p\<lparr>jitterRatio := f_int F 0\<rparr>) attempt = pret D \<and> 0 \<le> D \<and> D \<le> maxDelay p \<and>
    backoffDelay F p attempt w = Some (Ret d, w') \<and>
    D - \<lceil>rat_of_int D * J\<rceil> \<le> d \<and> d \<le> D + \<lceil>rat_of_int D * J\<rceil> + 1 \<and> d \<le> maxDelay p"
  using go_float.backoff_jitter [OF assms(1,2) _ assms(4,3)] assms(4,5) by simp

definition jittery_retry :: "(rat, world) RetryPolicyConfig" where
  "jittery_retry = sample_retry\<lparr>JitterRatio := 1 / 4\<rparr>"

theorem backoffDelay_jitter_witness:
  "\<exists>d w'. backoffDelay (binary64 (1 / 2)) (newRetryPolicy (binary64 (1 / 2)) jittery_retry) 3 start_world = Some (Ret d, w') \<and>
     300 * millisecond \<le> d \<and> d \<le> 500 * millisecond + 1"
proof -
  let ?F = "binary64 (1 / 2)" and ?p = "newRetryPolicy (binary64 (1 / 2)) jittery_retry"
  have m: "maxDelay ?p = 2 * second" "baseDelay ?p = 100 * millisecond" "multiplier ?p = 2"
    by (simp_all add: newRetryPolicy_def Let_def jittery_retry_def sample_retry_def millisecond_def second_def)
  have h: "maxDelay ?p < 2 ^ 52" "1 / 4 = max 0 (min 1 (JitterRatio jittery_retry))"
    by (simp_all only: m) (simp_all add: second_def millisecond_def jittery_retry_def)
  have "plain_delay ?F (?p\<lparr>jitterRatio := f_int ?F 0\<rparr>) 3 = 400 * millisecond"
    by (subst b64.plain_delay_whole [where m = 2]) (simp_all add: m millisecond_def second_def)
  then have D: "backoffDelay ?F (?p\<lparr>jitterRatio := f_int ?F 0\<rparr>) 3 = pret (400 * millisecond)"
    by (simp add: backoffDelay_split jitter_delay_def)
  show ?thesis using backoffDelay_jitter [OF b64.go_float_axioms TrueI h(2) refl h(1), of 3 start_world] D
    by (auto simp: pret_def fun_eq_iff millisecond_def)
qed

section \<open>Which errors are retried\<close>

lemma defaultRetryable_context:
  "defaultRetryable None = Ret False"
  "errors_is err CtxCanceled \<Longrightarrow> defaultRetryable err = Ret False"
  "\<not> errors_is err CtxCanceled \<Longrightarrow> errors_is err CtxDeadline \<Longrightarrow> defaultRetryable err = Ret True"
  by (cases err; simp add: defaultRetryable_def)+

lemma defaultRetryable_kind:
  assumes "err \<noteq> None" "\<not> errors_is err CtxCanceled" "\<not> errors_is err CtxDeadline" "KindOf err = Ret k"
    and "k \<in> {ErrorKindUnknown, ErrorKindCanceled, ErrorKindTimeout, ErrorKindTemporary,
           ErrorKindConnRefused, ErrorKindDNS, ErrorKindTLS, ErrorKindClosed, ErrorKindNetwork,
           ErrorKindCodec}"
  shows "defaultRetryable err = Ret (k \<in> {ErrorKindTimeout, ErrorKindTemporary,
           ErrorKindConnRefused, ErrorKindDNS, ErrorKindNetwork})"
  using assms by (auto simp: defaultRetryable_def kind_defs)

lemma defaultRetryable_panics_iff:
  "defaultRetryable err = Panic \<longleftrightarrow>
     err \<noteq> None \<and> \<not> errors_is err CtxCanceled \<and> \<not> errors_is err CtxDeadline \<and> KindOf err = Panic"
  by (cases "KindOf err") (auto simp: defaultRetryable_def split: option.split)

lemma errors_is_WrapError:
  "\<not> is_client_error t \<Longrightarrow> errors_is (WrapError L p op addr err) t = errors_is err t"
  by (simp add: WrapError_def errors_is_wrapped)

text \<open>
  C24: how the default decision and the classification fit together, for an error a client wraps for
  the first time. It is retried exactly when it holds no \<open>context.Canceled\<close> and was classified as a
  timeout, a refused connection, a failed name resolution or another network failure: never when
  the connection was already closed, TLS failed, or the cause is unknown.
\<close>

theorem defaultRetryable_WrapError:
  assumes "errors_as is_client_error (Some e) = None"
  shows "defaultRetryable (WrapError L p op addr (Some e)) =
    Ret (classifyErrorKind L (Some e) \<in>
      {ErrorKindTimeout, ErrorKindConnRefused, ErrorKindDNS, ErrorKindNetwork})"
proof -
  let ?k = "classifyErrorKind L (Some e)"
  have kind: "KindOf (WrapError L p op addr (Some e)) = Ret ?k"
    using assms by (simp add: WrapError_def KindOf_wrapped)
  have same: "errors_is (WrapError L p op addr (Some e)) t = errors_is (Some e) t"
    if "\<not> is_client_error t" for t using that by (rule errors_is_WrapError)
  consider "errors_is (Some e) CtxCanceled" | "\<not> errors_is (Some e) CtxCanceled" "errors_is (Some e) CtxDeadline"
    | "\<not> errors_is (Some e) CtxCanceled" "\<not> errors_is (Some e) CtxDeadline" by blast
  then show ?thesis
  proof cases
    case 1
    then have "?k = ErrorKindCanceled" by (simp add: classifyErrorKind_def classifyContextError_def)
    moreover have "defaultRetryable (WrapError L p op addr (Some e)) = Ret False"
      using 1 by (intro defaultRetryable_context) (simp add: same)
    ultimately show ?thesis by (simp add: kind_defs)
  next
    case 2
    then have "?k = ErrorKindTimeout" by (simp add: classifyErrorKind_def classifyContextError_def)
    moreover have "defaultRetryable (WrapError L p op addr (Some e)) = Ret True"
      using 2 by (intro defaultRetryable_context) (simp_all add: same)
    ultimately show ?thesis by simp
  next
    case 3
    have range: "?k \<in> {ErrorKindUnknown, ErrorKindCanceled, ErrorKindTimeout, ErrorKindConnRefused,
        ErrorKindDNS, ErrorKindTLS, ErrorKindClosed, ErrorKindNetwork}"
      by (rule classify_kinds)
    have "defaultRetryable (WrapError L p op addr (Some e)) =
        Ret (?k \<in> {ErrorKindTimeout, ErrorKindTemporary, ErrorKindConnRefused, ErrorKindDNS, ErrorKindNetwork})"
    proof (rule defaultRetryable_kind [OF _ _ _ kind])
      show "WrapError L p op addr (Some e) \<noteq> None" by (simp add: WrapError_def)
      show "\<not> errors_is (WrapError L p op addr (Some e)) CtxCanceled" using 3 by (simp add: same)
      show "\<not> errors_is (WrapError L p op addr (Some e)) CtxDeadline" using 3 by (simp add: same)
    qed (use range in blast)
    then show ?thesis using range by (auto simp: kind_defs)
  qed
qed

theorem defaultRetryable_WrapError_witness:
  "errors_as is_client_error (Some (Errno ECONNREFUSED)) = None \<and>
   defaultRetryable (WrapError plain_lib ProtocolTCP ''dial'' ''h:1''
     (Some (OpError ''dial'' ''tcp'' None None (Errno ECONNREFUSED)))) = Ret True"
proof -
  let ?e = "OpError ''dial'' ''tcp'' None None (Errno ECONNREFUSED)"
  have h: "errors_as is_client_error (Some ?e) = None" by (simp add: errors_as_def)
  have "classifyErrorKind plain_lib (Some ?e) = ErrorKindConnRefused"
    by (simp add: classify_order errors_as_def errors_is_def isConnRefused.simps
        errno_defs)
  then show ?thesis
    using defaultRetryable_WrapError [OF h, of plain_lib ProtocolTCP "''dial''" "''h:1''"]
    by (simp add: errors_as_def)
qed

section \<open>The retry policy in the engine\<close>

text \<open>What the engine's theorems ask of a policy, for this one.\<close>

lemma stops_at_NewRetryPolicy:
  "stops_at (maxAttempts (newRetryPolicy F cfg)) (NewRetryPolicy F cfg)"
  by (auto simp: stops_at_def NewRetryPolicy_def retryShouldRetry_def Let_def)

lemma returns_backoffDelay: "returns (f_rand F) \<Longrightarrow> returns (backoffDelay F p attempt)"
  unfolding backoffDelay_def Let_def by (auto intro!: returns_pbind)

lemma returns_NewRetryPolicy:
  assumes "returns (f_rand F)" and "\<forall>f err. Retryable cfg = Some f \<longrightarrow> returns (f err)"
  shows "policy_returns (NewRetryPolicy F cfg)"
proof -
  have "returns (retryable (newRetryPolicy F cfg) err)" for err
    using assms(2) by (simp add: newRetryPolicy_def Let_def split: option.split)
  then have "returns (retryShouldRetry F (newRetryPolicy F cfg) c operation attempt err)"
    for c operation attempt err
    unfolding retryShouldRetry_def using returns_backoffDelay [OF assms(1)]
    by (auto intro!: returns_pbind)
  then show ?thesis by (simp add: policy_returns_def NewRetryPolicy_def Let_def)
qed

lemma keeps_backoffDelay: "keeps f (f_rand F) \<Longrightarrow> keeps f (backoffDelay F p attempt)"
  unfolding backoffDelay_def Let_def by (auto intro!: keeps_pbind)

lemma keeps_NewRetryPolicy:
  assumes "keeps f (f_rand F)" and "\<forall>g err. Retryable cfg = Some g \<longrightarrow> keeps f (g err)"
  shows "policy_keeps f (NewRetryPolicy F cfg)"
proof -
  have "keeps f (retryable (newRetryPolicy F cfg) err)" for err
    using assms(2) by (simp add: newRetryPolicy_def Let_def split: option.split)
  then have "keeps f (retryShouldRetry F (newRetryPolicy F cfg) c operation attempt err)"
    for c operation attempt err
    unfolding retryShouldRetry_def using keeps_backoffDelay [OF assms(1)]
    by (auto intro!: keeps_pbind)
  then show ?thesis by (simp add: policy_keeps_def NewRetryPolicy_def Let_def)
qed

section \<open>A call that is retried\<close>

text \<open>For the witnesses: a policy of three attempts, and a function that fails once and then succeeds.\<close>

definition sample_cfg :: "(rat, 'w) RetryPolicyConfig" where
  "sample_cfg = \<lparr>MaxAttempts = 3, BaseDelay = 10, MaxDelay = 40, Multiplier = 2, JitterRatio = 0,
     Retryable = Some (\<lambda>err. pret True)\<rparr>"

definition sample_policy :: "'u world_scheme policy" where
  "sample_policy = NewRetryPolicy (binary64 0) sample_cfg"

lemma sample_policy_facts:
  "maxAttempts (newRetryPolicy (binary64 0) sample_cfg) = 3"
  "maxDelay (newRetryPolicy (binary64 0) sample_cfg) = 40"
  "stops_at 3 sample_policy" "policy_returns sample_policy" "policy_keeps f sample_policy"
proof -
  show m: "maxAttempts (newRetryPolicy (binary64 0) sample_cfg) = 3"
    and "maxDelay (newRetryPolicy (binary64 0) sample_cfg) = 40"
    by (simp_all add: newRetryPolicy_def sample_cfg_def Let_def)
  show "stops_at 3 sample_policy"
    using stops_at_NewRetryPolicy [of "binary64 0" sample_cfg] by (simp add: sample_policy_def m)
  show "policy_returns sample_policy"
    unfolding sample_policy_def by (rule returns_NewRetryPolicy) (simp_all add: sample_cfg_def)
  show "policy_keeps f sample_policy"
    unfolding sample_policy_def by (rule keeps_NewRetryPolicy) (simp_all add: sample_cfg_def)
qed

definition flaky :: "ctx option \<Rightarrow> (nat \<times> go_error option, 'u traced_world_scheme) prog" where
  "flaky c = pget (\<lambda>w. if count_list (trace w) EvExec < 2 then (0, Some ErrEOF) else (7, None))"

lemma flaky_returns [simp]: "returns (flaky c)" "keeps f (flaky c)"
  by (simp_all add: flaky_def)

lemma flaky_run:
  obtains w' where "invokeLoop plain_lib Background sample_operation (traced_fn flaky)
      (traced_policies 0 [sample_policy]) 0 1 traced_start = Some (Ret (7, None), w')"
    "trace w' = [EvBefore 0, EvExec, EvAfter 0, EvBefore 0, EvExec, EvAfter 0]"
proof -
  have "\<exists>w'. invokeLoop plain_lib Background sample_operation (traced_fn flaky)
      (traced_policies 0 [sample_policy]) 0 1 traced_start = Some (Ret (7, None), w') \<and>
      trace w' = [EvBefore 0, EvExec, EvAfter 0, EvBefore 0, EvExec, EvAfter 0]"
    by (simp add: invokeLoop.simps [of plain_lib Background] invokeAttempt_def applyAfterPolicies_def
        callPolicyBefore_def callPolicyAfter_def wrapPolicyBeforeError_def wrapPolicyAfterError_def
        retryOrReturn_def decideRetry_def callShouldRetry_def sample_policy_def NewRetryPolicy_def
        retryShouldRetry_def newRetryPolicy_def sample_cfg_def backoffDelay_def traced_start_def
        traced_fn_def traced_policy_def log_event_def flaky_def ctx_err_def sleepWithContext_def
        trunc_rat_def prog_simps Let_def)
  then show thesis using that by blast
qed

theorem invokeLoop_trace_witness:
  "\<exists>w'. invokeLoop plain_lib Background sample_operation (traced_fn flaky)
      (traced_policies 0 [sample_policy]) 0 1 traced_start = Some (Ret (7, None), w') \<and>
    (\<exists>m. \<exists>k \<le> 1. trace w' = concat (replicate m (attempt_trace 1 1)) @ attempt_trace 1 k)"
proof -
  obtain w' where w': "invokeLoop plain_lib Background sample_operation (traced_fn flaky)
      (traced_policies 0 [sample_policy]) 0 1 traced_start = Some (Ret (7, None), w')"
    by (rule flaky_run)
  have "\<forall>p \<in> set [sample_policy :: traced_world policy]. policy_keeps trace p"
    by (simp add: sample_policy_facts)
  moreover have "\<forall>c. keeps trace (flaky c :: (_, traced_world) prog)" by simp
  ultimately show ?thesis using invokeLoop_trace [OF w'] w' by (simp add: traced_start_def)
qed

theorem invokeLoop_executions_witness:
  "\<exists>w'. invokeLoop plain_lib Background sample_operation (traced_fn flaky)
      (traced_policies 0 [sample_policy]) 0 1 traced_start = Some (Ret (7, None), w') \<and>
    count_list (trace w') EvExec \<le> 3"
proof -
  obtain w' where w': "invokeLoop plain_lib Background sample_operation (traced_fn flaky)
      (traced_policies 0 [sample_policy]) 0 1 traced_start = Some (Ret (7, None), w')"
    by (rule flaky_run)
  have "\<forall>p \<in> set [sample_policy :: traced_world policy]. policy_keeps trace p \<and> stops_at 3 p"
    by (simp add: sample_policy_facts)
  moreover have "\<forall>c. keeps trace (flaky c :: (_, traced_world) prog)" by simp
  ultimately have "count_list (trace w') EvExec \<le> count_list (trace traced_start) EvExec + nat (3 - 1) + 1"
    by (rule invokeLoop_executions [OF w'])
  then show ?thesis using w' by (auto simp: traced_start_def)
qed

theorem invokeLoop_returns_witness:
  "invokeLoop plain_lib Background sample_operation (\<lambda>c. pret (0 :: nat, Some ErrEOF))
     [sample_policy] 0 1 start_world \<noteq> None"
  by (rule invokeLoop_returns [of _ 3]) (simp_all add: sample_policy_facts)

theorem invokeLoop_success_witness:
  "\<exists>c w1 w2. traced_fn flaky c w1 = Some (Ret (7, None), w2 :: traced_world)"
proof -
  obtain w' where w': "invokeLoop plain_lib Background sample_operation (traced_fn flaky)
      (traced_policies 0 [sample_policy]) 0 1 traced_start = Some (Ret (7, None), w')"
    by (rule flaky_run)
  show ?thesis by (rule invokeLoop_success [OF w'])
qed

theorem applyAfterPolicies_carries_witness:
  "\<exists>e' w'. applyAfterPolicies plain_lib None
        [PolicyFuncs None (Some (\<lambda>_ _ _. pret (Some ErrEOF))), PolicyFuncs None (Some (\<lambda>_ _ _. ppanic))]
        sample_operation (Some CtxDeadline) start_world = Some (Ret e', w') \<and>
      carries e' (Some CtxDeadline)"
proof -
  obtain e' w' where r: "applyAfterPolicies plain_lib None
        [PolicyFuncs None (Some (\<lambda>_ _ _. pret (Some ErrEOF))), PolicyFuncs None (Some (\<lambda>_ _ _. ppanic))]
        sample_operation (Some CtxDeadline) start_world = Some (Ret e', w')"
    by (simp add: applyAfterPolicies_def callPolicyAfter_def wrapPolicyAfterError_def PolicyFuncs_def prog_simps)
  show ?thesis using applyAfterPolicies_carries [OF r] r by blast
qed

theorem decideRetry_wait_bounds_witness:
  "\<exists>b d w'. decideRetry (Some Background) [sample_policy] sample_operation 1 (Some ErrEOF) start_world =
      Some (Ret (b, d), w') \<and> 0 \<le> d \<and> d \<le> 40"
proof -
  have run: "\<exists>d w'. decideRetry (Some Background) [sample_policy] sample_operation 1 (Some ErrEOF) start_world =
      Some (Ret (True, d), w')"
    by (simp add: decideRetry_def callShouldRetry_def sample_policy_def NewRetryPolicy_def
        retryShouldRetry_def newRetryPolicy_def sample_cfg_def backoffDelay_def start_world_def
        ctx_err_def trunc_rat_def prog_simps Let_def)
  have ps: "p \<in> set [sample_policy :: world policy] \<Longrightarrow> ShouldRetry p = None \<or>
      (\<exists>cfg. p = NewRetryPolicy (binary64 0) cfg \<and> maxDelay (newRetryPolicy (binary64 0) cfg) \<le> 40)" for p
    by (auto simp: sample_policy_def sample_policy_facts(2) intro!: exI [of _ sample_cfg])
  have m: "(0 :: int) \<le> 40" by simp
  show ?thesis using run decideRetry_wait_bounds [OF ps m] by blast
qed

end
