(* ===== verification/Timeout_Policy.thy ===== *)
theory Timeout_Policy
  imports Policy_Engine
begin

text \<open>
  \<^verbatim>\<open>policy_timeout.go\<close>: the policy that gives each attempt a deadline.

  \<open>Before\<close> reads the clock once here where the code reads it twice in a row. The cancel function of
  the derived context travels in a value of the context under one key, whatever the policy; the
  last section shows what follows from that.
\<close>

section \<open>The policy\<close>

definition timeoutBefore ::
  "duration \<Rightarrow> ctx option \<Rightarrow> operation \<Rightarrow> (ctx option \<times> go_error option, 'u world_scheme) prog" where
  "timeoutBefore timeout ctx operation =
     (let ctx = normalizeContext ctx in
      if timeout \<le> 0 then pret (Some ctx, None)
      else pbind (pget now) (\<lambda>t.
        if (case ctx_deadline ctx of Some deadline \<Rightarrow> deadline - t \<le> timeout | None \<Rightarrow> False)
        then pret (Some ctx, None)
        else pbind (with_timeout ctx timeout) (\<lambda>(nextCtx, cancel).
               pret (Some (ValueCtx TimeoutCancelKey (CancelFunc cancel) nextCtx), None))))"

definition timeoutAfter ::
  "ctx option \<Rightarrow> operation \<Rightarrow> go_error option \<Rightarrow> (go_error option, 'u world_scheme) prog" where
  "timeoutAfter ctx operation err =
     (case ctx of
        None \<Rightarrow> pret None
      | Some c \<Rightarrow>
          (case ctx_value c TimeoutCancelKey of
             Some (CancelFunc cancel) \<Rightarrow> pbind (cancel_ctx cancel) (\<lambda>_. pret None)
           | _ \<Rightarrow> pret None))"

definition NewTimeoutPolicy :: "duration \<Rightarrow> 'u world_scheme policy" where
  "NewTimeoutPolicy timeout =
     \<lparr>Before = timeoutBefore timeout, After = timeoutAfter, ShouldRetry = None\<rparr>"

lemma NewTimeoutPolicy_simps [simp]:
  "Before (NewTimeoutPolicy t) = timeoutBefore t"
  "After (NewTimeoutPolicy t) = timeoutAfter"
  "ShouldRetry (NewTimeoutPolicy t) = None"
  by (simp_all add: NewTimeoutPolicy_def)

section \<open>In the engine\<close>

lemma returns_NewTimeoutPolicy: "policy_returns (NewTimeoutPolicy t)"
  by (auto simp: policy_returns_def timeoutBefore_def timeoutAfter_def Let_def
      intro!: returns_pbind split: option.split ctx_val.split prod.split)

lemma stops_at_NewTimeoutPolicy: "stops_at n (NewTimeoutPolicy t)"
  by (simp add: stops_at_def)

lemma keeps_with_timeout: "(\<And>w i. f (w\<lparr>next_id := i\<rparr>) = f w) \<Longrightarrow> keeps f (with_timeout c d)"
  by (auto simp: keeps_def with_timeout_def Let_def)

lemma keeps_cancel_ctx: "(\<And>w g. f (w\<lparr>cancelled_at := g\<rparr>) = f w) \<Longrightarrow> keeps f (cancel_ctx i)"
  by (auto simp: keeps_def cancel_ctx_def)

lemma keeps_NewTimeoutPolicy:
  assumes "\<And>w i. f (w\<lparr>next_id := i\<rparr>) = f w" and "\<And>w g. f (w\<lparr>cancelled_at := g\<rparr>) = f w"
  shows "policy_keeps f (NewTimeoutPolicy t)"
  using keeps_with_timeout [OF assms(1)] keeps_cancel_ctx [OF assms(2)]
  by (auto simp: policy_keeps_def timeoutBefore_def timeoutAfter_def Let_def
      intro!: keeps_pbind split: option.split ctx_val.split prod.split)

section \<open>The deadline\<close>

text \<open>
  The specification: the deadline after a timeout is the earlier of the one there was and the one
  the timeout sets; a stack of timeouts sets the earliest of all.
\<close>

fun tighten :: "int option \<Rightarrow> int \<Rightarrow> int option" where
  "tighten None t = Some t"
| "tighten (Some d) t = Some (min d t)"

fun stack_deadline :: "int \<Rightarrow> duration list \<Rightarrow> int option \<Rightarrow> int option" where
  "stack_deadline t0 [] d = d"
| "stack_deadline t0 (t # ts) d = stack_deadline t0 ts (if t \<le> 0 then d else tighten d (t0 + t))"

lemma timeoutBefore_cases:
  assumes "timeoutBefore t c operation w = Some (r, w')"
  obtains (same) "r = Ret (Some (normalizeContext c), None)" "w' = w"
      "t \<le> 0 \<or> (\<exists>d. ctx_deadline (normalizeContext c) = Some d \<and> d - now w \<le> t)"
  | (derived) i nc where "r = Ret (Some (ValueCtx TimeoutCancelKey (CancelFunc i) nc), None)"
      "i = next_id w" "w' = w\<lparr>next_id := Suc i\<rparr>" "0 < t"
      "nc = TimerCtx i (now w + t) (normalizeContext c)"
      "\<And>d. ctx_deadline (normalizeContext c) = Some d \<Longrightarrow> now w + t < d"
proof (cases "t \<le> 0 \<or> (\<exists>d. ctx_deadline (normalizeContext c) = Some d \<and> d - now w \<le> t)")
  case True
  then have "timeoutBefore t c operation w = Some (Ret (Some (normalizeContext c), None), w)"
    by (auto simp: timeoutBefore_def Let_def prog_simps)
  then show thesis using True assms same by simp
next
  case False
  then have "timeoutBefore t c operation w =
      Some (Ret (Some (ValueCtx TimeoutCancelKey (CancelFunc (next_id w))
        (TimerCtx (next_id w) (now w + t) (normalizeContext c))), None), w\<lparr>next_id := Suc (next_id w)\<rparr>)"
    by (auto simp: timeoutBefore_def with_timeout_def Let_def prog_simps split: option.split)
  then show thesis using False assms by (intro derived [of "next_id w"]) auto
qed

lemma timeoutBefore_deadline:
  assumes "timeoutBefore t c operation w = Some (r, w')"
  shows "\<exists>c'. r = Ret (Some c', None) \<and> now w' = now w \<and>
    ctx_deadline c' = (if t \<le> 0 then ctx_deadline (normalizeContext c)
                       else tighten (ctx_deadline (normalizeContext c)) (now w + t))"
  using assms
proof (cases rule: timeoutBefore_cases)
  case same
  then show ?thesis by (auto simp: min_def)
next
  case (derived i nc)
  then show ?thesis by (cases "ctx_deadline (normalizeContext c)") (auto simp: min_def)
qed

text \<open>
  C25: the context an attempt runs with under a stack of timeout policies: all of them accept, its
  deadline is the earliest of the caller's and of those the positive timeouts set counting from
  now, and so it is done by the time any of these has passed.
\<close>

theorem timeout_stack_deadline:
  assumes "oops_ok L"
  shows "\<exists>c' applied w'.
    applyBeforePolicies L (Some c) (map NewTimeoutPolicy ts) operation w =
      Some (Ret (Some c', applied, None), w') \<and>
    applied = map NewTimeoutPolicy ts \<and>
    ctx_deadline c' = stack_deadline (now w) ts (ctx_deadline c)"
proof (induction ts arbitrary: c w)
  case (Cons t ts)
  obtain r w1 where b: "timeoutBefore t (Some c) operation w = Some (r, w1)"
    using returns_NewTimeoutPolicy [of t] unfolding policy_returns_def returns_def
    by (metis NewTimeoutPolicy_simps(1) not_None_eq old.prod.exhaust)
  from timeoutBefore_deadline [OF b] obtain c1 where r: "r = Ret (Some c1, None)"
    and now: "now w1 = now w"
    and d: "ctx_deadline c1 = (if t \<le> 0 then ctx_deadline c else tighten (ctx_deadline c) (now w + t))"
    by (auto simp: normalizeContext_def)
  have "callPolicyBefore L (Some c) (NewTimeoutPolicy t) operation w = Some (Ret (Some c1, None), w1)"
    using b r by (simp add: callPolicyBefore_def wrapPolicyBeforeError_def prog_simps)
  moreover obtain c' applied w' where
    "applyBeforePolicies L (Some c1) (map NewTimeoutPolicy ts) operation w1 =
       Some (Ret (Some c', applied, None), w')"
    "applied = map NewTimeoutPolicy ts"
    "ctx_deadline c' = stack_deadline (now w1) ts (ctx_deadline c1)"
    using Cons.IH by blast
  ultimately show ?case by (simp add: pbind_apply now d)
qed simp

theorem timeout_stack_deadline_witness:
  "\<exists>c' applied w'.
    applyBeforePolicies plain_lib (Some (TimerCtx 0 50 Background)) (map NewTimeoutPolicy [70, 0, 20])
      sample_operation start_world = Some (Ret (Some c', applied, None), w') \<and>
    ctx_deadline c' = Some 20"
  using timeout_stack_deadline [OF plain_lib_ok, of "TimerCtx 0 50 Background" "[70, 0, 20]"
      sample_operation start_world]
  by (fastforce simp: start_world_def)

section \<open>The release\<close>

text \<open>
  C26: what \<open>Before\<close> derived \<open>After\<close> cancels: once the operation is over its context is done, and
  no context made before it is touched.
\<close>

theorem timeout_release:
  assumes "timeoutBefore t (Some c) operation w = Some (Ret (Some c', None), w1)"
    and "c' \<noteq> c" and "timeoutAfter (Some c') operation e w2 = Some (r, w3)"
  shows "r = Ret None \<and> ctx_err w3 c' \<noteq> None \<and>
    (\<forall>x. next_id w \<notin> set (ctx_ids x) \<longrightarrow> ctx_err w3 x = ctx_err w2 x)"
  using assms(1)
proof (cases rule: timeoutBefore_cases)
  case same
  then show ?thesis using assms(2) by (simp add: normalizeContext_def)
next
  case (derived i nc)
  have c': "c' = ValueCtx TimeoutCancelKey (CancelFunc i) (TimerCtx i (now w + t) c)"
    using derived by (simp add: normalizeContext_def)
  then have run: "cancel_ctx i w2 = Some (Ret (), w3)" "r = Ret None"
    using assms(3) by (auto simp: timeoutAfter_def cancel_ctx_eq prog_simps)
  have "ctx_err w3 c' \<noteq> None" by (rule cancel_ctx_done [OF run(1)]) (simp add: c')
  moreover have "ctx_err w3 x = ctx_err w2 x" if "next_id w \<notin> set (ctx_ids x)" for x
    by (rule cancel_ctx_other [OF run(1)]) (use that derived in simp)
  ultimately show ?thesis using run(2) by blast
qed

theorem timeout_release_witness:
  "\<exists>c' w1 w3.
     timeoutBefore 20 (Some Background) sample_operation start_world = Some (Ret (Some c', None), w1) \<and>
     timeoutAfter (Some c') sample_operation None w1 = Some (Ret None, w3) \<and>
     ctx_err w1 c' = None \<and> ctx_err w3 c' \<noteq> None"
proof -
  let ?c = "ValueCtx TimeoutCancelKey (CancelFunc 0) (TimerCtx 0 20 Background)"
  let ?w1 = "start_world\<lparr>next_id := 1\<rparr>"
  let ?w3 = "?w1\<lparr>cancelled_at := (\<lambda>_. None)(0 := Some 0)\<rparr>"
  have b: "timeoutBefore 20 (Some Background) sample_operation start_world =
      Some (Ret (Some ?c, None), ?w1)"
    by (simp add: timeoutBefore_def with_timeout_def normalizeContext_def start_world_def Let_def prog_simps)
  have a: "timeoutAfter (Some ?c) sample_operation None ?w1 = Some (Ret None, ?w3)"
    by (simp add: timeoutAfter_def cancel_ctx_def start_world_def prog_simps)
  have "ctx_err ?w1 ?c = None" by (simp add: ctx_err_def start_world_def)
  then show ?thesis using timeout_release [OF b _ a] a b by blast
qed

section \<open>What the shared key costs\<close>

text \<open>
  C36: two timeout policies on one operation of a caller without a deadline. When the second is the tighter one, it
  derives a context of its own, and both \<open>After\<close> cancel that: the call is over, and the context of the
  first has not been cancelled; nothing but its timer ends it. Otherwise the second derives none, and what
  both cancel is the context of the first.
\<close>

theorem timeout_stack_leak:
  assumes "oops_ok L" and "0 < t1" and "0 < t2" and "ctx_done w c = None" and "ctx_deadline c = None"
    and "next_id w = i" and "\<forall>j \<in> set (ctx_ids c). j < i" and "cancelled_at w i = None"
    and "cancelled_at w (Suc i) = None"
  shows "\<exists>w'. InvokeWithPolicies L zero (Some c) operation (Some (\<lambda>_ v. Some (Ret (x, None), v\<lparr>now := now v + d\<rparr>)))
        [Some (NewTimeoutPolicy t1), Some (NewTimeoutPolicy t2)] w = Some (Ret (x, None), w') \<and> now w' = now w + d \<and>
    (if t2 < t1
     then cancelled_at w' (Suc i) = Some (now w + d) \<and> cancelled_at w' i = None \<and>
       (\<forall>t. ctx_err (w'\<lparr>now := t\<rparr>) (TimerCtx i (now w + t1) c) = (if t < now w + t1 then None else Some CtxDeadline))
     else next_id w' = Suc i \<and> cancelled_at w' i = Some (now w + d))"
proof -
  let ?c1 = "ValueCtx TimeoutCancelKey (CancelFunc i) (TimerCtx i (now w + t1) c)" and ?op = "normalizeOperation operation"
  let ?w1 = "w\<lparr>next_id := Suc i\<rparr>"
  have b1: "timeoutBefore t1 (Some c) ?op w = Some (Ret (Some ?c1, None), ?w1)"
    using assms by (simp add: timeoutBefore_def with_timeout_def normalizeContext_def Let_def prog_simps)
  note run = InvokeWithPolicies_def normalizeContext_def filterPolicies_def invokeLoop.simps [of L c] invokeAttempt_def
    applyAfterPolicies_def callPolicyBefore_def callPolicyAfter_def wrapPolicyBeforeError_def
    wrapPolicyAfterError_def pbind_apply precover_apply Let_def
  show ?thesis
  proof (cases "t2 < t1")
    case True
    let ?c2 = "ValueCtx TimeoutCancelKey (CancelFunc (Suc i)) (TimerCtx (Suc i) (now w + t2) ?c1)"
    let ?w2 = "w\<lparr>next_id := Suc (Suc i), now := now w + d\<rparr>"
    let ?w' = "?w2\<lparr>cancelled_at := (cancelled_at w)(Suc i := Some (now w + d))\<rparr>"
    have b2: "timeoutBefore t2 (Some ?c1) ?op ?w1 = Some (Ret (Some ?c2, None), w\<lparr>next_id := Suc (Suc i)\<rparr>)"
      using assms True by (simp add: timeoutBefore_def with_timeout_def normalizeContext_def Let_def prog_simps)
    have a: "timeoutAfter (Some ?c2) ?op None ?w2 = Some (Ret None, ?w')"
        "timeoutAfter (Some ?c2) ?op None ?w' = Some (Ret None, ?w')"
      using assms by (simp_all add: timeoutAfter_def cancel_ctx_def prog_simps)
    have "ctx_done (?w'\<lparr>now := t\<rparr>) c = ctx_done w c" for t
      by (rule ctx_done_cong_ids) (use assms(7) in auto)
    then have "ctx_err (?w'\<lparr>now := t\<rparr>) (TimerCtx i (now w + t1) c) = (if t < now w + t1 then None else Some CtxDeadline)" for t
      using assms(4,8) by (simp add: ctx_err_def)
    moreover have "InvokeWithPolicies L zero (Some c) operation (Some (\<lambda>_ v. Some (Ret (x, None), v\<lparr>now := now v + d\<rparr>)))
        [Some (NewTimeoutPolicy t1), Some (NewTimeoutPolicy t2)] w = Some (Ret (x, None), ?w')"
      using assms(1) a by (simp add: run b1 b2)
    ultimately show ?thesis using True assms(8) by auto
  next
    case False
    let ?w2 = "w\<lparr>next_id := Suc i, now := now w + d\<rparr>"
    let ?w' = "?w2\<lparr>cancelled_at := (cancelled_at w)(i := Some (now w + d))\<rparr>"
    have b2: "timeoutBefore t2 (Some ?c1) ?op ?w1 = Some (Ret (Some ?c1, None), ?w1)"
      using assms False by (simp add: timeoutBefore_def normalizeContext_def Let_def prog_simps)
    have a: "timeoutAfter (Some ?c1) ?op None ?w2 = Some (Ret None, ?w')"
        "timeoutAfter (Some ?c1) ?op None ?w' = Some (Ret None, ?w')"
      using assms by (simp_all add: timeoutAfter_def cancel_ctx_def prog_simps)
    have "InvokeWithPolicies L zero (Some c) operation (Some (\<lambda>_ v. Some (Ret (x, None), v\<lparr>now := now v + d\<rparr>)))
        [Some (NewTimeoutPolicy t1), Some (NewTimeoutPolicy t2)] w = Some (Ret (x, None), ?w')"
      using assms(1) a by (simp add: run b1 b2)
    then show ?thesis using False by auto
  qed
qed

theorem timeout_stack_leak_witness:
  "\<exists>w'. InvokeWithPolicies plain_lib 0 (Some Background) sample_operation
        (Some (\<lambda>_ v. Some (Ret (7 :: nat, None), v\<lparr>now := now v + 5\<rparr>)))
        [Some (NewTimeoutPolicy 30), Some (NewTimeoutPolicy 20)] start_world = Some (Ret (7, None), w') \<and>
    cancelled_at w' 1 = Some 5 \<and> cancelled_at w' 0 = None \<and> ctx_err (w'\<lparr>now := 29\<rparr>) (TimerCtx 0 30 Background) = None"
proof -
  have h: "(0 :: int) < 30" "(0 :: int) < 20" "ctx_done start_world Background = None" "ctx_deadline Background = None"
      "next_id start_world = 0" "\<forall>j \<in> set (ctx_ids Background). j < 0" "cancelled_at start_world 0 = None"
      "cancelled_at start_world (Suc 0) = None" by (simp_all add: start_world_def)
  from timeout_stack_leak [OF plain_lib_ok h, of 0 sample_operation "7 :: nat" 5] show ?thesis
    by (auto simp: start_world_def)
qed

text \<open>
  C35: a timeout policy that derived no context, because it is switched off or because the caller's
  deadline is the tighter one, still cancels one: the context of the enclosing operation, when that
  was given its deadline by a timeout policy. After an inner call that succeeded, the caller's own
  context is cancelled.
\<close>

theorem timeout_cancels_caller:
  assumes "oops_ok L" and "ctx_value c TimeoutCancelKey = Some (CancelFunc i)" and "i \<in> set (ctx_ids c)"
    and "ctx_deadline c = Some d" and "t \<le> 0 \<or> d - now w \<le> t"
  shows "\<exists>w'. InvokeWithPolicies L zero (Some c) operation (Some (\<lambda>_. pret (x, None)))
        [Some (NewTimeoutPolicy t)] w = Some (Ret (x, None), w') \<and> ctx_err w' c \<noteq> None"
proof -
  let ?op = "normalizeOperation operation"
  obtain w' where run: "cancel_ctx i w = Some (Ret (), w')" by (simp add: cancel_ctx_eq)
  have b: "timeoutBefore t (Some c) ?op w = Some (Ret (Some c, None), w)"
    using assms(4,5) by (auto simp: timeoutBefore_def normalizeContext_def Let_def prog_simps)
  have a: "timeoutAfter (Some c) ?op None w = Some (Ret None, w')"
    using assms(2) run by (simp add: timeoutAfter_def prog_simps)
  have "invokeAttempt L c ?op (\<lambda>_. pret (x, None)) [NewTimeoutPolicy t] zero 1 w =
      Some (Ret (Return (x, None)), w')"
    using assms(1)
    by (simp add: invokeAttempt_def applyAfterPolicies_def callPolicyBefore_def callPolicyAfter_def
        wrapPolicyBeforeError_def wrapPolicyAfterError_def pbind_apply precover_apply b a)
  then have "InvokeWithPolicies L zero (Some c) operation (Some (\<lambda>_. pret (x, None)))
      [Some (NewTimeoutPolicy t)] w = Some (Ret (x, None), w')"
    by (simp add: InvokeWithPolicies_def normalizeContext_def filterPolicies_def Let_def
        invokeLoop.simps [of L c])
  moreover have "ctx_err w' c \<noteq> None" by (rule cancel_ctx_done [OF run assms(3)])
  ultimately show ?thesis by blast
qed

theorem timeout_cancels_caller_witness:
  "\<exists>w'. InvokeWithPolicies plain_lib 0
        (Some (ValueCtx TimeoutCancelKey (CancelFunc 0) (TimerCtx 0 50 Background)))
        sample_operation (Some (\<lambda>_. pret (7 :: nat, None))) [Some (NewTimeoutPolicy 0)] start_world =
      Some (Ret (7, None), w') \<and>
    ctx_err start_world (ValueCtx TimeoutCancelKey (CancelFunc 0) (TimerCtx 0 50 Background)) = None \<and>
    ctx_err w' (ValueCtx TimeoutCancelKey (CancelFunc 0) (TimerCtx 0 50 Background)) \<noteq> None"
proof -
  let ?c = "ValueCtx TimeoutCancelKey (CancelFunc 0) (TimerCtx 0 50 Background)"
  have h: "ctx_value ?c TimeoutCancelKey = Some (CancelFunc 0)" "0 \<in> set (ctx_ids ?c)"
    "ctx_deadline ?c = Some 50" "(0 :: int) \<le> 0 \<or> 50 - now start_world \<le> 0" by simp_all
  have "ctx_err start_world ?c = None" by (simp add: ctx_err_def start_world_def)
  then show ?thesis
    using timeout_cancels_caller [OF plain_lib_ok h, of 0 sample_operation "7 :: nat"] by blast
qed

end
