(* ===== verification/Bulkhead_Policy.thy ===== *)
theory Bulkhead_Policy
  imports Policy_Engine
begin

text \<open>
  \<^verbatim>\<open>policy_bulkhead.go\<close>: the policy that limits how many executions are in flight, by a buffered
  channel used as a semaphore.

  A channel is its identity and its capacity; the world holds how many tokens are in it.
  \<open>limit_select\<close> lists what the \<open>select\<close> of \<open>Before\<close> can do at once. Read as one caller alone,
  \<open>limitBefore\<close> takes one of these, waits for the context when there are none, and never
  returns when that is never done. The last section reads the same operations as the steps of many
  concurrent callers.
\<close>

section \<open>The policy\<close>

record concurrencyLimitPolicy =
  sem :: "(nat \<times> nat) option"

definition limit_attrs :: "operation \<Rightarrow> attrs" where
  "limit_attrs operation =
     [(''op'', AStr ''policy_before''), (''policy'', AStr ''concurrency_limit'')] @
     operation_attrs operation"

definition limit_nil :: "lib \<Rightarrow> operation \<Rightarrow> go_error option" where
  "limit_nil L operation = Some (oops_new L ''clientx'' (limit_attrs operation)
     ''concurrency limit policy is nil'')"

definition limit_refused :: "lib \<Rightarrow> operation \<Rightarrow> nat \<Rightarrow> nat \<Rightarrow> go_error option \<Rightarrow> go_error option" where
  "limit_refused L operation capacity in_flight err =
     oops_wrapf L ''clientx''
       (limit_attrs operation @
        [(''max_in_flight'', AInt (int capacity)), (''in_flight'', AInt (int in_flight))])
       err ''acquire concurrency slot''"

definition limit_select ::
  "lib \<Rightarrow> nat \<Rightarrow> nat \<Rightarrow> ctx \<Rightarrow> operation \<Rightarrow> 'u world_scheme \<Rightarrow>
   ((ctx option \<times> go_error option) \<times> 'u world_scheme) list" where
  "limit_select L s capacity ctx operation w =
     (if sems w s < capacity
      then [((Some ctx, None), w\<lparr>sems := (sems w)(s := Suc (sems w s))\<rparr>)] else []) @
     (if ctx_err w ctx \<noteq> None
      then [((Some ctx, limit_refused L operation capacity (sems w s) (ctx_err w ctx)), w)] else [])"

definition limitBefore ::
  "lib \<Rightarrow> concurrencyLimitPolicy option \<Rightarrow> ctx option \<Rightarrow> operation \<Rightarrow>
   (ctx option \<times> go_error option, 'u world_scheme) prog" where
  "limitBefore L p ctx operation =
     (let ctx = normalizeContext ctx in
      case Option.bind p sem of
        None \<Rightarrow> pret (Some ctx, limit_nil L operation)
      | Some (s, capacity) \<Rightarrow> (\<lambda>w.
          case limit_select L s capacity ctx operation w of
            [x] \<Rightarrow> Some (map_prod Ret id x)
          | x # xs \<Rightarrow> Some (map_prod Ret next_choice (if choices w 0 then x else last xs))
          | [] \<Rightarrow>
              (case ctx_done w ctx of
                 None \<Rightarrow> None
               | Some (t, e) \<Rightarrow> Some (Ret (Some ctx, limit_refused L operation capacity (sems w s) (Some e)),
                                   w\<lparr>now := max t (now w)\<rparr>))))"

definition limitAfter ::
  "concurrencyLimitPolicy option \<Rightarrow> ctx option \<Rightarrow> operation \<Rightarrow> go_error option \<Rightarrow>
   (go_error option, 'u world_scheme) prog" where
  "limitAfter p ctx operation err =
     (case p of
        None \<Rightarrow> ppanic
      | Some q \<Rightarrow>
          (case sem q of
             None \<Rightarrow> pret None
           | Some (s, capacity) \<Rightarrow>
               pbind (pmodify (\<lambda>w. w\<lparr>sems := (sems w)(s := sems w s - 1)\<rparr>)) (\<lambda>_. pret None)))"

text \<open>\<open>s\<close> is the identity of the channel that is made.\<close>

definition NewConcurrencyLimitPolicy :: "lib \<Rightarrow> nat \<Rightarrow> int \<Rightarrow> 'u world_scheme policy" where
  "NewConcurrencyLimitPolicy L s maxInFlight =
     (let maxInFlight = (if maxInFlight \<le> 0 then 1 else maxInFlight);
          p = Some \<lparr>sem = Some (s, nat maxInFlight)\<rparr>
      in \<lparr>Before = limitBefore L p, After = limitAfter p, ShouldRetry = None\<rparr>)"

definition limit_cap :: "int \<Rightarrow> nat" where
  "limit_cap maxInFlight = (if maxInFlight \<le> 0 then 1 else nat maxInFlight)"

lemma limit_cap_pos [simp]: "0 < limit_cap n"
  by (simp add: limit_cap_def)

lemma NewConcurrencyLimitPolicy_eq:
  "NewConcurrencyLimitPolicy L s n =
     \<lparr>Before = limitBefore L (Some \<lparr>sem = Some (s, limit_cap n)\<rparr>),
      After = limitAfter (Some \<lparr>sem = Some (s, limit_cap n)\<rparr>), ShouldRetry = None\<rparr>"
  by (simp add: NewConcurrencyLimitPolicy_def limit_cap_def Let_def)

section \<open>One caller\<close>

lemma limit_select_cases:
  assumes "x \<in> set (limit_select L s k c operation w)"
  obtains (send) "x = ((Some c, None), w\<lparr>sems := (sems w)(s := Suc (sems w s))\<rparr>)" "sems w s < k"
  | (ended) e where "x = ((Some c, limit_refused L operation k (sems w s) (Some e)), w)"
      "ctx_err w c = Some e"
  using assms by (auto simp: limit_select_def split: if_splits)

lemma limitBefore_cases:
  assumes "limitBefore L (Some \<lparr>sem = Some (s, k)\<rparr>) c operation w = Some (r, w')"
  obtains (send) g where "r = Ret (Some (normalizeContext c), None)"
      "w' = w\<lparr>sems := (sems w)(s := Suc (sems w s)), choices := g\<rparr>" "sems w s < k"
  | (refuse) e where "r = Ret (Some (normalizeContext c), limit_refused L operation k (sems w s) (Some e))"
      "sems w' = sems w"
proof (cases "limit_select L s k (normalizeContext c) operation w")
  case Nil
  then show thesis using assms refuse
    by (auto simp: limitBefore_def Let_def split: option.splits)
next
  case (Cons x xs)
  obtain y g where y: "y \<in> set (limit_select L s k (normalizeContext c) operation w)"
      and r: "r = Ret (fst y)" "w' = snd y\<lparr>choices := g\<rparr>"
  proof (cases xs)
    case Nil
    show thesis using that [of x "choices (snd x)"] assms Cons Nil by (auto simp: limitBefore_def Let_def map_prod_def split: prod.splits)
  next
    case (Cons x' xs')
    let ?y = "if choices w 0 then x else last xs"
    have "xs \<noteq> []" using Cons by simp
    then have "?y \<in> set (x # xs)" using last_in_set [of xs] by simp
    moreover have "r = Ret (fst ?y)" and "w' = snd ?y\<lparr>choices := \<lambda>n. choices (snd ?y) (Suc n)\<rparr>"
      using assms Cons \<open>limit_select _ _ _ _ _ _ = x # xs\<close>
      by (simp_all add: limitBefore_def Let_def map_prod_def split: prod.splits if_splits)
    ultimately show thesis using that [of ?y] \<open>limit_select _ _ _ _ _ _ = x # xs\<close> by simp
  qed
  from y show thesis
    by (cases rule: limit_select_cases) (use r in \<open>auto intro: send refuse\<close>)
qed

lemma limit_refused_not_None [simp]: "oops_ok L \<Longrightarrow> limit_refused L operation k n (Some e) \<noteq> None"
  by (simp add: limit_refused_def)

lemma keeps_limitBefore:
  "s' \<noteq> s \<Longrightarrow> keeps (\<lambda>w. sems w s) (limitBefore L (Some \<lparr>sem = Some (s', k)\<rparr>) c operation)"
  by (rule keepsI, erule limitBefore_cases) simp_all

lemma keeps_limitAfter:
  "s' \<noteq> s \<Longrightarrow> keeps (\<lambda>w. sems w s) (limitAfter (Some \<lparr>sem = Some (s', k)\<rparr>) c operation e)"
  by (auto simp: keeps_def limitAfter_def prog_simps)

lemma keeps_limit_other:
  "s' \<noteq> s \<Longrightarrow> policy_keeps (\<lambda>w. sems w s) (NewConcurrencyLimitPolicy L s' n)"
  by (simp add: policy_keeps_def NewConcurrencyLimitPolicy_eq keeps_limitBefore keeps_limitAfter)

lemma not_keeps_limit: "\<not> policy_keeps (\<lambda>w. sems w s) (NewConcurrencyLimitPolicy L s n)"
proof
  let ?w = "\<lparr>now = 0, next_id = 0, cancelled_at = (\<lambda>_. None), choices = (\<lambda>_. True), sems = (\<lambda>_. 0),
     \<dots> = undefined\<rparr>"
  assume "policy_keeps (\<lambda>w. sems w s) (NewConcurrencyLimitPolicy L s n :: 'a world_scheme policy)"
  then have "keeps (\<lambda>w :: 'a world_scheme. sems w s)
      (limitBefore L (Some \<lparr>sem = Some (s, limit_cap n)\<rparr>) None sample_operation)"
    by (simp add: policy_keeps_def NewConcurrencyLimitPolicy_eq)
  moreover have "limitBefore L (Some \<lparr>sem = Some (s, limit_cap n)\<rparr>) None sample_operation ?w =
      Some (Ret (Some Background, None), ?w\<lparr>sems := (\<lambda>_. 0)(s := 1)\<rparr>)"
    by (simp add: limitBefore_def limit_select_def normalizeContext_def Let_def ctx_err_def)
  ultimately show False by (auto dest: keepsD)
qed

section \<open>Slots in the engine\<close>

text \<open>
  The contract of the engine, discharged for the limit on one channel among any policies that leave
  that channel alone. The policies are cut down to those, and the library to a lawful one, so that the interpretation needs no hypothesis; both are the identity where it is used.
\<close>

definition slot_policy :: "lib \<Rightarrow> nat \<Rightarrow> 'u world_scheme policy \<Rightarrow> bool" where
  "slot_policy L s p \<longleftrightarrow>
     policy_keeps (\<lambda>w. sems w s) p \<or> (\<exists>n. p = NewConcurrencyLimitPolicy L s n)"

definition slot_cost :: "nat \<Rightarrow> 'u world_scheme policy \<Rightarrow> nat" where
  "slot_cost s p = (if policy_keeps (\<lambda>w. sems w s) p then 0 else 1)"

lemma slot_cost_limit [simp]: "slot_cost s (NewConcurrencyLimitPolicy L s n) = 1"
  by (simp add: slot_cost_def not_keeps_limit)

lemma slot_policyE:
  assumes "slot_policy L s p"
  obtains (keep) "policy_keeps (\<lambda>w. sems w s) p" "slot_cost s p = 0"
  | (limit) n where "p = NewConcurrencyLimitPolicy L s n" "slot_cost s p = 1"
  using assms by (auto simp: slot_policy_def slot_cost_def not_keeps_limit)

lemma slot_Before:
  assumes "slot_policy (lawful L) s p" and "Before p c operation w = Some (r, w')"
  shows "sems w' s = sems w s + (case r of Ret (c', Some err) \<Rightarrow> 0 | _ \<Rightarrow> slot_cost s p)"
  using assms(1)
proof (cases rule: slot_policyE)
  case keep
  then have "keeps (\<lambda>w. sems w s) (Before p c operation)" by (simp add: policy_keeps_def)
  then show ?thesis using keep assms(2)
    by (auto dest: keepsD split: res.split option.split)
next
  case (limit n)
  have "limitBefore (lawful L) (Some \<lparr>sem = Some (s, limit_cap n)\<rparr>) c operation w = Some (r, w')"
    using assms(2) limit(1) by (simp add: NewConcurrencyLimitPolicy_eq)
  then show ?thesis
  proof (cases rule: limitBefore_cases)
    case (refuse e)
    obtain x where "limit_refused (lawful L) operation (limit_cap n) (sems w s) (Some e) = Some x"
      using limit_refused_not_None [OF lawful_ok] by blast
    then show ?thesis using refuse by simp
  qed (use limit(2) in simp)
qed

lemma slot_After:
  assumes "slot_policy L s p" and "After p c operation e w = Some (r, w')"
  shows "sems w' s = sems w s - slot_cost s p"
  using assms(1)
proof (cases rule: slot_policyE)
  case keep
  then have "keeps (\<lambda>w. sems w s) (After p c operation e)" by (simp add: policy_keeps_def)
  then show ?thesis using keep assms(2) by (auto dest: keepsD)
next
  case (limit n)
  then show ?thesis using assms(2)
    by (auto simp: NewConcurrencyLimitPolicy_eq limitAfter_def prog_simps)
qed

lemma slot_decider: "slot_policy L s p \<Longrightarrow> decider_keeps (\<lambda>w. sems w s) p"
  by (erule slot_policyE)
    (simp_all add: decider_keeps_policy_keeps, simp add: decider_keeps_def NewConcurrencyLimitPolicy_eq)

interpretation slots: balanced_policies "filter (slot_policy (lawful L) s) ps" "\<lambda>w. sems w s" "slot_cost s"
  for L :: lib and s :: nat and ps :: "'u world_scheme policy list"
  proof unfold_locales
  show "clock_free (\<lambda>w :: 'u world_scheme. sems w s)" by (simp add: clock_free_def)
qed (auto dest: slot_Before slot_After intro: slot_decider)

text \<open>
  C8: the slots a call takes it gives back. A call that comes back, with a result or an error, after
  however many attempts, leaves the channel as full as it was, whatever the other policies do, the
  ones that panic included; only the executed function must not panic.
\<close>

theorem limit_slots_restored:
  assumes "oops_ok L" and "\<forall>p \<in> set ps. slot_policy L s p"
    and "\<forall>c. keeps (\<lambda>w. sems w s) (fn c)"
    and "invokeLoop L ctx operation fn ps zero attempt w = Some (Ret r, w')"
  shows "sems w' s = sems w s"
proof -
  have "lawful L = L" using assms(1) by (simp add: lawful_def)
  moreover have "filter (slot_policy L s) ps = ps" using assms(2) by (simp add: filter_id_conv)
  ultimately have "invokeLoop L ctx operation fn (filter (slot_policy (lawful L) s) ps) zero attempt w =
      Some (Ret r, w')" using assms(4) by simp
  then show ?thesis by (rule slots.invokeLoop_level [OF assms(1,3)])
qed

lemma slot_limit: "slot_policy L s (NewConcurrencyLimitPolicy L s n)"
  by (auto simp: slot_policy_def)

theorem limit_slots_restored_witness:
  "\<exists>r w'. invokeLoop plain_lib Background sample_operation (\<lambda>_. pret (7 :: nat, Some ErrEOF))
      [NewConcurrencyLimitPolicy plain_lib 0 2, PolicyFuncs (Some (\<lambda>_ _. ppanic)) None] 0 1 start_world =
      Some (Ret r, w') \<and> sems w' 0 = sems start_world 0"
proof -
  let ?ps = "[NewConcurrencyLimitPolicy plain_lib 0 2, PolicyFuncs (Some (\<lambda>_ _. ppanic)) None] ::
    world policy list"
  have ps: "\<forall>p \<in> set ?ps. slot_policy plain_lib 0 p"
    by (auto simp: slot_policy_def policy_keeps_def PolicyFuncs_def)
  have fn: "\<forall>c :: ctx option. keeps (\<lambda>w :: world. sems w 0) (pret (7 :: nat, Some ErrEOF))" by simp
  have "invokeLoop plain_lib Background sample_operation (\<lambda>_. pret (7 :: nat, Some ErrEOF)) ?ps 0 1 start_world
      = Some (Ret (7, Some ErrEOF), start_world\<lparr>sems := (\<lambda>_. 0)(0 := 0)\<rparr>)"
    by (simp add: invokeLoop.simps [of plain_lib Background] invokeAttempt_def applyAfterPolicies_def
        callPolicyBefore_def callPolicyAfter_def wrapPolicyBeforeError_def wrapPolicyAfterError_def
        NewConcurrencyLimitPolicy_eq PolicyFuncs_def limitBefore_def limitAfter_def limit_select_def
        retryOrReturn_def decideRetry_def ctx_err_def normalizeContext_def start_world_def limit_cap_def
        prog_simps Let_def)
  then show ?thesis using limit_slots_restored [OF plain_lib_ok ps fn] by blast
qed

text \<open>
  C33: a slot is lost for good when the executed function panics: the engine does not run \<open>After\<close> then,
  so the token stays in the channel.
\<close>

theorem limit_panic_leak:
  assumes "oops_ok L" and "sems w s < limit_cap n" and "ctx_err w c = None"
    and "\<And>c w. fn c w = Some (Panic, w)"
  shows "\<exists>w'. InvokeWithPolicies L zero (Some c) operation (Some fn)
      [Some (NewConcurrencyLimitPolicy L s n)] w = Some (Panic, w') \<and> sems w' s = Suc (sems w s)"
proof -
  let ?w = "w\<lparr>sems := (sems w)(s := Suc (sems w s))\<rparr>"
  have "callPolicyBefore L (Some c) (NewConcurrencyLimitPolicy L s n) (normalizeOperation operation) w =
      Some (Ret (Some c, None), ?w)"
    using assms(1-3) by (simp add: callPolicyBefore_def wrapPolicyBeforeError_def NewConcurrencyLimitPolicy_eq
        limitBefore_def limit_select_def normalizeContext_def prog_simps Let_def)
  then show ?thesis using assms(4)
    by (simp add: InvokeWithPolicies_def normalizeContext_def filterPolicies_def Let_def
        invokeLoop.simps [of L c] invokeAttempt_def pbind_apply)
qed

theorem limit_panic_leak_witness:
  "\<exists>w'. InvokeWithPolicies plain_lib (0 :: nat) (Some Background) sample_operation (Some (\<lambda>_. ppanic))
      [Some (NewConcurrencyLimitPolicy plain_lib 0 1)] start_world = Some (Panic, w') \<and> sems w' 0 = 1"
proof -
  have h: "sems start_world 0 < limit_cap 1" "ctx_err start_world Background = None"
    by (simp_all add: start_world_def ctx_err_def)
  have z: "sems start_world 0 = 0" by (simp add: start_world_def)
  show ?thesis
    using limit_panic_leak [OF plain_lib_ok h, of "\<lambda>_. ppanic" "0 :: nat" sample_operation] z by auto
qed

text \<open>
  And with no slot left a caller whose context never ends does not come back, whatever the
  function would do: the call blocks for ever.
\<close>

theorem limit_blocks:
  assumes "limit_cap n \<le> sems w s" and "ctx_done w c = None"
  shows "InvokeWithPolicies L zero (Some c) operation (Some fn)
      (Some (NewConcurrencyLimitPolicy L s n) # policies) w = None"
proof -
  have "ctx_err w c = None" using assms(2) by (simp add: ctx_err_def)
  then have "callPolicyBefore L (Some c) (NewConcurrencyLimitPolicy L s n) (normalizeOperation operation) w = None"
    using assms by (simp add: callPolicyBefore_def NewConcurrencyLimitPolicy_eq limitBefore_def
        limit_select_def normalizeContext_def prog_simps Let_def)
  then show ?thesis
    by (simp add: InvokeWithPolicies_def normalizeContext_def filterPolicies_def Let_def
        invokeLoop.simps [of L c] invokeAttempt_def pbind_apply)
qed

theorem limit_blocks_witness:
  "InvokeWithPolicies plain_lib (0 :: nat) (Some Background) sample_operation (Some (\<lambda>_. pret (7, None)))
     [Some (NewConcurrencyLimitPolicy plain_lib 0 1)] (start_world\<lparr>sems := (\<lambda>_. 1)\<rparr>) = None"
  by (rule limit_blocks) (simp_all add: limit_cap_def)

section \<open>Many callers\<close>

text \<open>
  The callers that share the channel \<open>s\<close> of capacity \<open>k\<close>, one phase each, and their steps, in any
  order: a caller enters the \<open>select\<close>; the \<open>select\<close> takes one of its ready cases; the execution
  ends and \<open>After\<close> runs; the execution panics, and \<open>After\<close> does not run; and anything else happens
  that leaves the channel alone, time passing and contexts ending among it.
\<close>

datatype phase = Idle | Waiting | Running | Finished | Refused | Crashed

type_synonym 'u callers = "phase list \<times> 'u world_scheme"

inductive caller_step ::
  "lib \<Rightarrow> nat \<Rightarrow> nat \<Rightarrow> (nat \<Rightarrow> ctx) \<Rightarrow> operation \<Rightarrow> 'u callers \<Rightarrow> 'u callers \<Rightarrow> bool"
  for L s k ctxs operation where
  arrive: "i < length ph \<Longrightarrow> ph ! i = Idle \<Longrightarrow>
     caller_step L s k ctxs operation (ph, w) (ph[i := Waiting], w)"
| select: "i < length ph \<Longrightarrow> ph ! i = Waiting \<Longrightarrow>
     ((c, e), w') \<in> set (limit_select L s k (ctxs i) operation w) \<Longrightarrow>
     caller_step L s k ctxs operation (ph, w) (ph[i := (if e = None then Running else Refused)], w')"
| finish: "i < length ph \<Longrightarrow> ph ! i = Running \<Longrightarrow>
     limitAfter (Some \<lparr>sem = Some (s, k)\<rparr>) (Some (ctxs i)) operation err w = Some (Ret None, w') \<Longrightarrow>
     caller_step L s k ctxs operation (ph, w) (ph[i := Finished], w')"
| panic: "i < length ph \<Longrightarrow> ph ! i = Running \<Longrightarrow>
     caller_step L s k ctxs operation (ph, w) (ph[i := Crashed], w)"
| other: "sems w' s = sems w s \<Longrightarrow> caller_step L s k ctxs operation (ph, w) (ph, w')"

inductive_cases caller_stepE: "caller_step L s k ctxs operation (ph, w) st"

inductive_simps caller_step_select: "caller_step L s k ctxs operation (ph, w) (ph[i := Running], w')"

inductive callers_reach ::
  "lib \<Rightarrow> nat \<Rightarrow> nat \<Rightarrow> (nat \<Rightarrow> ctx) \<Rightarrow> operation \<Rightarrow> 'u callers \<Rightarrow> bool"
  for L s k ctxs operation where
  start: "set ph \<subseteq> {Idle} \<Longrightarrow> sems w s = 0 \<Longrightarrow> callers_reach L s k ctxs operation (ph, w)"
| step: "callers_reach L s k ctxs operation st \<Longrightarrow> caller_step L s k ctxs operation st st' \<Longrightarrow>
     callers_reach L s k ctxs operation st'"

text \<open>The slots taken: by the executions under way, and by those that panicked.\<close>

definition taken :: "phase list \<Rightarrow> nat" where
  "taken ph = count_list ph Running + count_list ph Crashed"

definition slots_inv :: "nat \<Rightarrow> nat \<Rightarrow> 'u callers \<Rightarrow> bool" where
  "slots_inv s k st = (sems (snd st) s = taken (fst st) \<and> taken (fst st) \<le> k)"

lemma count_list_update:
  "i < length xs \<Longrightarrow> count_list (xs[i := y]) z + (if xs ! i = z then 1 else 0) =
     count_list xs z + (if y = z then 1 else 0)"
proof (induction xs arbitrary: i)
  case (Cons x xs)
  show ?case
  proof (cases i)
    case (Suc j)
    then show ?thesis using Cons.IH [of j] Cons.prems by (auto split: if_splits)
  qed (use Cons.prems in auto)
qed simp

lemma taken_update:
  assumes "i < length ph"
  shows "taken (ph[i := y]) + (if ph ! i \<in> {Running, Crashed} then 1 else 0) =
     taken ph + (if y \<in> {Running, Crashed} then 1 else 0)"
  using count_list_update [OF assms, of y Running] count_list_update [OF assms, of y Crashed]
  by (auto simp: taken_def split: if_splits)

lemma caller_send:
  assumes "i < length ph" and "ph ! i = Waiting" and "sems w s < k"
  shows "caller_step L s k ctxs operation (ph, w)
    (ph[i := Running], w\<lparr>sems := (sems w)(s := Suc (sems w s))\<rparr>)"
  using caller_step.select [of i ph "Some (ctxs i)" None "w\<lparr>sems := (sems w)(s := Suc (sems w s))\<rparr>"
      L s k ctxs operation w] assms by (simp add: limit_select_def)

lemma caller_step_inv:
  assumes "oops_ok L" and "caller_step L s k ctxs operation st st'" and "slots_inv s k st"
  shows "slots_inv s k st'"
  using assms(2,3)
proof (induction rule: caller_step.induct)
  case (select i ph c e w' w)
  from select(3) show ?case
  proof (cases rule: limit_select_cases)
    case send
    then show ?thesis using select taken_update [OF select(1), of Running]
      by (simp add: slots_inv_def)
  next
    case (ended e')
    then have "e \<noteq> None" using limit_refused_not_None [OF assms(1)] by auto
    then show ?thesis using select ended taken_update [OF select(1), of Refused]
      by (auto simp: slots_inv_def)
  qed
next
  case (finish i ph err w w')
  then show ?case using taken_update [OF finish(1), of Finished]
    by (auto simp: slots_inv_def limitAfter_def prog_simps)
next
  case (arrive i ph w)
  then show ?case using taken_update [OF arrive(1), of Waiting] by (simp add: slots_inv_def)
next
  case (panic i ph w)
  then show ?case using taken_update [OF panic(1), of Crashed] by (simp add: slots_inv_def)
next
  case (other w' w ph)
  then show ?case by (simp add: slots_inv_def)
qed

lemma callers_reach_inv:
  assumes "oops_ok L" and "callers_reach L s k ctxs operation st"
  shows "slots_inv s k st"
  using assms(2)
proof (induction rule: callers_reach.induct)
  case (start ph w)
  then have "Running \<notin> set ph" "Crashed \<notin> set ph" by auto
  then show ?case using start by (simp add: slots_inv_def taken_def)
next
  case (step st st')
  then show ?case using caller_step_inv [OF assms(1)] by blast
qed

text \<open>Two callers and one slot, for the witnesses.\<close>

lemma two_callers:
  "callers_reach plain_lib 0 1 (\<lambda>_. Background) sample_operation
     ([Running, Waiting], start_world\<lparr>sems := (\<lambda>_. 0)(0 := 1)\<rparr>)"
proof -
  let ?reach = "callers_reach plain_lib 0 1 (\<lambda>_. Background) sample_operation :: unit callers \<Rightarrow> bool"
  let ?w = "start_world\<lparr>sems := (\<lambda>_. 0)(0 := 1)\<rparr>"
  have "?reach ([Idle, Idle], start_world)" by (rule callers_reach.start) (simp_all add: start_world_def)
  then have "?reach ([Idle, Idle][0 := Waiting], start_world)"
    by (rule callers_reach.step) (rule caller_step.arrive; simp)
  then have "?reach ([Idle, Idle][0 := Waiting, 1 := Waiting], start_world)"
    by (rule callers_reach.step) (rule caller_step.arrive; simp)
  then have "?reach ([Idle, Idle][0 := Waiting, 1 := Waiting, 0 := Running],
      start_world\<lparr>sems := (sems start_world)(0 := Suc (sems start_world 0))\<rparr>)"
    by (rule callers_reach.step) (rule caller_send; simp add: start_world_def)
  then show ?thesis by (simp add: start_world_def)
qed

text \<open>
  C2: the limit holds in every interleaving: whatever order the callers arrive, execute, give up and
  panic in, the channel holds exactly one token for each execution under way or crashed, and never
  more executions are under way than the limit allows.
\<close>

theorem limit_holds:
  assumes "oops_ok L" and "callers_reach L s k ctxs operation (ph, w)"
  shows "count_list ph Running \<le> k \<and>
    sems w s = count_list ph Running + count_list ph Crashed"
  using callers_reach_inv [OF assms] by (simp add: slots_inv_def taken_def)

theorem limit_holds_witness:
  "callers_reach plain_lib 0 1 (\<lambda>_. Background) sample_operation
     ([Running, Waiting], start_world\<lparr>sems := (\<lambda>_. 0)(0 := 1)\<rparr>) \<and>
   count_list [Running, Waiting] Running \<le> 1"
  using limit_holds [OF plain_lib_ok two_callers] two_callers by blast

text \<open>
  A caller that waits is served as soon as a slot is free: it can take one if and only if fewer
  executions than the limit are under way or crashed. So \<open>k\<close> crashed executions close the policy for
  every later caller.
\<close>

theorem limit_serves:
  assumes "oops_ok L" and "callers_reach L s k ctxs operation (ph, w)"
    and "i < length ph" and "ph ! i = Waiting"
  shows "(\<exists>w'. caller_step L s k ctxs operation (ph, w) (ph[i := Running], w')) \<longleftrightarrow>
    count_list ph Running + count_list ph Crashed < k"
proof -
  have inv: "sems w s = taken ph" using callers_reach_inv [OF assms(1,2)] by (simp add: slots_inv_def)
  show ?thesis
  proof
    assume "\<exists>w'. caller_step L s k ctxs operation (ph, w) (ph[i := Running], w')"
    then obtain w' where st: "caller_step L s k ctxs operation (ph, w) (ph[i := Running], w')" ..
    then have "slots_inv s k (ph[i := Running], w')"
      using caller_step_inv [OF assms(1)] callers_reach_inv [OF assms(1,2)] by blast
    then have "taken (ph[i := Running]) \<le> k" by (simp add: slots_inv_def)
    then show "count_list ph Running + count_list ph Crashed < k"
      using taken_update [OF assms(3), of Running] assms(4) by (simp add: taken_def)
  next
    assume "count_list ph Running + count_list ph Crashed < k"
    then show "\<exists>w'. caller_step L s k ctxs operation (ph, w) (ph[i := Running], w')"
      using caller_send [of i ph w s k L ctxs operation] assms(3,4) inv by (auto simp: taken_def)
  qed
qed

theorem limit_serves_witness:
  "\<not> (\<exists>w'. caller_step plain_lib 0 1 (\<lambda>_. Background) sample_operation
        ([Running, Waiting], start_world\<lparr>sems := (\<lambda>_. 0)(0 := 1)\<rparr>) ([Running, Waiting][1 := Running], w'))"
  using limit_serves [OF plain_lib_ok two_callers, of 1] by simp

end
