(* ===== verification/Tcp.thy ===== *)
theory Tcp
  imports Net_Conn Retry_Policy Timeout_Policy Bulkhead_Policy
begin

text \<open>
  Package \<^verbatim>\<open>tcp\<close>: configuration, options, the client, the guarded connection, and the codec
  connection.

  Dialling is a parameter: \<open>net_dial\<close> is \<open>DialContext\<close> of a \<open>net.Dialer\<close> with the given timeout and
  keep-alive, or of a \<open>tls.Dialer\<close> around it when a TLS configuration is given; it answers an error
  or a connection. The duration a hook is told of is the time between two readings of the clock.
\<close>

section \<open>Configuration\<close>

record tcp_Config =
  tcpNetwork :: string
  tcpAddress :: string
  tcpDialTimeout :: duration
  tcpReadTimeout :: duration
  tcpWriteTimeout :: duration
  tcpKeepAlive :: duration
  tcpTLS :: TLSConfig

definition tcp_zero_Config :: tcp_Config where
  "tcp_zero_Config = \<lparr>tcpNetwork = [], tcpAddress = [], tcpDialTimeout = 0, tcpReadTimeout = 0,
     tcpWriteTimeout = 0, tcpKeepAlive = 0,
     tcpTLS = \<lparr>TLSEnabled = False, InsecureSkipVerify = False, ServerName = []\<rparr>\<rparr>"

definition tcp_defaultDialTimeout :: duration where
  "tcp_defaultDialTimeout = 5 * second"

definition tcp_ErrInvalidConfig :: go_error where
  "tcp_ErrInvalidConfig = ErrNew ''tcp.ErrInvalidConfig'' ''invalid tcp client config''"

definition tcp_invalid :: "lib \<Rightarrow> attrs \<Rightarrow> string \<Rightarrow> tcp_Config \<times> go_error option" where
  "tcp_invalid L as msg = (tcp_zero_Config, oops_wrapf L ''clientx/tcp''
     ((''op'', AStr ''normalize_validate'') # as) (Some tcp_ErrInvalidConfig) msg)"

definition tcp_NormalizeAndValidate :: "lib \<Rightarrow> tcp_Config \<Rightarrow> tcp_Config \<times> go_error option" where
  "tcp_NormalizeAndValidate L cfg =
     (let out = cfg\<lparr>tcpNetwork := trim_space (tcpNetwork cfg), tcpAddress := trim_space (tcpAddress cfg)\<rparr>;
          out = (if tcpNetwork out = [] then out\<lparr>tcpNetwork := ''tcp''\<rparr> else out)
      in if tcpAddress out = []
         then tcp_invalid L [(''field'', AStr ''address''), (''network'', AStr (tcpNetwork out))]
                ''address is required''
         else
           (let out = (if tcpDialTimeout out = 0 then out\<lparr>tcpDialTimeout := tcp_defaultDialTimeout\<rparr> else out)
            in if tcpDialTimeout out < 0 \<or> tcpReadTimeout out < 0 \<or> tcpWriteTimeout out < 0 \<or> tcpKeepAlive out < 0
               then tcp_invalid L
                      [(''field'', AStr ''timeout''), (''network'', AStr (tcpNetwork out)),
                       (''dial_timeout'', ADur (tcpDialTimeout out)), (''read_timeout'', ADur (tcpReadTimeout out)),
                       (''write_timeout'', ADur (tcpWriteTimeout out)), (''keep_alive'', ADur (tcpKeepAlive out))]
                      ''timeout values must be >= 0''
               else if TLSEnabled (tcpTLS out) \<and> \<not> has_prefix (tcpNetwork out) ''tcp''
               then tcp_invalid L
                      [(''field'', AStr ''network''), (''network'', AStr (tcpNetwork out)),
                       (''tls_enabled'', ABool (TLSEnabled (tcpTLS out)))]
                      ''tls requires tcp network''
               else (out, None)))"

section \<open>Errors\<close>

definition tcp_wrapClientError :: "lib \<Rightarrow> string \<Rightarrow> string \<Rightarrow> go_error option \<Rightarrow> go_error option" where
  "tcp_wrapClientError L op addr err =
     oops_wrapf L ''clientx/tcp''
       [(''op'', AStr op), (''addr'', AStr addr), (''protocol'', AStr ProtocolTCP)]
       (WrapError L ProtocolTCP op addr err) (''tcp '' @ op @ '' '' @ addr)"

definition tcp_wrapCodecError :: "lib \<Rightarrow> string \<Rightarrow> string \<Rightarrow> go_error option \<Rightarrow> go_error option" where
  "tcp_wrapCodecError L op addr err =
     oops_wrapf L ''clientx/tcp''
       [(''op'', AStr op), (''addr'', AStr addr), (''protocol'', AStr ProtocolTCP),
        (''error_kind'', AStr ErrorKindCodec)]
       (WrapErrorWithKind L ProtocolTCP op addr ErrorKindCodec err) (''tcp '' @ op @ '' '' @ addr)"

section \<open>The guarded connection\<close>

definition tcp_applyDeadline ::
  "lib \<Rightarrow> (int \<Rightarrow> (go_error option, 'u world_scheme) prog) \<Rightarrow> duration \<Rightarrow> string \<Rightarrow> string \<Rightarrow>
   (go_error option, 'u world_scheme) prog" where
  "tcp_applyDeadline L setDeadline timeout op addr =
     (if timeout \<le> 0 then pret None
      else pbind (pget now) (\<lambda>t. pbind (setDeadline (t + timeout)) (\<lambda>err.
        if err \<noteq> None
        then pret (oops_wrapf L ''clientx/tcp''
               [(''op'', AStr op), (''addr'', AStr addr), (''protocol'', AStr ProtocolTCP),
                (''stage'', AStr ''set_deadline''), (''timeout'', ADur timeout)]
               err ''set tcp deadline'')
        else pret None)))"

definition tcp_emitIO ::
  "string \<Rightarrow> string \<Rightarrow> int \<Rightarrow> duration \<Rightarrow> go_error option \<Rightarrow> 'w hook option list \<Rightarrow> (unit, 'w) prog" where
  "tcp_emitIO op addr bytes d err hooks =
     EmitIO hooks \<lparr>ioProtocol = ProtocolTCP, ioOp = op, ioAddr = addr, ioBytes = bytes,
       ioDuration = d, ioErr = err\<rparr>"

text \<open>\<open>run\<close> is the read or the write on its data; \<open>nothing\<close> is no bytes, \<open>size_of\<close> counts them.\<close>

definition tcp_runIO ::
  "lib \<Rightarrow> string \<Rightarrow> string \<Rightarrow> 'u world_scheme hook option list \<Rightarrow> duration \<Rightarrow>
   (int \<Rightarrow> (go_error option, 'u world_scheme) prog) \<Rightarrow>
   ('r \<times> go_error option, 'u world_scheme) prog \<Rightarrow> 'r \<Rightarrow> ('r \<Rightarrow> int) \<Rightarrow>
   ('r \<times> go_error option, 'u world_scheme) prog" where
  "tcp_runIO L op addr hooks timeout setDeadline run nothing size_of =
     pbind (pget now) (\<lambda>start.
     pbind (tcp_applyDeadline L setDeadline timeout op addr) (\<lambda>err.
       if err \<noteq> None
       then pbind (pget now) (\<lambda>t.
            pbind (tcp_emitIO op addr 0 (t - start) err hooks) (\<lambda>_. pret (nothing, err)))
       else
         pbind run (\<lambda>(x, err).
           if err \<noteq> None
           then (let wrappedErr = tcp_wrapClientError L op addr err in
                 pbind (pget now) (\<lambda>t.
                 pbind (tcp_emitIO op addr (size_of x) (t - start) wrappedErr hooks)
                   (\<lambda>_. pret (x, wrappedErr))))
           else pbind (pget now) (\<lambda>t.
                pbind (tcp_emitIO op addr (size_of x) (t - start) None hooks) (\<lambda>_. pret (x, None))))))"

record 'w tcp_timeoutConn =
  tconnConn :: "'w conn"
  tconnReadTimeout :: duration
  tconnWriteTimeout :: duration
  tconnAddr :: string
  tconnHooks :: "'w hook option list"

definition tcp_Read :: "lib \<Rightarrow> 'u world_scheme tcp_timeoutConn \<Rightarrow> 'u world_scheme reader" where
  "tcp_Read L c n =
     tcp_runIO L ''read'' (tconnAddr c) (tconnHooks c) (tconnReadTimeout c)
       (SetReadDeadline (tconnConn c)) (ConnRead (tconnConn c) n) [] (\<lambda>x. int (length x))"

definition tcp_Write :: "lib \<Rightarrow> 'u world_scheme tcp_timeoutConn \<Rightarrow> 'u world_scheme writer" where
  "tcp_Write L c data =
     tcp_runIO L ''write'' (tconnAddr c) (tconnHooks c) (tconnWriteTimeout c)
       (SetWriteDeadline (tconnConn c)) (ConnWrite (tconnConn c) data) 0 (\<lambda>n. n)"

text \<open>The wrapper as a connection again: its own \<open>Read\<close> and \<open>Write\<close>, the rest embedded.\<close>

definition tcp_conn :: "lib \<Rightarrow> 'u world_scheme tcp_timeoutConn \<Rightarrow> 'u world_scheme conn" where
  "tcp_conn L c = (tconnConn c)\<lparr>ConnRead := tcp_Read L c, ConnWrite := tcp_Write L c\<rparr>"

definition tcp_wrapConn ::
  "lib \<Rightarrow> 'u world_scheme conn \<Rightarrow> tcp_Config \<Rightarrow> 'u world_scheme hook option list \<Rightarrow>
   'u world_scheme conn" where
  "tcp_wrapConn L conn cfg hooks =
     tcp_conn L \<lparr>tconnConn = conn, tconnReadTimeout = tcpReadTimeout cfg,
       tconnWriteTimeout = tcpWriteTimeout cfg, tconnAddr = tcpAddress cfg, tconnHooks = hooks\<rparr>"

section \<open>The client\<close>

record 'w tcp_DefaultClient =
  tcpCfg :: tcp_Config
  tcpHooks :: "'w hook option list"
  tcpPolicies :: "'w policy option list"

definition tcp_WithHooks :: "'w hook option list \<Rightarrow> 'w tcp_DefaultClient \<Rightarrow> 'w tcp_DefaultClient" where
  "tcp_WithHooks hooks c = c\<lparr>tcpHooks := AppendHooks (tcpHooks c) hooks\<rparr>"

definition tcp_WithPolicies :: "'w policy option list \<Rightarrow> 'w tcp_DefaultClient \<Rightarrow> 'w tcp_DefaultClient" where
  "tcp_WithPolicies policies c = c\<lparr>tcpPolicies := AppendPolicies (tcpPolicies c) policies\<rparr>"

text \<open>\<open>s\<close> is the identity of the channel the policy makes.\<close>

definition tcp_WithConcurrencyLimit ::
  "lib \<Rightarrow> nat \<Rightarrow> int \<Rightarrow> 'u world_scheme tcp_DefaultClient \<Rightarrow> 'u world_scheme tcp_DefaultClient" where
  "tcp_WithConcurrencyLimit L s maxInFlight c =
     c\<lparr>tcpPolicies := AppendPolicies (tcpPolicies c) [Some (NewConcurrencyLimitPolicy L s maxInFlight)]\<rparr>"

definition tcp_WithTimeoutGuard ::
  "duration \<Rightarrow> 'u world_scheme tcp_DefaultClient \<Rightarrow> 'u world_scheme tcp_DefaultClient" where
  "tcp_WithTimeoutGuard timeout c =
     c\<lparr>tcpPolicies := AppendPolicies (tcpPolicies c) [Some (NewTimeoutPolicy timeout)]\<rparr>"

definition tcp_New ::
  "lib \<Rightarrow> ('w tcp_DefaultClient \<Rightarrow> 'w tcp_DefaultClient options \<Rightarrow> 'w tcp_DefaultClient) \<Rightarrow>
   tcp_Config \<Rightarrow> 'w tcp_DefaultClient options \<Rightarrow> 'w tcp_DefaultClient option \<times> go_error option" where
  "tcp_New L ap cfg opts =
     (case tcp_NormalizeAndValidate L cfg of (normalized, err) \<Rightarrow>
        if err \<noteq> None then (None, err)
        else (Some (Apply ap \<lparr>tcpCfg = normalized, tcpHooks = [], tcpPolicies = []\<rparr> opts), None))"

definition tcp_Close :: "'w tcp_DefaultClient \<Rightarrow> go_error option" where
  "tcp_Close c = None"

definition tcp_invokeWithPolicies ::
  "lib \<Rightarrow> ctx option \<Rightarrow> operation \<Rightarrow>
   (ctx option \<Rightarrow> ('u world_scheme conn option \<times> go_error option, 'u world_scheme) prog) \<Rightarrow>
   'u world_scheme policy option list \<Rightarrow>
   ('u world_scheme conn option \<times> go_error option, 'u world_scheme) prog" where
  "tcp_invokeWithPolicies L ctx operation fn policies =
     pbind (InvokeWithPolicies L None ctx operation (Some fn) policies) (\<lambda>(conn, err).
       if err \<noteq> None
       then pret (None, oops_wrapf L ''clientx/tcp''
              [(''op'', AStr (Op operation)), (''addr'', AStr (Addr operation)),
               (''network'', AStr (Network operation)), (''protocol'', AStr (Protocol operation)),
               (''operation_kind'', AStr (Kind operation))]
              err ''execute tcp operation'')
       else pret (conn, None))"

definition tcp_dial_event :: "tcp_Config \<Rightarrow> duration \<Rightarrow> go_error option \<Rightarrow> DialEvent" where
  "tcp_dial_event cfg d err =
     \<lparr>dialProtocol = ProtocolTCP, dialOp = ''dial'', dialNetwork = tcpNetwork cfg,
      dialAddr = tcpAddress cfg, dialDuration = d, dialErr = err\<rparr>"

text \<open>What an attempt executes; the branches for TLS and for a plain connection differ in the dialer.\<close>

definition tcp_dialOnce ::
  "lib \<Rightarrow> 'u world_scheme net \<Rightarrow> 'u world_scheme tcp_DefaultClient \<Rightarrow> ctx option \<Rightarrow>
   ('u world_scheme conn option \<times> go_error option, 'u world_scheme) prog" where
  "tcp_dialOnce L N c execCtx =
     (let cfg = tcpCfg c;
          tls = (if TLSEnabled (tcpTLS cfg) then Some (tcpTLS cfg) else None)
      in pbind (pget now) (\<lambda>start.
         pbind (net_dial N tls (tcpDialTimeout cfg) (tcpKeepAlive cfg) execCtx (tcpNetwork cfg) (tcpAddress cfg))
           (\<lambda>r. pbind (pget now) (\<lambda>t.
             case r of
               Inl err \<Rightarrow>
                 (let wrappedErr = tcp_wrapClientError L ''dial'' (tcpAddress cfg) (Some err) in
                  pbind (EmitDial (tcpHooks c) (tcp_dial_event cfg (t - start) wrappedErr))
                    (\<lambda>_. pret (None, wrappedErr)))
             | Inr conn \<Rightarrow>
                 pbind (EmitDial (tcpHooks c) (tcp_dial_event cfg (t - start) None))
                   (\<lambda>_. pret (Some (tcp_wrapConn L conn cfg (tcpHooks c)), None))))))"

definition tcp_operation :: "tcp_Config \<Rightarrow> operation" where
  "tcp_operation cfg = \<lparr>Protocol = ProtocolTCP, Kind = OperationKindDial, Op = ''dial'',
     Network = tcpNetwork cfg, Addr = tcpAddress cfg\<rparr>"

definition tcp_Dial ::
  "lib \<Rightarrow> 'u world_scheme net \<Rightarrow> 'u world_scheme tcp_DefaultClient \<Rightarrow> ctx option \<Rightarrow>
   ('u world_scheme conn option \<times> go_error option, 'u world_scheme) prog" where
  "tcp_Dial L N c ctx =
     pbind (tcp_invokeWithPolicies L ctx (tcp_operation (tcpCfg c)) (tcp_dialOnce L N c) (tcpPolicies c))
       (\<lambda>(conn, err). if err \<noteq> None then pret (None, err) else pret (conn, None))"

section \<open>The codec connection\<close>

record ('w, 'o) tcp_CodecConn =
  tcConn :: "'w conn option"
  tcCodec :: "'o codec option"
  tcFramer :: "'w framer option"
  tcAddr :: string

definition tcp_NewCodecConn ::
  "'w conn option \<Rightarrow> 'o codec option \<Rightarrow> 'w framer option \<Rightarrow> string \<Rightarrow> ('w, 'o) tcp_CodecConn" where
  "tcp_NewCodecConn conn codec framer addr =
     \<lparr>tcConn = conn, tcCodec = codec, tcFramer = framer, tcAddr = addr\<rparr>"

definition tcp_DialCodec ::
  "lib \<Rightarrow> 'u world_scheme net \<Rightarrow> 'u world_scheme tcp_DefaultClient \<Rightarrow> ctx option \<Rightarrow>
   'o codec option \<Rightarrow> 'u world_scheme framer option \<Rightarrow>
   (('u world_scheme, 'o) tcp_CodecConn option \<times> go_error option, 'u world_scheme) prog" where
  "tcp_DialCodec L N c ctx codec framer =
     (if codec = None
      then pret (None, tcp_wrapCodecError L ''dial_codec'' (tcpAddress (tcpCfg c))
             (Some (ErrNew [] ''codec is nil'')))
      else if framer = None
      then pret (None, tcp_wrapCodecError L ''dial_codec'' (tcpAddress (tcpCfg c))
             (Some (ErrNew [] ''framer is nil'')))
      else pbind (tcp_Dial L N c ctx) (\<lambda>(conn, err).
        if err \<noteq> None then pret (None, err)
        else pret (Some (tcp_NewCodecConn conn codec framer (tcpAddress (tcpCfg c))), None)))"

definition tcp_Raw :: "('w, 'o) tcp_CodecConn option \<Rightarrow> 'w conn option" where
  "tcp_Raw c = (case c of None \<Rightarrow> None | Some cc \<Rightarrow> tcConn cc)"

definition tcp_CodecConn_Close ::
  "lib \<Rightarrow> ('w, 'o) tcp_CodecConn option \<Rightarrow> (go_error option, 'w) prog" where
  "tcp_CodecConn_Close L c =
     (case c of
        None \<Rightarrow> pret None
      | Some cc \<Rightarrow>
          (case tcConn cc of
             None \<Rightarrow> pret None
           | Some conn \<Rightarrow> pbind (ConnClose conn) (\<lambda>err.
               if err \<noteq> None
               then pret (oops_wrapf L ''clientx/tcp''
                      [(''op'', AStr ''close_codec_conn''), (''addr'', AStr (tcAddr cc)),
                       (''protocol'', AStr ProtocolTCP)] err ''close tcp codec conn'')
               else pret None)))"

definition tcp_nil_attrs :: "string \<Rightarrow> string \<Rightarrow> string \<Rightarrow> attrs" where
  "tcp_nil_attrs op addr stage =
     [(''op'', AStr op), (''addr'', AStr addr), (''protocol'', AStr ProtocolTCP), (''stage'', AStr stage)]"

definition tcp_WriteValue ::
  "lib \<Rightarrow> 'o runtime \<Rightarrow> ('w, 'o) tcp_CodecConn option \<Rightarrow> 'o go_value \<Rightarrow> (go_error option, 'w) prog" where
  "tcp_WriteValue L R c v =
     (case c of
        None \<Rightarrow> pret (Some (oops_new L ''clientx/tcp''
                  [(''op'', AStr ''encode''), (''protocol'', AStr ProtocolTCP)] ''codec conn is nil''))
      | Some cc \<Rightarrow>
          (case tcConn cc of
             None \<Rightarrow> pret (Some (oops_new L ''clientx/tcp''
                       (tcp_nil_attrs ''encode'' (tcAddr cc) ''validate_conn'') ''conn is nil''))
           | Some conn \<Rightarrow>
          (case tcCodec cc of
             None \<Rightarrow> pret (Some (oops_new L ''clientx/tcp''
                       (tcp_nil_attrs ''encode'' (tcAddr cc) ''validate_codec'') ''codec is nil''))
           | Some codec \<Rightarrow>
          (case tcFramer cc of
             None \<Rightarrow> pret (Some (oops_new L ''clientx/tcp''
                       (tcp_nil_attrs ''encode'' (tcAddr cc) ''validate_framer'') ''framer is nil''))
           | Some framer \<Rightarrow>
          pbind (pres (Marshal codec v)) (\<lambda>(payload, err).
            if err \<noteq> None
            then pret (oops_wrapf L ''clientx/tcp''
                   (tcp_nil_attrs ''encode'' (tcAddr cc) ''marshal'' @
                    [(''value_type'', AStr (value_type R v))])
                   (tcp_wrapCodecError L ''encode'' (tcAddr cc) err) ''encode tcp value'')
            else pbind (WriteFrame framer (Some (ConnWrite conn)) payload) (\<lambda>err.
              if err \<noteq> None
              then pret (oops_wrapf L ''clientx/tcp''
                     [(''op'', AStr ''write_frame''), (''addr'', AStr (tcAddr cc)),
                      (''protocol'', AStr ProtocolTCP), (''payload_size'', AInt (int (length payload)))]
                     (tcp_wrapClientError L ''write_frame'' (tcAddr cc) err) ''write tcp frame'')
              else pret None))))))"

text \<open>\<open>zero\<close> is a pointer to the zero value of the type that is read.\<close>

definition tcp_ReadValue ::
  "lib \<Rightarrow> 'o runtime \<Rightarrow> ('w, 'o) tcp_CodecConn option \<Rightarrow> 'o target \<Rightarrow>
   ('o target \<times> go_error option, 'w) prog" where
  "tcp_ReadValue L R c zero =
     (case c of
        None \<Rightarrow> pret (zero, Some (oops_new L ''clientx/tcp''
                  [(''op'', AStr ''decode''), (''protocol'', AStr ProtocolTCP)] ''codec conn is nil''))
      | Some cc \<Rightarrow>
          (case tcConn cc of
             None \<Rightarrow> pret (zero, Some (oops_new L ''clientx/tcp''
                       (tcp_nil_attrs ''decode'' (tcAddr cc) ''validate_conn'') ''conn is nil''))
           | Some conn \<Rightarrow>
          (case tcCodec cc of
             None \<Rightarrow> pret (zero, Some (oops_new L ''clientx/tcp''
                       (tcp_nil_attrs ''decode'' (tcAddr cc) ''validate_codec'') ''codec is nil''))
           | Some codec \<Rightarrow>
          (case tcFramer cc of
             None \<Rightarrow> pret (zero, Some (oops_new L ''clientx/tcp''
                       (tcp_nil_attrs ''decode'' (tcAddr cc) ''validate_framer'') ''framer is nil''))
           | Some framer \<Rightarrow>
          pbind (ReadFrame framer (Some (ConnRead conn))) (\<lambda>(frame, err).
            if err \<noteq> None
            then pret (zero, oops_wrapf L ''clientx/tcp''
                   [(''op'', AStr ''read_frame''), (''addr'', AStr (tcAddr cc)), (''protocol'', AStr ProtocolTCP)]
                   (tcp_wrapClientError L ''read_frame'' (tcAddr cc) err) ''read tcp frame'')
            else pbind (pres (Unmarshal codec frame zero)) (\<lambda>(val, err).
              if err \<noteq> None
              then pret (val, oops_wrapf L ''clientx/tcp''
                     (tcp_nil_attrs ''decode'' (tcAddr cc) ''unmarshal'' @
                      [(''target_type'', AStr (target_type R zero)), (''payload_size'', AInt (int (length frame)))])
                     (tcp_wrapCodecError L ''decode'' (tcAddr cc) err) ''decode tcp value'')
              else pret (val, None)))))))"

end
