(* ===== verification/Tcp_Properties.thy ===== *)
theory Tcp_Properties
  imports Tcp
begin

text \<open>
  What holds of package \<^verbatim>\<open>tcp\<close>: its configurations, its guarded streams, values over them, and
  dialling.
\<close>

section \<open>Configuration\<close>

definition tcp_normal :: "tcp_Config \<Rightarrow> tcp_Config" where
  "tcp_normal cfg = cfg\<lparr>
     tcpNetwork := (if trim_space (tcpNetwork cfg) = [] then ''tcp'' else trim_space (tcpNetwork cfg)),
     tcpAddress := trim_space (tcpAddress cfg),
     tcpDialTimeout := (if tcpDialTimeout cfg = 0 then tcp_defaultDialTimeout else tcpDialTimeout cfg)\<rparr>"

definition tcp_valid :: "tcp_Config \<Rightarrow> bool" where
  "tcp_valid cfg \<longleftrightarrow> tcpNetwork cfg \<noteq> [] \<and> tcpAddress cfg \<noteq> [] \<and> 0 < tcpDialTimeout cfg \<and>
     0 \<le> tcpReadTimeout cfg \<and> 0 \<le> tcpWriteTimeout cfg \<and> 0 \<le> tcpKeepAlive cfg \<and>
     (TLSEnabled (tcpTLS cfg) \<longrightarrow> has_prefix (tcpNetwork cfg) ''tcp'')"

lemma tcp_normal_idem: "tcp_normal (tcp_normal cfg) = tcp_normal cfg"
proof -
  have "trim_space ''tcp'' = ''tcp''" by code_simp
  then show ?thesis by (simp add: tcp_normal_def tcp_defaultDialTimeout_def)
qed

lemma tcp_Normalize_eq:
  "tcp_NormalizeAndValidate L cfg =
     (let out = tcp_normal cfg in
      if tcpAddress out = []
      then tcp_invalid L [(''field'', AStr ''address''), (''network'', AStr (tcpNetwork out))]
             ''address is required''
      else if tcpDialTimeout out < 0 \<or> tcpReadTimeout out < 0 \<or> tcpWriteTimeout out < 0 \<or> tcpKeepAlive out < 0
      then tcp_invalid L
             [(''field'', AStr ''timeout''), (''network'', AStr (tcpNetwork out)),
              (''dial_timeout'', ADur (tcpDialTimeout out)), (''read_timeout'', ADur (tcpReadTimeout out)),
              (''write_timeout'', ADur (tcpWriteTimeout out)), (''keep_alive'', ADur (tcpKeepAlive out))]
             ''timeout values must be >= 0''
      else if TLSEnabled (tcpTLS out) \<and> \<not> has_prefix (tcpNetwork out) ''tcp''
      then tcp_invalid L
             [(''field'', AStr ''network''), (''network'', AStr (tcpNetwork out)),
              (''tls_enabled'', ABool (TLSEnabled (tcpTLS out)))]
             ''tls requires tcp network''
      else (out, None))"
  by (simp add: tcp_NormalizeAndValidate_def tcp_normal_def Let_def)

lemma tcp_normal_defaults: "tcpNetwork (tcp_normal cfg) \<noteq> []" "tcpDialTimeout (tcp_normal cfg) \<noteq> 0"
  by (simp_all add: tcp_normal_def tcp_defaultDialTimeout_def)

lemma tcp_Normalize_ok: "tcp_valid (tcp_normal cfg) \<Longrightarrow> tcp_NormalizeAndValidate L cfg = (tcp_normal cfg, None)"
  by (auto simp: tcp_valid_def tcp_Normalize_eq Let_def)

lemma tcp_Normalize_fails:
  assumes "\<not> tcp_valid (tcp_normal cfg)"
  obtains as msg where "tcp_NormalizeAndValidate L cfg = tcp_invalid L as msg"
proof -
  have "tcpAddress (tcp_normal cfg) = [] \<or> (tcpDialTimeout (tcp_normal cfg) < 0 \<or> tcpReadTimeout (tcp_normal cfg) < 0 \<or>
      tcpWriteTimeout (tcp_normal cfg) < 0 \<or> tcpKeepAlive (tcp_normal cfg) < 0) \<or>
      (TLSEnabled (tcpTLS (tcp_normal cfg)) \<and> \<not> has_prefix (tcpNetwork (tcp_normal cfg)) ''tcp'')"
    using assms tcp_normal_defaults [of cfg] by (auto simp: tcp_valid_def)
  then show thesis using that tcp_Normalize_eq [of L cfg] unfolding Let_def
    by (cases "tcpAddress (tcp_normal cfg) = []") (simp_all only: if_True if_False simp_thms split: if_splits)
qed

lemma tcp_invalid_error:
  assumes "oops_ok L" and "tcp_invalid L as msg = (out, err)"
  shows "out = tcp_zero_Config \<and> err \<noteq> None \<and> errors_is err tcp_ErrInvalidConfig"
proof -
  have "out = tcp_zero_Config" and err: "err = oops_wrapf L ''clientx/tcp''
      ((''op'', AStr ''normalize_validate'') # as) (Some tcp_ErrInvalidConfig) msg"
    using assms(2) by (simp_all add: tcp_invalid_def)
  moreover have "errors_is err tcp_ErrInvalidConfig"
    unfolding err using assms(1) by (simp add: errors_is_Some tcp_ErrInvalidConfig_def)
  moreover from this have "err \<noteq> None" by (metis errors_is_None)
  ultimately show ?thesis by blast
qed

text \<open>
  Normalising a configuration either gives a valid one, with a network, an address, a positive
  dial timeout, no negative timeout, and TLS only over a tcp network, which normalising again leaves
  alone; or it fails with \<open>ErrInvalidConfig\<close>, exactly when trimming and the defaults do not make the
  configuration valid.
\<close>

theorem tcp_config_normal:
  assumes "oops_ok L"
  shows "case tcp_NormalizeAndValidate L cfg of (out, err) \<Rightarrow>
    if tcp_valid (tcp_normal cfg)
    then out = tcp_normal cfg \<and> err = None \<and> tcp_NormalizeAndValidate L out = (out, None)
    else out = tcp_zero_Config \<and> errors_is err tcp_ErrInvalidConfig"
proof (cases "tcp_valid (tcp_normal cfg)")
  case True
  then show ?thesis
    using tcp_Normalize_ok [of cfg L] tcp_Normalize_ok [of "tcp_normal cfg" L] by (simp add: tcp_normal_idem)
next
  case False
  then obtain as msg where "tcp_NormalizeAndValidate L cfg = tcp_invalid L as msg"
    by (rule tcp_Normalize_fails)
  then show ?thesis using False tcp_invalid_error [OF assms, of as msg] by (cases "tcp_invalid L as msg") simp
qed

definition sample_tcp_Config :: tcp_Config where
  "sample_tcp_Config = tcp_zero_Config\<lparr>tcpAddress := '' h:1 ''\<rparr>"

theorem tcp_config_normal_witness:
  "case tcp_NormalizeAndValidate plain_lib sample_tcp_Config of (out, err) \<Rightarrow>
     tcpAddress out = ''h:1'' \<and> tcpNetwork out = ''tcp'' \<and> tcpDialTimeout out = 5 * second \<and> err = None"
proof -
  have t: "trim_space '' h:1 '' = ''h:1''" "trim_space [] = []" by code_simp+
  have v: "tcp_valid (tcp_normal sample_tcp_Config)"
    by (simp add: tcp_valid_def tcp_normal_def sample_tcp_Config_def tcp_zero_Config_def t
        tcp_defaultDialTimeout_def)
  have n: "tcp_normal sample_tcp_Config = sample_tcp_Config\<lparr>tcpNetwork := ''tcp'', tcpAddress := ''h:1'',
      tcpDialTimeout := 5 * second\<rparr>"
    by (simp add: tcp_normal_def sample_tcp_Config_def tcp_zero_Config_def t tcp_defaultDialTimeout_def)
  show ?thesis using tcp_config_normal [OF plain_lib_ok, of sample_tcp_Config] v
    unfolding n by auto
qed

section \<open>Guarded streams\<close>

lemma tcp_runIO_guarded:
  "tcp_runIO L op addr hooks timeout setDeadline run nothing size_of =
     guarded_io (tcp_applyDeadline L setDeadline timeout op addr) run nothing size_of
       (tcp_wrapClientError L op addr) (\<lambda>n d e. tcp_emitIO op addr n d e hooks)"
  by (simp add: tcp_runIO_def guarded_io_def)

lemma tcp_applyDeadline_set:
  assumes "\<And>t w. \<exists>w'. setDeadline t w = Some (Ret None, w') \<and> f w' = f w"
  shows "\<exists>w'. tcp_applyDeadline L setDeadline timeout op addr w = Some (Ret None, w') \<and> f w' = f w"
  using assms [of "now w + timeout" w] by (auto simp: tcp_applyDeadline_def pbind_apply)

lemma tcp_emitIO_quiet:
  assumes "\<And>k e. Some k \<in> set hooks \<Longrightarrow> returns (OnIO k e) \<and> keeps f (OnIO k e)"
  shows "quiet f (tcp_emitIO op addr n d err hooks)"
  unfolding tcp_emitIO_def by (rule quiet_EmitIO) (use assms in blast)+

text \<open>An error of the wrapped connection, as the client reports it, keeps its cause.\<close>

lemma tcp_wrapClientError_is:
  assumes "oops_ok L" and "\<not> is_foreign x" and "\<not> is_client_error x"
  shows "errors_is (tcp_wrapClientError L op addr err) x = errors_is err x"
  using assms by (simp add: tcp_wrapClientError_def errors_is_WrapError)

lemma tcp_wrapClientError_foreign:
  assumes "oops_ok L"
  obtains ty tx x where "tcp_wrapClientError L op addr (Some e) = Some (Foreign ty tx None [x])"
proof -
  obtain x where "WrapError L ProtocolTCP op addr (Some e) = Some x"
    by (cases "WrapError L ProtocolTCP op addr (Some e)") (simp_all add: WrapError_def)
  then show thesis using that
    unfolding tcp_wrapClientError_def by (metis oops_wrapf_SomeE [OF assms])
qed

text \<open>What a connection must do for the streams over it to be streams.\<close>

definition calm_conn :: "('u world_scheme \<Rightarrow> byte list) \<Rightarrow> 'u world_scheme tcp_timeoutConn \<Rightarrow> bool" where
  "calm_conn f c \<longleftrightarrow>
     (\<forall>t w. \<exists>w'. SetReadDeadline (tconnConn c) t w = Some (Ret None, w') \<and> f w' = f w) \<and>
     (\<forall>t w. \<exists>w'. SetWriteDeadline (tconnConn c) t w = Some (Ret None, w') \<and> f w' = f w) \<and>
     (\<forall>h \<in> set (tconnHooks c). quiet_hook f h)"

lemma tcp_Read_source:
  assumes "byte_source (ConnRead (tconnConn c)) src eof" and "calm_conn src c"
    and "tcp_wrapClientError L ''read'' (tconnAddr c) (Some eof) = Some wrapped"
  shows "byte_source (tcp_Read L c) src wrapped"
proof -
  have "guarded_source (ConnRead (tconnConn c)) src eof
      (tcp_applyDeadline L (SetReadDeadline (tconnConn c)) (tconnReadTimeout c) ''read'' (tconnAddr c)) wrapped
      (tcp_wrapClientError L ''read'' (tconnAddr c))
      (\<lambda>n d e. tcp_emitIO ''read'' (tconnAddr c) n d e (tconnHooks c))"
    using assms(2,3)
    by (intro guarded_source.intro [OF assms(1)] guarded_source_axioms.intro
        tcp_applyDeadline_set tcp_emitIO_quiet) (auto simp: calm_conn_def quiet_hook_def)
  from guarded_source.guarded_byte_source [OF this] show ?thesis
    unfolding tcp_Read_def [abs_def] tcp_runIO_guarded .
qed

lemma tcp_Write_sink:
  assumes "byte_sink (ConnWrite (tconnConn c)) out" and "calm_conn out c"
  shows "byte_sink (tcp_Write L c) out"
proof -
  have "guarded_sink (ConnWrite (tconnConn c)) out
      (tcp_applyDeadline L (SetWriteDeadline (tconnConn c)) (tconnWriteTimeout c) ''write'' (tconnAddr c))
      (\<lambda>n d e. tcp_emitIO ''write'' (tconnAddr c) n d e (tconnHooks c))"
    using assms(2)
    by (intro guarded_sink.intro [OF assms(1)] guarded_sink_axioms.intro
        tcp_applyDeadline_set tcp_emitIO_quiet) (auto simp: calm_conn_def quiet_hook_def)
  from guarded_sink.guarded_byte_sink [OF this] show ?thesis
    unfolding tcp_Write_def [abs_def] tcp_runIO_guarded .
qed

lemma calm_conn_mem:
  assumes "tconnConn c = mem_conn" and "\<forall>h \<in> set (tconnHooks c). quiet_hook f h"
  shows "calm_conn f c"
  using assms by (simp add: calm_conn_def mem_conn_def)

text \<open>The two contracts on the model's own parts, over the connection in memory.\<close>

interpretation tcp_in: guarded_source mem_read net_in ErrEOF
    "tcp_applyDeadline (lawful L) (SetReadDeadline mem_conn) timeout ''read'' addr"
    "the (tcp_wrapClientError (lawful L) ''read'' addr (Some ErrEOF))"
    "tcp_wrapClientError (lawful L) ''read'' addr"
    "\<lambda>n d e. tcp_emitIO ''read'' addr n d e (filter (quiet_hook net_in) hooks)"
  for L timeout addr and hooks :: "'u net_world_scheme hook option list"
proof
  fix w :: "'u net_world_scheme" and n d e
  show "\<exists>w'. tcp_applyDeadline (lawful L) (SetReadDeadline mem_conn) timeout ''read'' addr w = Some (Ret None, w') \<and>
      net_in w' = net_in w"
    by (rule tcp_applyDeadline_set) (simp add: mem_conn_def)
  show "tcp_wrapClientError (lawful L) ''read'' addr (Some ErrEOF) =
      Some (the (tcp_wrapClientError (lawful L) ''read'' addr (Some ErrEOF)))"
    by (rule tcp_wrapClientError_foreign [OF lawful_ok [of L], of "''read''" addr ErrEOF]) simp
  show "quiet net_in (tcp_emitIO ''read'' addr n d e (filter (quiet_hook net_in) hooks))"
    by (rule tcp_emitIO_quiet) (auto simp: quiet_hook_def)
qed

interpretation tcp_out: guarded_sink mem_write net_out
    "tcp_applyDeadline (lawful L) (SetWriteDeadline mem_conn) timeout ''write'' addr"
    "tcp_wrapClientError (lawful L) ''write'' addr"
    "\<lambda>n d e. tcp_emitIO ''write'' addr n d e (filter (quiet_hook net_out) hooks)"
  for L timeout addr and hooks :: "'u net_world_scheme hook option list"
proof
  fix w :: "'u net_world_scheme" and n d e
  show "\<exists>w'. tcp_applyDeadline (lawful L) (SetWriteDeadline mem_conn) timeout ''write'' addr w = Some (Ret None, w') \<and>
      net_out w' = net_out w"
    by (rule tcp_applyDeadline_set) (simp add: mem_conn_def)
  show "quiet net_out (tcp_emitIO ''write'' addr n d e (filter (quiet_hook net_out) hooks))"
    by (rule tcp_emitIO_quiet) (auto simp: quiet_hook_def)
qed

section \<open>The end of a stream\<close>

lemma tcp_Read_source_wrapped:
  assumes "oops_ok L" and "byte_source (ConnRead (tconnConn c)) src eof" and "calm_conn src c"
  obtains ty tx x where "byte_source (tcp_Read L c) src (Foreign ty tx None [x])"
    and "tcp_wrapClientError L ''read'' (tconnAddr c) (Some eof) = Some (Foreign ty tx None [x])"
  using tcp_wrapClientError_foreign [OF assms(1)] tcp_Read_source [OF assms(2,3)] by metis

text \<open>What \<open>errors.Is\<close> sees of the error of a frame that does not arrive in full.\<close>

lemma short_frame_is:
  assumes "oops_ok L" and "byte_source rd src eof" and "frame_bytes frame = src w @ missing"
    and "missing \<noteq> []" and "fits f frame"
  obtains w' e where "readFrame L f (Some rd) w = Some (Ret ([], e), w')"
    and "\<And>t. \<not> is_foreign t \<Longrightarrow> errors_is e t = errors_is (Some (byte_source.short_error eof
      (if length (src w) < 4 then src w else drop 4 (src w)))) t"
  using byte_source.readFrame_short_wrapped [OF assms(2,1,3,4,5)] errors_is_wrapf_iff [OF assms(1)] by metis

lemma short_frame_guarded:
  assumes "oops_ok L" and "byte_source (ConnRead (tconnConn c)) src ErrEOF" and "calm_conn src c"
    and "frame_bytes frame = src w @ missing" and "missing \<noteq> []" and "fits f frame"
  obtains w' e where "readFrame L f (Some (tcp_Read L c)) w = Some (Ret ([], e), w')"
    and "\<And>t. \<not> is_foreign t \<Longrightarrow> \<not> is_client_error t \<Longrightarrow> errors_is e t = errors_is (Some ErrEOF) t"
proof -
  obtain ty tx x where g: "byte_source (tcp_Read L c) src (Foreign ty tx None [x])"
    and e: "tcp_wrapClientError L ''read'' (tconnAddr c) (Some ErrEOF) = Some (Foreign ty tx None [x])"
    using tcp_Read_source_wrapped [OF assms(1,2,3)] .
  have "errors_is (Some (byte_source.short_error (Foreign ty tx None [x]) got)) t = errors_is (Some ErrEOF) t"
    if "\<not> is_foreign t" "\<not> is_client_error t" for t got
    using tcp_wrapClientError_is [OF assms(1) that, of "''read''" "tconnAddr c" "Some ErrEOF"]
    unfolding e by (simp add: byte_source.short_error_def [OF g])
  then show thesis using short_frame_is [OF assms(1) g assms(4,5,6)] that by metis
qed

text \<open>
  C29: the guarded connection never answers \<open>io.EOF\<close> itself, only an error around it, so \<open>io.ReadFull\<close>
  does not recognise it. Take a stream that ended between two frames (\<open>v\<close>) and one that ended inside the
  header or inside the payload of a frame (\<open>w\<close>). Over the bare connection \<open>errors.Is\<close> tells them apart:
  the first is \<open>io.EOF\<close>, the second \<open>io.ErrUnexpectedEOF\<close>. Over the guarded one \<open>errors.Is\<close> gives the same
  answer for both, whatever sentinel it is asked for: both are \<open>io.EOF\<close>. (The message and the stage
  attribute of the two errors may still differ. A stream that ends right after a header is left out: there
  \<open>io.ReadFull\<close> answers \<open>io.EOF\<close> over the bare connection too.)
\<close>

theorem tcp_truncated_frame:
  assumes "oops_ok L" and "byte_source (ConnRead (tconnConn c)) src ErrEOF" and "calm_conn src c"
    and "src v = []"
    and "frame_bytes frame = src w @ missing" and "missing \<noteq> []" and "fits f frame"
    and "length (src w) \<notin> {0, 4}"
  shows "(\<exists>v' e. readFrame L f (Some (ConnRead (tconnConn c))) v = Some (Ret ([], e), v') \<and>
      errors_is e ErrEOF \<and> \<not> errors_is e ErrUnexpectedEOF) \<and>
    (\<exists>w' e. readFrame L f (Some (ConnRead (tconnConn c))) w = Some (Ret ([], e), w') \<and>
      errors_is e ErrUnexpectedEOF \<and> \<not> errors_is e ErrEOF) \<and>
    (\<exists>v' w' e e'. readFrame L f (Some (tcp_Read L c)) v = Some (Ret ([], e), v') \<and>
      readFrame L f (Some (tcp_Read L c)) w = Some (Ret ([], e'), w') \<and>
      (\<forall>t. \<not> is_foreign t \<and> \<not> is_client_error t \<longrightarrow> errors_is e t = errors_is e' t) \<and>
      errors_is e ErrEOF \<and> \<not> errors_is e' ErrUnexpectedEOF)"
proof -
  have n: "frame_bytes [] = src v @ frame_bytes []" "frame_bytes [] \<noteq> []" "fits f []"
    using assms(4) by (simp_all add: frame_bytes_def be32_put_def fits_def)
  have s1: "byte_source.short_error ErrEOF (if length (src v) < 4 then src v else drop 4 (src v)) = ErrEOF"
    using assms(4) by (simp add: byte_source.short_error_def [OF assms(2)])
  have s2: "byte_source.short_error ErrEOF (if length (src w) < 4 then src w else drop 4 (src w)) = ErrUnexpectedEOF"
    using assms(8) by (auto simp: byte_source.short_error_def [OF assms(2)])
  obtain v1 e1 where r1: "readFrame L f (Some (ConnRead (tconnConn c))) v = Some (Ret ([], e1), v1)"
    and i1: "\<And>t. \<not> is_foreign t \<Longrightarrow> errors_is e1 t = errors_is (Some ErrEOF) t"
    using short_frame_is [OF assms(1,2) n] unfolding s1 by metis
  obtain w2 e2 where r2: "readFrame L f (Some (ConnRead (tconnConn c))) w = Some (Ret ([], e2), w2)"
    and i2: "\<And>t. \<not> is_foreign t \<Longrightarrow> errors_is e2 t = errors_is (Some ErrUnexpectedEOF) t"
    using short_frame_is [OF assms(1,2,5,6,7)] unfolding s2 by metis
  obtain v3 e3 where r3: "readFrame L f (Some (tcp_Read L c)) v = Some (Ret ([], e3), v3)"
    and i3: "\<And>t. \<not> is_foreign t \<Longrightarrow> \<not> is_client_error t \<Longrightarrow> errors_is e3 t = errors_is (Some ErrEOF) t"
    using short_frame_guarded [OF assms(1,2,3) n] by metis
  obtain w4 e4 where r4: "readFrame L f (Some (tcp_Read L c)) w = Some (Ret ([], e4), w4)"
    and i4: "\<And>t. \<not> is_foreign t \<Longrightarrow> \<not> is_client_error t \<Longrightarrow> errors_is e4 t = errors_is (Some ErrEOF) t"
    using short_frame_guarded [OF assms(1,2,3,5,6,7)] by metis
  have "errors_is e1 ErrEOF \<and> \<not> errors_is e1 ErrUnexpectedEOF" "errors_is e2 ErrUnexpectedEOF \<and> \<not> errors_is e2 ErrEOF"
    "errors_is e3 ErrEOF \<and> \<not> errors_is e4 ErrUnexpectedEOF"
    by (simp_all add: i1 i2 i3 i4 errors_is_Some)
  then show ?thesis using r1 r2 r3 r4 i3 i4 by blast
qed

definition mem_guarded :: "'u net_world_scheme tcp_timeoutConn" where
  "mem_guarded = \<lparr>tconnConn = mem_conn, tconnReadTimeout = second, tconnWriteTimeout = 0, tconnAddr = ''h:1'',
     tconnHooks = []\<rparr>"

lemma mem_guarded_facts:
  "byte_source (ConnRead (tconnConn mem_guarded)) net_in ErrEOF"
  "byte_sink (ConnWrite (tconnConn mem_guarded)) net_out"
  "calm_conn net_in mem_guarded" "calm_conn net_out mem_guarded"
  using mem_in.byte_source_axioms mem_out.byte_sink_axioms
  by (simp_all add: mem_guarded_def calm_conn_mem mem_conn_def calm_conn_def)

theorem tcp_truncated_frame_witness:
  "(\<exists>v' e. readFrame plain_lib (NewLengthPrefixed 32) (Some mem_read) (net_start []) =
      Some (Ret ([], e), v') \<and> errors_is e ErrEOF \<and> \<not> errors_is e ErrUnexpectedEOF) \<and>
   (\<exists>w' e. readFrame plain_lib (NewLengthPrefixed 32) (Some mem_read) (net_start [0, 0, 0, 3, 9]) =
      Some (Ret ([], e), w') \<and> errors_is e ErrUnexpectedEOF \<and> \<not> errors_is e ErrEOF) \<and>
   (\<exists>v' w' e e'. readFrame plain_lib (NewLengthPrefixed 32) (Some (tcp_Read plain_lib mem_guarded)) (net_start []) =
      Some (Ret ([], e), v') \<and>
      readFrame plain_lib (NewLengthPrefixed 32) (Some (tcp_Read plain_lib mem_guarded))
        (net_start [0, 0, 0, 3, 9]) = Some (Ret ([], e'), w') \<and>
      (\<forall>t. \<not> is_foreign t \<and> \<not> is_client_error t \<longrightarrow> errors_is e t = errors_is e' t) \<and>
      errors_is e ErrEOF \<and> \<not> errors_is e' ErrUnexpectedEOF)"
proof -
  let ?w = "net_start [0, 0, 0, 3, 9]"
  have b: "frame_bytes [9, 9, 9] = net_in ?w @ [9, 9]"
    by (simp add: frame_bytes_def be32_put_def net_start_def)
  have m: "[9, 9 :: byte] \<noteq> []" by simp
  have f: "fits (NewLengthPrefixed 32) [9, 9, 9]" by (simp add: fits_def NewLengthPrefixed_def)
  have l: "length (net_in ?w) \<notin> {0, 4}" by (simp add: net_start_def)
  have v: "net_in (net_start []) = []" by (simp add: net_start_def)
  have r: "ConnRead (tconnConn mem_guarded) = mem_read" by (simp add: mem_guarded_def mem_conn_def)
  show ?thesis
    using tcp_truncated_frame [OF plain_lib_ok mem_guarded_facts(1,3) v b m f l] unfolding r .
qed

section \<open>Values over a connection\<close>

text \<open>Several values in a row; \<open>wire\<close> is what they are on the wire.\<close>

fun tcp_write_all ::
  "lib \<Rightarrow> 'o runtime \<Rightarrow> ('w, 'o) tcp_CodecConn option \<Rightarrow> 'o go_value list \<Rightarrow> (go_error option, 'w) prog" where
  "tcp_write_all L R c [] = pret None"
| "tcp_write_all L R c (v # vs) = pbind (tcp_WriteValue L R c v) (\<lambda>err.
     if err \<noteq> None then pret err else tcp_write_all L R c vs)"

fun tcp_read_all ::
  "lib \<Rightarrow> 'o runtime \<Rightarrow> ('w, 'o) tcp_CodecConn option \<Rightarrow> 'o target list \<Rightarrow>
   ('o target list \<times> go_error option, 'w) prog" where
  "tcp_read_all L R c [] = pret ([], None)"
| "tcp_read_all L R c (t # ts) = pbind (tcp_ReadValue L R c t) (\<lambda>(x, err).
     if err \<noteq> None then pret ([], err)
     else pbind (tcp_read_all L R c ts) (\<lambda>(xs, err). pret (x # xs, err)))"

definition wire :: "'o codec \<Rightarrow> 'o go_value list \<Rightarrow> byte list" where
  "wire codec vs = concat (map (\<lambda>v. frame_bytes (payload codec v)) vs)"

lemma wire_simps [simp]: "wire codec [] = []" "wire codec (v # vs) = frame_bytes (payload codec v) @ wire codec vs"
  by (simp_all add: wire_def)

locale value_link = faithful_codec codec vals fresh decoded + byte_sink "ConnWrite conn" out +
    byte_source "ConnRead conn" src eof
  for codec :: "'o codec" and vals fresh decoded and conn :: "'w conn" and out src eof
begin

lemma write_value:
  assumes "v \<in> vals" and "fits f (payload codec v)"
  shows "\<exists>w'. tcp_WriteValue L R (Some (tcp_NewCodecConn (Some conn) (Some codec) (Some (length_prefixed L f)) addr))
      v w = Some (Ret None, w') \<and> out w' = out w @ frame_bytes (payload codec v)"
  using writeFrame_spec [OF assms(2), of L w] marshal_payload [OF assms(1)]
  by (auto simp: tcp_WriteValue_def tcp_NewCodecConn_def length_prefixed_def pbind_apply)

lemma read_value:
  assumes "v \<in> vals" and "fits f (payload codec v)" and "src w = frame_bytes (payload codec v) @ rest"
  shows "\<exists>w'. tcp_ReadValue L R (Some (tcp_NewCodecConn (Some conn) (Some codec) (Some (length_prefixed L f)) addr))
      (fresh v) w = Some (Ret (decoded v, None), w') \<and> src w' = rest"
  using readFrame_spec [OF assms(2,3), of L] unmarshal_ok [OF assms(1) marshal_payload [OF assms(1)]]
  by (auto simp: tcp_ReadValue_def tcp_NewCodecConn_def length_prefixed_def pbind_apply)

lemma write_values:
  assumes "\<forall>v \<in> set vs. v \<in> vals \<and> fits f (payload codec v)"
  shows "\<exists>w'. tcp_write_all L R (Some (tcp_NewCodecConn (Some conn) (Some codec) (Some (length_prefixed L f)) addr))
      vs w = Some (Ret None, w') \<and> out w' = out w @ wire codec vs"
  using assms
proof (induction vs arbitrary: w)
  case (Cons v vs)
  obtain w1 where "tcp_WriteValue L R (Some (tcp_NewCodecConn (Some conn) (Some codec) (Some (length_prefixed L f)) addr))
      v w = Some (Ret None, w1)" "out w1 = out w @ frame_bytes (payload codec v)"
    using write_value [of v f L R addr w] Cons.prems by auto
  then show ?case using Cons.IH [of w1] Cons.prems by (auto simp: pbind_apply)
qed simp

lemma read_values:
  assumes "\<forall>v \<in> set vs. v \<in> vals \<and> fits f (payload codec v)" and "src w = wire codec vs @ rest"
  shows "\<exists>w'. tcp_read_all L R (Some (tcp_NewCodecConn (Some conn) (Some codec) (Some (length_prefixed L f)) addr))
      (map fresh vs) w = Some (Ret (map decoded vs, None), w') \<and> src w' = rest"
  using assms
proof (induction vs arbitrary: w)
  case (Cons v vs)
  obtain w1 where "tcp_ReadValue L R (Some (tcp_NewCodecConn (Some conn) (Some codec) (Some (length_prefixed L f)) addr))
      (fresh v) w = Some (Ret (decoded v, None), w1)" "src w1 = wire codec vs @ rest"
    using read_value [of v f w "wire codec vs @ rest" L R addr] Cons.prems by auto
  then show ?case using Cons.IH [of w1] Cons.prems by (auto simp: pbind_apply)
qed simp

end

text \<open>The guarded connection over the one in memory provides the contract, for the text codec.\<close>

interpretation tcp_text: value_link "TextCodec (lawful L) R" "{v. plain_value v}" fresh_target decoded_target
    "tcp_conn (lawful L) mem_guarded" net_out net_in "the (tcp_wrapClientError (lawful L) ''read'' ''h:1'' (Some ErrEOF))"
  for L :: lib and R :: "'o runtime"
proof (intro value_link.intro)
  show "faithful_codec (TextCodec (lawful L) R) {v. plain_value v} fresh_target decoded_target"
    by (rule textc.faithful_codec_axioms)
  show "byte_sink (ConnWrite (tcp_conn (lawful L) mem_guarded)) net_out"
    using tcp_Write_sink [OF mem_guarded_facts(2,4)] by (simp add: tcp_conn_def)
  have "\<exists>x. tcp_wrapClientError (lawful L) ''read'' ''h:1'' (Some ErrEOF) = Some x"
    by (rule tcp_wrapClientError_foreign [OF lawful_ok [of L], of "''read''" "''h:1''" ErrEOF]) simp
  then show "byte_source (ConnRead (tcp_conn (lawful L) mem_guarded)) net_in
      (the (tcp_wrapClientError (lawful L) ''read'' ''h:1'' (Some ErrEOF)))"
    using tcp_Read_source [OF mem_guarded_facts(1,3), of "lawful L"] by (auto simp: tcp_conn_def mem_guarded_def)
qed

text \<open>
  Values survive a guarded connection: with a faithful codec and payloads within the limit, writing
  values sends their frames in order, and reading as many where these frames come next gives the
  values back and leaves what follows.
\<close>

theorem tcp_values_roundtrip:
  assumes "oops_ok L" and "faithful_codec codec vals fresh decoded"
    and "byte_sink (ConnWrite (tconnConn c)) out" and "byte_source (ConnRead (tconnConn c)) src eof"
    and "calm_conn out c" and "calm_conn src c"
    and "\<forall>v \<in> set vs. v \<in> vals \<and> fits f (payload codec v)"
  shows "let cc = Some (tcp_NewCodecConn (Some (tcp_conn L c)) (Some codec) (Some (length_prefixed L f)) addr) in
    (\<exists>w'. tcp_write_all L R cc vs w = Some (Ret None, w') \<and> out w' = out w @ wire codec vs) \<and>
    (src v = wire codec vs @ rest \<longrightarrow>
      (\<exists>v'. tcp_read_all L R cc (map fresh vs) v = Some (Ret (map decoded vs, None), v') \<and> src v' = rest))"
proof -
  obtain eof' where src: "byte_source (tcp_Read L c) src eof'"
    using tcp_Read_source_wrapped [OF assms(1,4,6)] by metis
  have l: "value_link codec vals fresh decoded (tcp_conn L c) out src eof'"
    using src tcp_Write_sink [OF assms(3,5)] assms(2)
    by (intro value_link.intro) (simp_all add: tcp_conn_def)
  show ?thesis unfolding Let_def
    by (intro conjI impI value_link.write_values [OF l assms(7)] value_link.read_values [OF l assms(7)])
qed

theorem tcp_values_roundtrip_witness:
  "\<exists>w v. tcp_write_all plain_lib no_runtime
      (Some (tcp_NewCodecConn (Some (tcp_conn plain_lib mem_guarded)) (Some (TextCodec plain_lib no_runtime))
        (Some (length_prefixed plain_lib (NewLengthPrefixed 0))) ''h:1''))
      [VString ''ping'', VBytes [7]] (net_start []) = Some (Ret None, w) \<and>
    tcp_read_all plain_lib no_runtime
      (Some (tcp_NewCodecConn (Some (tcp_conn plain_lib mem_guarded)) (Some (TextCodec plain_lib no_runtime))
        (Some (length_prefixed plain_lib (NewLengthPrefixed 0))) ''h:1''))
      [PString (Some []), PBytes (Some [])] (net_start (net_out w)) =
      Some (Ret ([PString (Some ''ping''), PBytes (Some [7])], None), v) \<and> net_in v = []"
proof -
  let ?C = "TextCodec plain_lib no_runtime" and ?vs = "[VString ''ping'', VBytes [7]] :: unit go_value list"
  have v: "\<forall>v \<in> set ?vs. v \<in> {v. plain_value v} \<and> fits (NewLengthPrefixed 0) (payload ?C v)"
    by (simp add: fits_def payload_def TextCodec_def NewLengthPrefixed_def DefaultMaxFrameBytes_def)
  note t = tcp_values_roundtrip [OF plain_lib_ok textc.faithful_codec_axioms mem_guarded_facts(2,1,4,3) v,
      where R = no_runtime and addr = "''h:1''", unfolded Let_def]
  obtain w where w: "tcp_write_all plain_lib no_runtime
      (Some (tcp_NewCodecConn (Some (tcp_conn plain_lib mem_guarded)) (Some ?C)
        (Some (length_prefixed plain_lib (NewLengthPrefixed 0))) ''h:1''))
      ?vs (net_start []) = Some (Ret None, w)" "net_out w = wire ?C ?vs"
    using t [of "net_start []"] by (auto simp: net_start_def)
  have "net_in (net_start (net_out w)) = wire ?C ?vs @ []" using w(2) by (simp add: net_start_def)
  with t [of _ "net_start (net_out w)" "[]"] w(1) show ?thesis by auto
qed

lemma KindOf_tcp_wrapCodecError:
  assumes "oops_ok L" and "errors_as is_client_error (Some e) = None"
  shows "KindOf (tcp_wrapCodecError L op addr (Some e)) = Ret ErrorKindCodec"
  using KindOf_wrapped [of L ProtocolTCP op addr ErrorKindCodec e] assms
  by (simp add: tcp_wrapCodecError_def KindOf_wrapf kind_defs)

text \<open>
  A value the codec cannot encode is refused before anything is written, and a frame it cannot decode
  is consumed; both are reported with kind \<open>codec\<close>, however the codec's own error would have been
  classified.
\<close>

theorem tcp_codec_errors:
  assumes "oops_ok L" and "errors_as is_client_error (Some e) = None"
    and "errors_as is_client_error (Some e') = None"
    and "Marshal codec v = Ret (bs, Some e)" and "Unmarshal codec data t = Ret (t', Some e')"
    and "byte_source (ConnRead conn) src eof" and "fits f data" and "src w = frame_bytes data @ rest"
  shows "let cc = Some (tcp_NewCodecConn (Some conn) (Some codec) (Some (length_prefixed L f)) addr) in
    (\<exists>r. tcp_WriteValue L R cc v w = Some (Ret r, w) \<and> KindOf r = Ret ErrorKindCodec) \<and>
    (\<exists>r w'. tcp_ReadValue L R cc t w = Some (Ret (t', r), w') \<and> KindOf r = Ret ErrorKindCodec \<and> src w' = rest)"
proof -
  obtain w' where r: "readFrame L f (Some (ConnRead conn)) w = Some (Ret (data, None), w')" "src w' = rest"
    using byte_source.readFrame_spec [OF assms(6,7,8)] by blast
  show ?thesis unfolding Let_def
    using KindOf_tcp_wrapCodecError [OF assms(1,2)] KindOf_tcp_wrapCodecError [OF assms(1,3)] assms(4,5) r
    by (simp add: tcp_WriteValue_def tcp_ReadValue_def tcp_NewCodecConn_def length_prefixed_def pbind_apply
        KindOf_wrapf [OF assms(1)])
qed

theorem tcp_codec_errors_witness:
  "\<exists>r w'. tcp_ReadValue plain_lib no_runtime
      (Some (tcp_NewCodecConn (Some mem_conn) (Some (JSONCodec plain_lib no_runtime))
        (Some (length_prefixed plain_lib (NewLengthPrefixed 8))) ''h:1''))
      (PString (Some [])) (net_start [0, 0, 0, 1, 7, 5]) = Some (Ret (PString (Some []), r), w') \<and>
    KindOf r = Ret ErrorKindCodec \<and> net_in w' = [5]"
proof -
  let ?C = "JSONCodec plain_lib no_runtime" and ?e = "Foreign ''clientx/codec'' ''marshal json value'' None [ErrEOF]"
    and ?e' = "Foreign ''clientx/codec'' ''unmarshal json value'' None [ErrEOF]"
  have e: "errors_as is_client_error (Some ?e) = None" "errors_as is_client_error (Some ?e') = None"
    by (simp_all add: errors_as_def)
  have m: "Marshal ?C (VString []) = Ret ([], Some ?e)"
    by (simp add: JSONCodec_def jsonMarshal_def no_runtime_def)
  have u: "Unmarshal ?C [7] (PString (Some [])) = Ret (PString (Some []), Some ?e')"
    by (simp add: JSONCodec_def jsonUnmarshal_def no_runtime_def)
  have b: "byte_source (ConnRead mem_conn) net_in ErrEOF"
    using mem_in.byte_source_axioms by (simp add: mem_conn_def)
  have f: "fits (NewLengthPrefixed 8) [7]" by (simp add: fits_def NewLengthPrefixed_def)
  have i: "net_in (net_start [0, 0, 0, 1, 7, 5]) = frame_bytes [7] @ [5]"
    by (simp add: frame_bytes_def be32_put_def net_start_def)
  show ?thesis
    using tcp_codec_errors [OF plain_lib_ok e m u b f i, where R = no_runtime and addr = "''h:1''"]
    unfolding Let_def by blast
qed

section \<open>Dialling\<close>

text \<open>The dialer of a client, and what an attempt answers.\<close>

definition tcp_dialer ::
  "'w net \<Rightarrow> tcp_Config \<Rightarrow> ctx option \<Rightarrow> (go_error + 'w conn, 'w) prog" where
  "tcp_dialer N cfg execCtx =
     net_dial N (if TLSEnabled (tcpTLS cfg) then Some (tcpTLS cfg) else None)
       (tcpDialTimeout cfg) (tcpKeepAlive cfg) execCtx (tcpNetwork cfg) (tcpAddress cfg)"

abbreviation tcp_emitDial ::
  "'w tcp_DefaultClient \<Rightarrow> duration \<Rightarrow> go_error option \<Rightarrow> (unit, 'w) prog" where
  "tcp_emitDial c d e \<equiv> EmitDial (tcpHooks c) (tcp_dial_event (tcpCfg c) d e)"

definition tcp_fail :: "lib \<Rightarrow> operation \<Rightarrow> go_error option \<Rightarrow> go_error option" where
  "tcp_fail L operation err = oops_wrapf L ''clientx/tcp''
     [(''op'', AStr (Op operation)), (''addr'', AStr (Addr operation)),
      (''network'', AStr (Network operation)), (''protocol'', AStr (Protocol operation)),
      (''operation_kind'', AStr (Kind operation))]
     err ''execute tcp operation''"

lemma tcp_dialOnce_open:
  "tcp_dialOnce L N c = open_once (tcp_dialer N (tcpCfg c)) (tcp_emitDial c)
     (tcp_wrapClientError L ''dial'' (tcpAddress (tcpCfg c))) (\<lambda>conn. tcp_wrapConn L conn (tcpCfg c) (tcpHooks c))"
  by (rule ext) (simp add: tcp_dialOnce_def open_once_def tcp_dialer_def Let_def)

lemma tcp_Dial_call:
  "tcp_Dial L N c ctx = client_call L (tcp_dialOnce L N c) (tcp_fail L (tcp_operation (tcpCfg c))) ctx
     (tcp_operation (tcpCfg c)) (tcpPolicies c)"
  unfolding tcp_Dial_def client_call_def tcp_invokeWithPolicies_def tcp_fail_def ..

text \<open>A good connection is a guarded one around one the dialer has opened.\<close>

definition tcp_dialled ::
  "lib \<Rightarrow> 'u world_scheme net \<Rightarrow> 'u world_scheme tcp_DefaultClient \<Rightarrow> 'u world_scheme conn \<Rightarrow> bool" where
  "tcp_dialled L N c conn \<longleftrightarrow> (\<exists>raw execCtx w w'.
     tcp_dialer N (tcpCfg c) execCtx w = Some (Ret (Inr raw), w') \<and>
     conn = tcp_wrapConn L raw (tcpCfg c) (tcpHooks c))"

lemma tcp_client_calls:
  assumes "oops_ok L"
  shows "client_calls (tcp_dialOnce L N c) (tcp_fail L operation) (tcp_dialled L N c)"
proof
  have ne: "tcp_wrapClientError L ''dial'' addr (Some e) \<noteq> None" for addr e
    by (rule tcp_wrapClientError_foreign [OF assms, of "''dial''" addr e]) simp
  show "\<exists>d. x = Some d \<and> tcp_dialled L N c d"
    if "tcp_dialOnce L N c execCtx w = Some (Ret (x, None), w')" for execCtx w x w'
    using open_once_success [OF ne that [unfolded tcp_dialOnce_open]] unfolding tcp_dialled_def by blast
  show "carries (tcp_fail L operation (Some e)) (Some e)" for e
    unfolding tcp_fail_def by (rule carries_wrapf [OF assms])
qed

interpretation tcp_dial: client_calls "tcp_dialOnce (lawful M) N c" "tcp_fail (lawful M) operation"
    "tcp_dialled (lawful M) N c" for M N c operation
  by (rule tcp_client_calls [OF lawful_ok])

text \<open>
  C19: a dial that reports no error hands out a guarded connection around one the dialer has opened; a
  dial that reports one hands out nothing, even if a connection had been opened by then.
\<close>

theorem tcp_Dial_result:
  assumes "oops_ok L" and "tcp_Dial L N c ctx w = Some (Ret (conn, err), w')"
  shows "if err = None then \<exists>d. conn = Some d \<and> tcp_dialled L N c d else conn = None"
  using tcp_dial.result [where M = L, unfolded lawful_eq [OF assms(1)]] assms(2) unfolding tcp_Dial_call by blast

definition mem_net :: "'u net_world_scheme net" where
  "mem_net = \<lparr>net_dial = (\<lambda>tls timeout keepAlive execCtx network addr. pret (Inr mem_conn))\<rparr>"

definition sample_tcp_client :: "'w policy option list \<Rightarrow> 'w tcp_DefaultClient" where
  "sample_tcp_client policies = \<lparr>tcpCfg = tcp_normal sample_tcp_Config, tcpHooks = [], tcpPolicies = policies\<rparr>"

lemma tcp_dialer_mem [simp]: "tcp_dialer mem_net cfg execCtx w = Some (Ret (Inr mem_conn), w)"
  by (simp add: tcp_dialer_def mem_net_def)

theorem tcp_Dial_result_witness:
  "\<exists>conn. tcp_Dial plain_lib mem_net (sample_tcp_client []) None (net_start []) = Some (Ret (conn, None), net_start []) \<and>
    (\<exists>d. conn = Some d \<and> tcp_dialled plain_lib mem_net (sample_tcp_client []) d)"
proof -
  let ?c = "sample_tcp_client []"
  have "tcp_dialOnce plain_lib mem_net ?c (Some Background) (net_start []) =
      Some (Ret (Some (tcp_wrapConn plain_lib mem_conn (tcp_normal sample_tcp_Config) []), None), net_start [])"
    by (simp add: tcp_dialOnce_open open_once_def sample_tcp_client_def EmitDial_def pbind_apply)
  then have run: "tcp_Dial plain_lib mem_net ?c None (net_start []) =
      Some (Ret (Some (tcp_wrapConn plain_lib mem_conn (tcp_normal sample_tcp_Config) []), None), net_start [])"
    by (simp add: tcp_Dial_def tcp_invokeWithPolicies_def InvokeWithPolicies_def normalizeContext_def Let_def
        invokeLoop.simps invokeAttempt_def sample_tcp_client_def filterPolicies_def applyAfterPolicies_def pbind_apply)
  from tcp_Dial_result [OF plain_lib_ok run] show ?thesis
    using run by simp
qed

text \<open>
  C31: a policy that turns a successful dial into a failure loses the connection: the caller is given no
  connection, and nothing runs after the policy, so the one the dialer had opened is never closed.
\<close>

theorem tcp_dial_leak:
  assumes "oops_ok L" and "tcpHooks c = []"
    and "tcpPolicies c = [Some (PolicyFuncs None (Some after))]"
    and "tcp_dialer N (tcpCfg c) (Some Background) w = Some (Ret (Inr raw), w1)"
    and "after (Some Background) (normalizeOperation (tcp_operation (tcpCfg c))) None w1 = Some (Ret (Some e), w2)"
  shows "\<exists>err. tcp_Dial L N c None w = Some (Ret (None, err), w2) \<and> carries err (Some e)"
proof -
  let ?o = "normalizeOperation (tcp_operation (tcpCfg c))"
  have d: "tcp_dialOnce L N c (Some Background) w =
      Some (Ret (Some (tcp_wrapConn L raw (tcpCfg c) []), None), w1)"
    by (simp add: tcp_dialOnce_open open_once_def assms(2,4) EmitDial_def pbind_apply)
  obtain ty tx where r: "wrapPolicyAfterError L ?o (Some e) = Some (Foreign ty tx None [e])"
    using oops_wrapf_SomeE [OF assms(1)] unfolding wrapPolicyAfterError_def by (metis option.distinct(1))
  have "InvokeWithPolicies L None None (tcp_operation (tcpCfg c)) (Some (tcp_dialOnce L N c)) (tcpPolicies c) w =
      Some (Ret (Some (tcp_wrapConn L raw (tcpCfg c) []), Some (JoinError [Foreign ty tx None [e]])), w2)"
    using r
    by (simp add: assms(3) InvokeWithPolicies_def normalizeContext_def Let_def invokeLoop.simps invokeAttempt_def
        filterPolicies_def callPolicyBefore_def callPolicyAfter_def PolicyFuncs_def wrapPolicyBeforeError_def
        precover_apply applyAfterPolicies_def retryOrReturn_def decideRetry_def d assms(5) pbind_apply errors_join_def)
  from tcp_dial.fails [where M = L and operationa = "tcp_operation (tcpCfg c)",
      unfolded lawful_eq [OF assms(1)], OF this, folded tcp_Dial_call] obtain err where
    "tcp_Dial L N c None w = Some (Ret (None, err), w2)" "carries err (Some (JoinError [Foreign ty tx None [e]]))" by blast
  moreover have "carries (Some (JoinError [Foreign ty tx None [e]])) (Some e)" by (simp add: carries_Some_iff)
  ultimately show ?thesis using carries_trans by blast
qed

theorem tcp_dial_leak_witness:
  "\<exists>err. tcp_Dial plain_lib mem_net
      (sample_tcp_client [Some (PolicyFuncs None (Some (\<lambda>_ _ _. pret (Some CtxCanceled))))]) None (net_start []) =
      Some (Ret (None, err), net_start []) \<and> carries err (Some CtxCanceled)"
  using tcp_dial_leak [OF plain_lib_ok, of "sample_tcp_client [Some (PolicyFuncs None (Some (\<lambda>_ _ _. pret (Some CtxCanceled))))]"
      "\<lambda>_ _ _. pret (Some CtxCanceled)" mem_net "net_start []" mem_conn "net_start []" CtxCanceled "net_start []"]
  by (simp add: sample_tcp_client_def)

end
