(* ===== verification/Tcp_Queue.thy ===== *)
theory Tcp_Queue
  imports Tcp_Properties
begin

text \<open>
  Two codec connections at the ends of one link, seen from above: two queues of values, one for each
  direction. The program sends with \<open>WriteValue\<close> at an end and receives with \<open>ReadValue\<close> at an end, one
  operation after the other in any order; each end is a guarded connection with a framer of its own.
\<close>

section \<open>The specification\<close>

datatype link_end = Near | Far

fun other :: "link_end \<Rightarrow> link_end" where
  "other Near = Far"
| "other Far = Near"

lemma other_simps [simp]: "other (other e) = e" "other e \<noteq> e" "e \<noteq> other e" "d \<noteq> e \<longleftrightarrow> d = other e"
  by (cases e; cases d; simp)+

datatype 'o link_op = Send link_end "'o go_value" | Receive link_end

datatype 'o link_obs = Sent | Got "'o target" | Failed

text \<open>\<open>q e\<close>: the values on their way to the end \<open>e\<close>.\<close>

fun queue_step ::
  "('o go_value \<Rightarrow> 'o target) \<Rightarrow> (link_end \<Rightarrow> 'o go_value list) \<Rightarrow> 'o link_op \<Rightarrow>
   'o link_obs \<times> (link_end \<Rightarrow> 'o go_value list)" where
  "queue_step decoded q (Send e v) = (Sent, q(other e := q (other e) @ [v]))"
| "queue_step decoded q (Receive e) =
     (case q e of [] \<Rightarrow> (Failed, q) | v # vs \<Rightarrow> (Got (decoded v), q(e := vs)))"

fun queue_run ::
  "('o go_value \<Rightarrow> 'o target) \<Rightarrow> (link_end \<Rightarrow> 'o go_value list) \<Rightarrow> 'o link_op list \<Rightarrow>
   'o link_obs list \<times> (link_end \<Rightarrow> 'o go_value list)" where
  "queue_run decoded q [] = ([], q)"
| "queue_run decoded q (a # as) =
     (case queue_step decoded q a of (x, q') \<Rightarrow> case queue_run decoded q' as of (xs, q'') \<Rightarrow> (x # xs, q''))"

section \<open>The program\<close>

fun link_step ::
  "lib \<Rightarrow> 'o runtime \<Rightarrow> (link_end \<Rightarrow> ('w, 'o) tcp_CodecConn) \<Rightarrow> 'o target \<Rightarrow> 'o link_op \<Rightarrow> ('o link_obs, 'w) prog" where
  "link_step L R cc t (Send e v) =
     pbind (tcp_WriteValue L R (Some (cc e)) v) (\<lambda>err. pret (if err = None then Sent else Failed))"
| "link_step L R cc t (Receive e) =
     pbind (tcp_ReadValue L R (Some (cc e)) t) (\<lambda>(x, err). pret (if err = None then Got x else Failed))"

fun link_run ::
  "lib \<Rightarrow> 'o runtime \<Rightarrow> (link_end \<Rightarrow> ('w, 'o) tcp_CodecConn) \<Rightarrow> 'o target \<Rightarrow> 'o link_op list \<Rightarrow> ('o link_obs list, 'w) prog" where
  "link_run L R cc t [] = pret []"
| "link_run L R cc t (a # as) =
     pbind (link_step L R cc t a) (\<lambda>x. pbind (link_run L R cc t as) (\<lambda>xs. pret (x # xs)))"

section \<open>What a stream leaves alone\<close>

text \<open>A component of the world that every read (every write) leaves alone is left alone by a whole value.\<close>

lemma keeps_read_full:
  assumes "\<And>n. keeps g (rd n)"
  shows "keeps g (read_full rd n)"
proof (rule keepsI)
  let ?Q = "\<lambda>rd' n got w x. rd' = rd \<longrightarrow> g (snd x) = g w"
  fix w r w'
  assume "read_full rd n w = Some (r, w')"
  then have "read_loop rd n [] w = Some (r, w')" by (simp add: read_full_def)
  then have "?Q rd n [] w (r, w')"
    by (rule read_loop.raw_induct [where P = ?Q, rotated])
      (auto split: option.splits prod.splits res.splits if_splits dest!: keepsD [OF assms])
  then show "g w' = g w" by simp
qed

lemma keeps_writeFull:
  assumes "\<And>data. keeps g (wr data)"
  shows "keeps g (writeFull L wr data)"
proof (rule keepsI)
  let ?Q = "\<lambda>L wr' data w x. wr' = wr \<longrightarrow> g (snd x) = g w"
  fix w r w'
  assume "writeFull L wr data w = Some (r, w')"
  then have "?Q L wr data w (r, w')"
    by (rule writeFull.raw_induct [where P = ?Q, rotated])
      (auto split: option.splits prod.splits res.splits if_splits dest!: keepsD [OF assms])
  then show "g w' = g w" by simp
qed

lemma keeps_readFrame: "(\<And>n. keeps g (rd n)) \<Longrightarrow> keeps g (readFrame L f (Some rd))"
  unfolding readFrame_def Let_def
  by (auto intro!: keeps_pbind keeps_read_full split: prod.split)

lemma keeps_writeFrame: "(\<And>data. keeps g (wr data)) \<Longrightarrow> keeps g (writeFrame L f (Some wr) frame)"
  unfolding writeFrame_def Let_def
  by (auto intro!: keeps_pbind keeps_writeFull)

lemma keeps_quiet: "quiet g m \<Longrightarrow> keeps g m"
  unfolding quiet_def keeps_def by (metis option.inject prod.inject)

lemma keeps_runIO:
  assumes "\<And>t. keeps g (setDeadline t)" and "keeps g run" and "\<And>h. h \<in> set hooks \<Longrightarrow> quiet_hook g h"
  shows "keeps g (tcp_runIO L op addr hooks timeout setDeadline run nothing size_of)"
proof -
  have "keeps g (tcp_applyDeadline L setDeadline timeout op addr)"
    using assms(1) by (auto simp: tcp_applyDeadline_def intro!: keeps_pbind)
  moreover have "keeps g (tcp_emitIO op addr n d e hooks)" for n d e
    by (intro keeps_quiet tcp_emitIO_quiet) (use assms(3) in \<open>auto simp: quiet_hook_def\<close>)
  ultimately show ?thesis
    unfolding tcp_runIO_def Let_def using assms(2)
    by (auto intro!: keeps_pbind split: prod.split)
qed

lemma calm_conn_keeps:
  assumes "calm_conn g c"
  shows "keeps g (SetReadDeadline (tconnConn c) t)" and "keeps g (SetWriteDeadline (tconnConn c) t)"
    and "h \<in> set (tconnHooks c) \<Longrightarrow> quiet_hook g h"
  using assms unfolding calm_conn_def by (auto intro!: keeps_quiet simp: quiet_def) blast+

lemma keeps_tcp_Read:
  assumes "calm_conn g c" and "\<And>n. keeps g (ConnRead (tconnConn c) n)"
  shows "keeps g (tcp_Read L c n)"
  unfolding tcp_Read_def by (intro keeps_runIO assms(2) calm_conn_keeps [OF assms(1)])

lemma keeps_tcp_Write:
  assumes "calm_conn g c" and "\<And>data. keeps g (ConnWrite (tconnConn c) data)"
  shows "keeps g (tcp_Write L c data)"
  unfolding tcp_Write_def by (intro keeps_runIO assms(2) calm_conn_keeps [OF assms(1)])

lemma keeps_ReadValue:
  assumes "\<And>n. keeps g (ConnRead conn n)"
  shows "keeps g (tcp_ReadValue L R
    (Some (tcp_NewCodecConn (Some conn) (Some codec) (Some (length_prefixed L f)) addr)) t)"
  using keeps_readFrame [OF assms]
  by (auto simp: tcp_ReadValue_def tcp_NewCodecConn_def length_prefixed_def intro!: keeps_pbind split: prod.split)

lemma keeps_WriteValue:
  assumes "\<And>data. keeps g (ConnWrite conn data)"
  shows "keeps g (tcp_WriteValue L R
    (Some (tcp_NewCodecConn (Some conn) (Some codec) (Some (length_prefixed L f)) addr)) v)"
  using keeps_writeFrame [OF assms]
  by (auto simp: tcp_WriteValue_def tcp_NewCodecConn_def length_prefixed_def intro!: keeps_pbind split: prod.split)

section \<open>Simulation\<close>

context value_link begin

lemma read_nothing:
  assumes "oops_ok L" and "src w = []"
  shows "\<exists>w' e. tcp_ReadValue L R (Some (tcp_NewCodecConn (Some conn) (Some codec) (Some (length_prefixed L f)) addr))
    t w = Some (Ret (t, e), w') \<and> e \<noteq> None \<and> src w' = []"
proof -
  have h: "frame_bytes [] = src w @ frame_bytes []" "frame_bytes [] \<noteq> []" "fits f []"
    using assms(2) by (simp_all add: frame_bytes_def be32_put_def fits_def)
  from readFrame_short [OF assms(1) h] obtain w' e where
    r: "readFrame L f (Some (ConnRead conn)) w = Some (Ret ([], e), w')" "src w' = []"
    and c: "carries e (Some (short_error (if length (src w) < 4 then src w else drop 4 (src w))))"
    by blast
  from c obtain x where "e = Some x" by (cases e) (auto dest: carries_eq_None)
  moreover have "tcp_wrapClientError L ''read_frame'' addr (Some x) \<noteq> None"
    by (rule tcp_wrapClientError_foreign [OF assms(1), of "''read_frame''" addr x]) simp
  then have "oops_wrapf L d as (tcp_wrapClientError L ''read_frame'' addr (Some x)) m \<noteq> None" for d as m
    by (simp add: oops_wrapf_eq_None [OF assms(1)])
  ultimately show ?thesis using r
    by (simp add: tcp_ReadValue_def tcp_NewCodecConn_def length_prefixed_def pbind_apply)
qed

end

text \<open>
  Two connections at the ends of one link. \<open>inbox e\<close> are the bytes on their way to the end \<open>e\<close>: a read
  at \<open>e\<close> takes from them, a write at the other end adds to them, and neither touches the other
  direction; setting deadlines and telling the hooks touches neither. A read where nothing is on its way
  fails with \<open>eof e\<close>: the read deadline has passed, or the peer has closed.
\<close>

locale tcp_duplex = faithful_codec codec vals fresh decoded
  for codec :: "'o codec" and vals fresh decoded +
  fixes t :: "'o target" and c :: "link_end \<Rightarrow> 'u world_scheme tcp_timeoutConn"
    and inbox :: "link_end \<Rightarrow> 'u world_scheme \<Rightarrow> byte list" and eof :: "link_end \<Rightarrow> go_error"
  assumes one_type: "v \<in> vals \<Longrightarrow> fresh v = t"
    and reads: "byte_source (ConnRead (tconnConn (c e))) (inbox e) (eof e)"
    and writes: "byte_sink (ConnWrite (tconnConn (c e))) (inbox (other e))"
    and read_apart: "keeps (inbox (other e)) (ConnRead (tconnConn (c e)) n)"
    and write_apart: "keeps (inbox e) (ConnWrite (tconnConn (c e)) data)"
    and calm: "calm_conn (inbox d) (c e)"
begin

abbreviation ends ::
  "lib \<Rightarrow> (link_end \<Rightarrow> LengthPrefixedFramer) \<Rightarrow> (link_end \<Rightarrow> string) \<Rightarrow> link_end \<Rightarrow> ('u world_scheme, 'o) tcp_CodecConn" where
  "ends L f addr e \<equiv>
     tcp_NewCodecConn (Some (tcp_conn L (c e))) (Some codec) (Some (length_prefixed L (f e))) (addr e)"

definition sendable :: "(link_end \<Rightarrow> LengthPrefixedFramer) \<Rightarrow> 'o go_value set" where
  "sendable f = {v \<in> vals. \<forall>e. fits (f e) (payload codec v)}"

lemma end_link:
  assumes "oops_ok L"
  obtains eof' where "value_link codec vals fresh decoded (tcp_conn L (c e)) (inbox (other e)) (inbox e) eof'"
proof -
  obtain eof' where "byte_source (tcp_Read L (c e)) (inbox e) eof'"
    using tcp_Read_source_wrapped [OF assms reads calm] by metis
  then have "value_link codec vals fresh decoded (tcp_conn L (c e)) (inbox (other e)) (inbox e) eof'"
    using tcp_Write_sink [OF writes calm] faithful_codec_axioms
    by (intro value_link.intro) (simp_all add: tcp_conn_def)
  then show thesis by (rule that)
qed

lemma end_apart:
  "keeps (inbox (other e)) (tcp_ReadValue L R (Some (ends L f addr e)) t)"
  "keeps (inbox e) (tcp_WriteValue L R (Some (ends L f addr e)) v)"
  by (auto intro!: keeps_ReadValue keeps_WriteValue keeps_tcp_Read keeps_tcp_Write
      read_apart write_apart calm simp: tcp_conn_def)

definition carried :: "(link_end \<Rightarrow> 'o go_value list) \<Rightarrow> 'u world_scheme \<Rightarrow> bool" where
  "carried q w \<longleftrightarrow> (\<forall>e. inbox e w = wire codec (q e))"

lemma carriedI: "inbox e w = wire codec (q e) \<Longrightarrow> inbox (other e) w = wire codec (q (other e)) \<Longrightarrow> carried q w"
  unfolding carried_def by (metis other_simps(4))

lemma step_sends:
  assumes "oops_ok L" and "carried q w" and "v \<in> sendable f"
  shows "\<exists>w'. link_step L R (ends L f addr) t (Send e v) w = Some (Ret Sent, w') \<and>
    carried (q(other e := q (other e) @ [v])) w'"
proof -
  obtain eof' where l: "value_link codec vals fresh decoded (tcp_conn L (c e)) (inbox (other e)) (inbox e) eof'"
    using end_link [OF assms(1)] .
  obtain w' where r: "tcp_WriteValue L R (Some (ends L f addr e)) v w = Some (Ret None, w')"
    "inbox (other e) w' = inbox (other e) w @ frame_bytes (payload codec v)"
    using value_link.write_value [OF l] assms(3) unfolding sendable_def by blast
  have "inbox e w' = inbox e w" by (rule keepsD [OF end_apart(2)]) (rule r(1))
  then have "carried (q(other e := q (other e) @ [v])) w'"
    using r(2) assms(2) by (intro carriedI [of e]) (simp_all add: carried_def wire_def)
  then show ?thesis using r(1) by (simp add: pbind_apply)
qed

lemma step_receives:
  assumes "oops_ok L" and "carried q w" and "\<forall>e. set (q e) \<subseteq> sendable f"
  shows "\<exists>w'. link_step L R (ends L f addr) t (Receive e) w =
      Some (Ret (fst (queue_step decoded q (Receive e))), w') \<and> carried (snd (queue_step decoded q (Receive e))) w'"
proof -
  obtain eof' where l: "value_link codec vals fresh decoded (tcp_conn L (c e)) (inbox (other e)) (inbox e) eof'"
    using end_link [OF assms(1)] .
  note apart = keepsD [OF end_apart(1) [where R = R and f = f and addr = addr and L = L]]
  have i: "inbox e w = wire codec (q e)" "inbox (other e) w = wire codec (q (other e))"
    using assms(2) by (simp_all add: carried_def)
  show ?thesis
  proof (cases "q e")
    case Nil
    obtain w' x where r: "tcp_ReadValue L R (Some (ends L f addr e)) t w = Some (Ret (t, x), w')" "x \<noteq> None"
      "inbox e w' = []" using value_link.read_nothing [OF l assms(1), of w R "f e" "addr e" t] i(1) Nil by auto
    have "carried q w'" using r(3) apart [OF r(1)] i Nil by (intro carriedI [of e]) simp_all
    then show ?thesis using r(1,2) Nil by (auto simp: pbind_apply)
  next
    case (Cons v vs)
    have "set (q e) \<subseteq> sendable f" using assms(3) by blast
    then have v: "v \<in> vals" "fits (f e) (payload codec v)" using Cons by (simp_all add: sendable_def)
    have s: "inbox e w = frame_bytes (payload codec v) @ wire codec vs" using i(1) Cons by simp
    obtain w' where r: "tcp_ReadValue L R (Some (ends L f addr e)) t w = Some (Ret (decoded v, None), w')"
      "inbox e w' = wire codec vs" using value_link.read_value [OF l v s] unfolding one_type [OF v(1)] by blast
    have "carried (q(e := vs)) w'" using r(2) apart [OF r(1)] i by (intro carriedI [of e]) simp_all
    then show ?thesis using r(1) Cons by (simp add: pbind_apply)
  qed
qed

lemma step_simulates:
  assumes "oops_ok L" and "carried q w" and "\<forall>e. set (q e) \<subseteq> sendable f"
    and "\<forall>e v. a = Send e v \<longrightarrow> v \<in> sendable f"
  shows "\<exists>w'. link_step L R (ends L f addr) t a w = Some (Ret (fst (queue_step decoded q a)), w') \<and>
    carried (snd (queue_step decoded q a)) w' \<and> (\<forall>e. set (snd (queue_step decoded q a) e) \<subseteq> sendable f)"
proof (cases a)
  case (Send e v)
  then show ?thesis using step_sends [OF assms(1,2), of v f R addr e] assms(3,4) by simp
next
  case (Receive e)
  have "set (q e) \<subseteq> sendable f" using assms(3) by blast
  then have "\<forall>d. set (snd (queue_step decoded q (Receive e)) d) \<subseteq> sendable f"
    using assms(3) by (cases "q e") simp_all
  then show ?thesis using step_receives [OF assms(1,2,3), of R addr e] Receive by blast
qed

lemma run_simulates:
  assumes "oops_ok L" and "carried q w" and "\<forall>e. set (q e) \<subseteq> sendable f"
    and "\<forall>e v. Send e v \<in> set as \<longrightarrow> v \<in> sendable f"
  shows "\<exists>w'. link_run L R (ends L f addr) t as w = Some (Ret (fst (queue_run decoded q as)), w') \<and>
    carried (snd (queue_run decoded q as)) w'"
  using assms(2-4)
proof (induction as arbitrary: q w)
  case (Cons a as)
  have "\<forall>e v. a = Send e v \<longrightarrow> v \<in> sendable f" using Cons.prems(3) by simp
  from step_simulates [where R = R and addr = addr, OF assms(1) Cons.prems(1,2) this] obtain w1 where
    s: "link_step L R (ends L f addr) t a w = Some (Ret (fst (queue_step decoded q a)), w1)"
    "carried (snd (queue_step decoded q a)) w1" "\<forall>e. set (snd (queue_step decoded q a) e) \<subseteq> sendable f" by blast
  obtain w2 where "link_run L R (ends L f addr) t as w1 =
      Some (Ret (fst (queue_run decoded (snd (queue_step decoded q a)) as)), w2)"
    "carried (snd (queue_run decoded (snd (queue_step decoded q a)) as)) w2"
    using Cons.IH [OF s(2,3)] Cons.prems(3) by auto
  then show ?case using s(1) by (simp add: pbind_apply split_def)
qed simp

end

section \<open>A link in memory\<close>

text \<open>
  The two directions of a link, each end with the read deadline set last. A read or a write moves at most
  \<open>Suc link_chunk\<close> bytes; a read where nothing is on its way waits for the deadline and fails.
\<close>

record link_world = world +
  link_bytes :: "link_end \<Rightarrow> byte list"
  link_deadline :: "link_end \<Rightarrow> int"
  link_chunk :: nat

abbreviation link_timeout :: go_error where
  "link_timeout \<equiv> OpError ''read'' ''tcp'' None None OsDeadline"

definition link_read :: "link_end \<Rightarrow> 'u link_world_scheme reader" where
  "link_read e n = (\<lambda>w. let k = min n (Suc (link_chunk w)) in
     if link_bytes w e = []
     then Some (Ret ([], Some link_timeout), w\<lparr>now := max (now w) (link_deadline w e)\<rparr>)
     else Some (Ret (take k (link_bytes w e), None), w\<lparr>link_bytes := (link_bytes w)(e := drop k (link_bytes w e))\<rparr>))"

definition link_write :: "link_end \<Rightarrow> 'u link_world_scheme writer" where
  "link_write e data = (\<lambda>w. let k = min (length data) (Suc (link_chunk w)) in
     Some (Ret (int k, None),
       w\<lparr>link_bytes := (link_bytes w)(other e := link_bytes w (other e) @ take k data)\<rparr>))"

definition link_conn :: "link_end \<Rightarrow> 'u link_world_scheme conn" where
  "link_conn e = \<lparr>ConnRead = link_read e, ConnWrite = link_write e, ConnClose = pret None,
     SetReadDeadline = (\<lambda>t. pbind (pmodify (\<lambda>w. w\<lparr>link_deadline := (link_deadline w)(e := t)\<rparr>)) (\<lambda>_. pret None)),
     SetWriteDeadline = (\<lambda>t. pret None),
     SetDeadline = (\<lambda>t. pbind (pmodify (\<lambda>w. w\<lparr>link_deadline := (link_deadline w)(e := t)\<rparr>)) (\<lambda>_. pret None)),
     LocalAddr = \<lparr>AddrNetwork = ''tcp'', AddrString = (if e = Near then ''h:0'' else ''h:1'')\<rparr>,
     RemoteAddr = \<lparr>AddrNetwork = ''tcp'', AddrString = (if e = Near then ''h:1'' else ''h:0'')\<rparr>\<rparr>"

definition link_guarded :: "link_end \<Rightarrow> 'u link_world_scheme tcp_timeoutConn" where
  "link_guarded e = \<lparr>tconnConn = link_conn e, tconnReadTimeout = second, tconnWriteTimeout = 0,
     tconnAddr = AddrString (RemoteAddr (link_conn e :: 'u link_world_scheme conn)), tconnHooks = []\<rparr>"

lemma link_reads: "byte_source (link_read e) (\<lambda>w. link_bytes w e) link_timeout"
proof
  fix n :: nat and w :: "'a link_world_scheme"
  assume n: "0 < n"
  show "\<exists>w'. link_read e n w = Some (Ret ([], Some link_timeout), w') \<and> link_bytes w' e = []"
    if "link_bytes w e = []" using that by (simp add: link_read_def Let_def)
  show "\<exists>k w'. 0 < k \<and> k \<le> n \<and> link_read e n w = Some (Ret (take k (link_bytes w e), None), w') \<and>
      link_bytes w' e = drop k (link_bytes w e)" if "link_bytes w e \<noteq> []"
    using that n by (intro exI [of _ "min n (Suc (link_chunk w))"]) (simp add: link_read_def Let_def)
qed

lemma link_writes: "byte_sink (link_write e) (\<lambda>w. link_bytes w (other e))"
proof
  fix data :: "byte list" and w :: "'a link_world_scheme"
  assume "data \<noteq> []"
  then show "\<exists>k w'. 0 < k \<and> k \<le> length data \<and> link_write e data w = Some (Ret (int k, None), w') \<and>
      link_bytes w' (other e) = link_bytes w (other e) @ take k data"
    by (intro exI [of _ "min (length data) (Suc (link_chunk w))"]) (simp add: link_write_def Let_def)
qed

lemma link_facts:
  "byte_source (ConnRead (tconnConn (link_guarded e))) (\<lambda>w. link_bytes w e) link_timeout"
  "byte_sink (ConnWrite (tconnConn (link_guarded e))) (\<lambda>w. link_bytes w (other e))"
  "keeps (\<lambda>w. link_bytes w (other e)) (ConnRead (tconnConn (link_guarded e)) n)"
  "keeps (\<lambda>w. link_bytes w e) (ConnWrite (tconnConn (link_guarded e)) data)"
  "calm_conn (\<lambda>w. link_bytes w d) (link_guarded e)"
  using link_reads link_writes
  by (auto simp: link_guarded_def link_conn_def keeps_def link_read_def link_write_def calm_conn_def Let_def
      pbind_apply pmodify_def split: if_splits)

interpretation duplex_bytes: tcp_duplex "BytesCodec (lawful L) R" "range VBytes" fresh_target decoded_target
    "PBytes (Some [])" link_guarded "\<lambda>e w. link_bytes w e" "\<lambda>_. link_timeout"
  for L :: lib and R :: "'o runtime"
  by (intro tcp_duplex.intro tcp_duplex_axioms.intro bytesc.faithful_codec_axioms link_facts) auto

text \<open>
  C3: two codec connections over one link refine two queues of values. From a state in which each
  direction holds the frames of a queue, any sequence of sends and receives at either end, one after the
  other, observes what it observes on the queues: an end receives the values the other end has sent, in
  order, a receive with nothing on its way fails, and each direction ends with the frames of its queue.
\<close>

theorem tcp_link_refines_queue:
  assumes "oops_ok L" and "faithful_codec codec vals fresh decoded" and "\<And>v. v \<in> vals \<Longrightarrow> fresh v = t"
    and "\<And>e. byte_source (ConnRead (tconnConn (c e))) (inbox e) (eof e)"
    and "\<And>e. byte_sink (ConnWrite (tconnConn (c e))) (inbox (other e))"
    and "\<And>e n. keeps (inbox (other e)) (ConnRead (tconnConn (c e)) n)"
    and "\<And>e data. keeps (inbox e) (ConnWrite (tconnConn (c e)) data)"
    and "\<And>d e. calm_conn (inbox d) (c e)"
    and "\<forall>d e v. v \<in> set (q e) \<or> Send e v \<in> set as \<longrightarrow> v \<in> vals \<and> fits (f d) (payload codec v)"
    and "\<forall>e. inbox e w = wire codec (q e)"
  shows "\<exists>w'. link_run L R
      (\<lambda>e. tcp_NewCodecConn (Some (tcp_conn L (c e))) (Some codec) (Some (length_prefixed L (f e))) (addr e)) t as w =
      Some (Ret (fst (queue_run decoded q as)), w') \<and>
    (\<forall>e. inbox e w' = wire codec (snd (queue_run decoded q as) e))"
proof -
  have l: "tcp_duplex codec vals fresh decoded t c inbox eof"
    by (intro tcp_duplex.intro tcp_duplex_axioms.intro) (fact assms)+
  have "\<forall>e. set (q e) \<subseteq> tcp_duplex.sendable codec vals f"
    "\<forall>e v. Send e v \<in> set as \<longrightarrow> v \<in> tcp_duplex.sendable codec vals f"
    using assms(9) by (auto simp: tcp_duplex.sendable_def [OF l])
  from tcp_duplex.run_simulates [OF l assms(1) _ this, unfolded tcp_duplex.carried_def [OF l]] assms(10)
  show ?thesis by blast
qed

definition link_start :: link_world where
  "link_start = \<lparr>now = 0, next_id = 0, cancelled_at = (\<lambda>_. None), choices = (\<lambda>_. False), sems = (\<lambda>_. 0),
     link_bytes = (\<lambda>_. []), link_deadline = (\<lambda>_. 0), link_chunk = 2\<rparr>"

text \<open>A run with values on their way in both directions at once, and a receive of each kind.\<close>

theorem tcp_link_refines_queue_witness:
  "\<exists>w'. link_run plain_lib no_runtime
      (\<lambda>e. tcp_NewCodecConn (Some (tcp_conn plain_lib (link_guarded e))) (Some (BytesCodec plain_lib no_runtime))
        (Some (length_prefixed plain_lib (NewLengthPrefixed 0))) ''h:1'') (PBytes (Some []))
      [Receive Near, Send Near (VBytes [7]), Send Far (VBytes [8, 9]), Receive Near, Receive Near, Receive Far,
       Send Far (VBytes [])] link_start =
      Some (Ret [Failed, Sent, Sent, Got (PBytes (Some [8, 9])), Failed, Got (PBytes (Some [7])), Sent], w') \<and>
    link_bytes w' Near = [0, 0, 0, 0] \<and> link_bytes w' Far = []"
proof -
  let ?as = "[Receive Near, Send Near (VBytes [7]), Send Far (VBytes [8, 9]), Receive Near, Receive Near,
    Receive Far, Send Far (VBytes [])] :: unit link_op list"
  have fit: "\<forall>d e v. v \<in> set [] \<or> Send e v \<in> set ?as \<longrightarrow>
      v \<in> range VBytes \<and> fits (NewLengthPrefixed 0) (payload (BytesCodec plain_lib no_runtime) v)"
    by (auto simp: fits_def payload_def BytesCodec_def bytesMarshal_def NewLengthPrefixed_def DefaultMaxFrameBytes_def)
  have one: "\<And>v. v \<in> range VBytes \<Longrightarrow> fresh_target v = PBytes (Some [])" by auto
  have s: "\<forall>e. link_bytes link_start e = wire (BytesCodec plain_lib no_runtime) []" by (simp add: link_start_def)
  let ?run = "queue_run decoded_target (\<lambda>_. []) ?as"
  have f: "fst ?run = [Failed, Sent, Sent, Got (PBytes (Some [8, 9])), Failed, Got (PBytes (Some [7])), Sent]"
    and n: "snd ?run Near = [VBytes []]" "snd ?run Far = []" by simp_all
  have p: "wire (BytesCodec plain_lib no_runtime) [VBytes []] = [0, 0, 0, 0]"
    by (simp add: payload_def BytesCodec_def bytesMarshal_def frame_bytes_def be32_put_def)
  from tcp_link_refines_queue [where c = link_guarded and inbox = "\<lambda>e w. link_bytes w e" and eof = "\<lambda>_. link_timeout"
      and q = "\<lambda>_. []" and R = no_runtime and addr = "\<lambda>_. ''h:1''" and f = "\<lambda>_. NewLengthPrefixed 0",
      OF plain_lib_ok bytesc.faithful_codec_axioms one link_facts fit s]
  show ?thesis unfolding f by (metis n p wire_simps(1))
qed

end
