(* ===== verification/Tcp_Session.thy ===== *)
theory Tcp_Session
  imports Tcp_Properties
begin

text \<open>
  A session over TCP from its dial on: what \<open>DialCodec\<close> hands out, through whatever policies and attempts,
  carries values. Here the engine, the dial, the guarded connection, the framer and the codec meet.
\<close>

section \<open>What the dialer must give\<close>

definition lawful_conn ::
  "('u world_scheme \<Rightarrow> byte list) \<Rightarrow> ('u world_scheme \<Rightarrow> byte list) \<Rightarrow> go_error \<Rightarrow> 'u world_scheme conn \<Rightarrow> bool" where
  "lawful_conn out src eof raw \<longleftrightarrow> byte_sink (ConnWrite raw) out \<and> byte_source (ConnRead raw) src eof \<and>
     (\<forall>t w. \<exists>w'. SetReadDeadline raw t w = Some (Ret None, w') \<and> out w' = out w \<and> src w' = src w) \<and>
     (\<forall>t w. \<exists>w'. SetWriteDeadline raw t w = Some (Ret None, w') \<and> out w' = out w \<and> src w' = src w)"

lemma lawful_mem_conn: "lawful_conn net_out net_in ErrEOF mem_conn"
  using mem_in.byte_source_axioms mem_out.byte_sink_axioms by (simp add: lawful_conn_def mem_conn_def)

lemma lawful_conn_calm:
  assumes "lawful_conn out src eof raw" and "tconnConn c = raw"
    and "\<forall>h \<in> set (tconnHooks c). quiet_hook out h \<and> quiet_hook src h"
  shows "calm_conn out c" and "calm_conn src c"
  using assms unfolding lawful_conn_def calm_conn_def by blast+

section \<open>Dialling with a codec\<close>

text \<open>A codec connection handed out without an error is one over a guarded connection the dialer has opened.\<close>

lemma tcp_DialCodec_conn:
  assumes "oops_ok L" and "tcp_DialCodec L N c ctx (Some codec) (Some framer) w = Some (Ret (cc, err), w')"
  shows "if err = None
    then \<exists>conn. cc = Some (tcp_NewCodecConn (Some conn) (Some codec) (Some framer) (tcpAddress (tcpCfg c))) \<and>
      tcp_dialled L N c conn
    else cc = None"
proof -
  obtain conn e where run: "tcp_Dial L N c ctx w = Some (Ret (conn, e), w')"
    and cc: "(cc, err) = (if e \<noteq> None then (None, e)
      else (Some (tcp_NewCodecConn conn (Some codec) (Some framer) (tcpAddress (tcpCfg c))), None))"
    using assms(2) by (auto simp: tcp_DialCodec_def pbind_apply split: option.splits res.splits if_splits)
  have "if e = None then \<exists>d. conn = Some d \<and> tcp_dialled L N c d else conn = None"
    using tcp_dial.result [where M = L, unfolded lawful_eq [OF assms(1)]] run unfolding tcp_Dial_call by blast
  then show ?thesis using cc by (cases e) auto
qed

text \<open>
  C6: a session carries values. Whatever the policies of the client and however often it tried, when \<open>DialCodec\<close>
  reports no error its codec connection sends any values as their frames, in order, and where such frames
  come next it reads the values back and leaves what follows. The dialer must open connections that are
  streams and let their deadlines be set, the codec be faithful, and the payloads be within the limit.
\<close>

theorem tcp_session_values:
  assumes "oops_ok L" and "faithful_codec codec vals fresh decoded"
    and "\<And>execCtx w raw w'. tcp_dialer N (tcpCfg c) execCtx w = Some (Ret (Inr raw), w') \<Longrightarrow> lawful_conn out src eof raw"
    and "\<forall>h \<in> set (tcpHooks c). quiet_hook out h \<and> quiet_hook src h"
    and "\<forall>v \<in> set vs. v \<in> vals \<and> fits f (payload codec v)"
    and "tcp_DialCodec L N c ctx (Some codec) (Some (length_prefixed L f)) w = Some (Ret (cc, None), w')"
  shows "(\<exists>w2. tcp_write_all L R cc vs w1 = Some (Ret None, w2) \<and> out w2 = out w1 @ wire codec vs) \<and>
    (src v = wire codec vs @ rest \<longrightarrow>
      (\<exists>v'. tcp_read_all L R cc (map fresh vs) v = Some (Ret (map decoded vs, None), v') \<and> src v' = rest))"
proof -
  obtain conn where cc: "cc = Some (tcp_NewCodecConn (Some conn) (Some codec) (Some (length_prefixed L f)) (tcpAddress (tcpCfg c)))"
    and "tcp_dialled L N c conn"
    using tcp_DialCodec_conn [OF assms(1,6)] by auto
  then obtain raw where raw: "lawful_conn out src eof raw" "conn = tcp_wrapConn L raw (tcpCfg c) (tcpHooks c)"
    using assms(3) unfolding tcp_dialled_def by blast
  let ?c = "\<lparr>tconnConn = raw, tconnReadTimeout = tcpReadTimeout (tcpCfg c), tconnWriteTimeout = tcpWriteTimeout (tcpCfg c),
      tconnAddr = tcpAddress (tcpCfg c), tconnHooks = tcpHooks c\<rparr>"
  have calm: "calm_conn out ?c" "calm_conn src ?c"
    using lawful_conn_calm [OF raw(1), of ?c] assms(4) by simp_all
  have streams: "byte_sink (ConnWrite (tconnConn ?c)) out" "byte_source (ConnRead (tconnConn ?c)) src eof"
    using raw(1) by (simp_all add: lawful_conn_def)
  show ?thesis
    using tcp_values_roundtrip [OF assms(1,2) streams calm assms(5)]
    unfolding cc raw(2) tcp_wrapConn_def Let_def by blast
qed

text \<open>
  A client without policies: dialled, it sends a text and reads it back from what it sent.
\<close>

theorem tcp_session_values_witness:
  "\<exists>cc w' w2 v'. tcp_DialCodec plain_lib mem_net (sample_tcp_client []) None (Some (TextCodec plain_lib no_runtime))
      (Some (length_prefixed plain_lib (NewLengthPrefixed 0))) (net_start []) = Some (Ret (cc, None), w') \<and>
    tcp_write_all plain_lib no_runtime cc [VString ''ping''] w' = Some (Ret None, w2) \<and>
    tcp_read_all plain_lib no_runtime cc [PString (Some [])] (net_start (net_out w2)) =
      Some (Ret ([PString (Some ''ping'')], None), v') \<and> net_in v' = []"
proof -
  let ?C = "TextCodec plain_lib no_runtime" and ?c = "sample_tcp_client [] :: net_world tcp_DefaultClient"
  let ?f = "length_prefixed plain_lib (NewLengthPrefixed 0) :: net_world framer" and ?vs = "[VString ''ping''] :: unit go_value list"
  have "tcp_dialOnce plain_lib mem_net ?c (Some Background) (net_start []) =
      Some (Ret (Some (tcp_wrapConn plain_lib mem_conn (tcp_normal sample_tcp_Config) []), None), net_start [])"
    by (simp add: tcp_dialOnce_open open_once_def sample_tcp_client_def EmitDial_def pbind_apply)
  then have "tcp_Dial plain_lib mem_net ?c None (net_start []) =
      Some (Ret (Some (tcp_wrapConn plain_lib mem_conn (tcp_normal sample_tcp_Config) []), None), net_start [])"
    by (simp add: tcp_Dial_def tcp_invokeWithPolicies_def InvokeWithPolicies_def normalizeContext_def Let_def
        invokeLoop.simps invokeAttempt_def sample_tcp_client_def filterPolicies_def applyAfterPolicies_def pbind_apply)
  then obtain cc where dial: "tcp_DialCodec plain_lib mem_net ?c None (Some ?C) (Some ?f) (net_start []) = Some (Ret (cc, None), net_start [])"
    by (simp add: tcp_DialCodec_def pbind_apply)
  have v: "\<forall>v \<in> set ?vs. v \<in> {v. plain_value v} \<and> fits (NewLengthPrefixed 0) (payload ?C v)"
    by (simp add: fits_def payload_def TextCodec_def NewLengthPrefixed_def DefaultMaxFrameBytes_def)
  have n: "lawful_conn net_out net_in ErrEOF raw"
    if "tcp_dialer mem_net (tcpCfg ?c) execCtx w = Some (Ret (Inr raw), w')" for execCtx w raw w'
    using that lawful_mem_conn by simp
  have h: "\<forall>h \<in> set (tcpHooks ?c). quiet_hook net_out h \<and> quiet_hook net_in h" by (simp add: sample_tcp_client_def)
  have session: "(\<exists>w2. tcp_write_all plain_lib no_runtime cc ?vs w1 = Some (Ret None, w2) \<and> net_out w2 = net_out w1 @ wire ?C ?vs) \<and>
      (net_in v = wire ?C ?vs @ rest \<longrightarrow> (\<exists>v'. tcp_read_all plain_lib no_runtime cc (map fresh_target ?vs) v =
        Some (Ret (map decoded_target ?vs, None), v') \<and> net_in v' = rest))" for w1 v rest
    by (rule tcp_session_values [OF plain_lib_ok textc.faithful_codec_axioms n h v dial])
  obtain w2 where w2: "tcp_write_all plain_lib no_runtime cc ?vs (net_start []) = Some (Ret None, w2)" "net_out w2 = wire ?C ?vs"
    using conjunct1 [OF session [of "net_start []"]] by (auto simp: net_start_def simp del: tcp_write_all.simps)
  have "net_in (net_start (net_out w2)) = wire ?C ?vs @ []" using w2(2) by (simp add: net_start_def)
  with session [of _ "net_start (net_out w2)" "[]"] dial w2(1) show ?thesis by (fastforce simp del: tcp_write_all.simps tcp_read_all.simps)
qed

end
