(* ===== verification/Udp.thy ===== *)
theory Udp
  imports Net_Conn Retry_Policy Timeout_Policy Bulkhead_Policy
begin

text \<open>
  Package \<^verbatim>\<open>udp\<close>: configuration, options, the client, the guarded connection and packet connection,
  and the codec connections over both.

  \<open>net_dial\<close> is \<open>DialContext\<close> of a \<open>net.Dialer\<close> (no TLS here, and no keep-alive of its own), \<open>net_listen\<close>
  is \<open>ListenPacket\<close> of a \<open>net.ListenConfig\<close>. A \<open>net.Addr\<close> is the pair of what its two methods answer.
\<close>

section \<open>Configuration\<close>

record udp_Config =
  udpNetwork :: string
  udpAddress :: string
  udpDialTimeout :: duration
  udpReadTimeout :: duration
  udpWriteTimeout :: duration

definition udp_zero_Config :: udp_Config where
  "udp_zero_Config = \<lparr>udpNetwork = [], udpAddress = [], udpDialTimeout = 0, udpReadTimeout = 0,
     udpWriteTimeout = 0\<rparr>"

definition udp_defaultDialTimeout :: duration where
  "udp_defaultDialTimeout = 5 * second"

definition udp_ErrInvalidConfig :: go_error where
  "udp_ErrInvalidConfig = ErrNew ''udp.ErrInvalidConfig'' ''invalid udp client config''"

definition udp_invalid :: "lib \<Rightarrow> attrs \<Rightarrow> string \<Rightarrow> udp_Config \<times> go_error option" where
  "udp_invalid L as msg = (udp_zero_Config, oops_wrapf L ''clientx/udp''
     ((''op'', AStr ''normalize_validate'') # as) (Some udp_ErrInvalidConfig) msg)"

definition udp_NormalizeAndValidate :: "lib \<Rightarrow> udp_Config \<Rightarrow> udp_Config \<times> go_error option" where
  "udp_NormalizeAndValidate L cfg =
     (let out = cfg\<lparr>udpNetwork := trim_space (udpNetwork cfg), udpAddress := trim_space (udpAddress cfg)\<rparr>;
          out = (if udpNetwork out = [] then out\<lparr>udpNetwork := ''udp''\<rparr> else out)
      in if udpAddress out = []
         then udp_invalid L [(''field'', AStr ''address''), (''network'', AStr (udpNetwork out))]
                ''address is required''
         else
           (let out = (if udpDialTimeout out = 0 then out\<lparr>udpDialTimeout := udp_defaultDialTimeout\<rparr> else out)
            in if udpDialTimeout out < 0 \<or> udpReadTimeout out < 0 \<or> udpWriteTimeout out < 0
               then udp_invalid L
                      [(''field'', AStr ''timeout''), (''network'', AStr (udpNetwork out)),
                       (''dial_timeout'', ADur (udpDialTimeout out)), (''read_timeout'', ADur (udpReadTimeout out)),
                       (''write_timeout'', ADur (udpWriteTimeout out))]
                      ''timeout values must be >= 0''
               else if \<not> has_prefix (udpNetwork out) ''udp''
               then udp_invalid L
                      [(''field'', AStr ''network''), (''network'', AStr (udpNetwork out))]
                      ''network must be udp/udp4/udp6''
               else (out, None)))"

section \<open>Errors\<close>

definition udp_wrapClientError :: "lib \<Rightarrow> string \<Rightarrow> string \<Rightarrow> go_error option \<Rightarrow> go_error option" where
  "udp_wrapClientError L op addr err =
     oops_wrapf L ''clientx/udp''
       [(''op'', AStr op), (''addr'', AStr addr), (''protocol'', AStr ProtocolUDP)]
       (WrapError L ProtocolUDP op addr err) (''udp '' @ op @ '' '' @ addr)"

definition udp_wrapCodecError :: "lib \<Rightarrow> string \<Rightarrow> string \<Rightarrow> go_error option \<Rightarrow> go_error option" where
  "udp_wrapCodecError L op addr err =
     oops_wrapf L ''clientx/udp''
       [(''op'', AStr op), (''addr'', AStr addr), (''protocol'', AStr ProtocolUDP),
        (''error_kind'', AStr ErrorKindCodec)]
       (WrapErrorWithKind L ProtocolUDP op addr ErrorKindCodec err) (''udp '' @ op @ '' '' @ addr)"

section \<open>The guarded connection\<close>

definition udp_applyDeadline ::
  "lib \<Rightarrow> (int \<Rightarrow> (go_error option, 'u world_scheme) prog) \<Rightarrow> duration \<Rightarrow> string \<Rightarrow> string \<Rightarrow>
   (go_error option, 'u world_scheme) prog" where
  "udp_applyDeadline L setDeadline timeout op addr =
     (if timeout \<le> 0 then pret None
      else pbind (pget now) (\<lambda>t. pbind (setDeadline (t + timeout)) (\<lambda>err.
        if err \<noteq> None
        then pret (oops_wrapf L ''clientx/udp''
               [(''op'', AStr op), (''addr'', AStr addr), (''protocol'', AStr ProtocolUDP),
                (''stage'', AStr ''set_deadline''), (''timeout'', ADur timeout)]
               err ''set udp deadline'')
        else pret None)))"

definition udp_emitIO ::
  "string \<Rightarrow> string \<Rightarrow> int \<Rightarrow> duration \<Rightarrow> go_error option \<Rightarrow> 'w hook option list \<Rightarrow> (unit, 'w) prog" where
  "udp_emitIO op addr bytes d err hooks =
     EmitIO hooks \<lparr>ioProtocol = ProtocolUDP, ioOp = op, ioAddr = addr, ioBytes = bytes,
       ioDuration = d, ioErr = err\<rparr>"

definition udp_runIO ::
  "lib \<Rightarrow> string \<Rightarrow> string \<Rightarrow> 'u world_scheme hook option list \<Rightarrow> duration \<Rightarrow>
   (int \<Rightarrow> (go_error option, 'u world_scheme) prog) \<Rightarrow>
   ('r \<times> go_error option, 'u world_scheme) prog \<Rightarrow> 'r \<Rightarrow> ('r \<Rightarrow> int) \<Rightarrow>
   ('r \<times> go_error option, 'u world_scheme) prog" where
  "udp_runIO L op addr hooks timeout setDeadline run nothing size_of =
     pbind (pget now) (\<lambda>start.
     pbind (udp_applyDeadline L setDeadline timeout op addr) (\<lambda>err.
       if err \<noteq> None
       then pbind (pget now) (\<lambda>t.
            pbind (udp_emitIO op addr 0 (t - start) err hooks) (\<lambda>_. pret (nothing, err)))
       else
         pbind run (\<lambda>(x, err).
           if err \<noteq> None
           then (let wrappedErr = udp_wrapClientError L op addr err in
                 pbind (pget now) (\<lambda>t.
                 pbind (udp_emitIO op addr (size_of x) (t - start) wrappedErr hooks)
                   (\<lambda>_. pret (x, wrappedErr))))
           else pbind (pget now) (\<lambda>t.
                pbind (udp_emitIO op addr (size_of x) (t - start) None hooks) (\<lambda>_. pret (x, None))))))"

record 'w udp_timeoutConn =
  uconnConn :: "'w conn"
  uconnReadTimeout :: duration
  uconnWriteTimeout :: duration
  uconnAddr :: string
  uconnHooks :: "'w hook option list"

definition udp_Read :: "lib \<Rightarrow> 'u world_scheme udp_timeoutConn \<Rightarrow> 'u world_scheme reader" where
  "udp_Read L c n =
     udp_runIO L ''read'' (uconnAddr c) (uconnHooks c) (uconnReadTimeout c)
       (SetReadDeadline (uconnConn c)) (ConnRead (uconnConn c) n) [] (\<lambda>x. int (length x))"

definition udp_Write :: "lib \<Rightarrow> 'u world_scheme udp_timeoutConn \<Rightarrow> 'u world_scheme writer" where
  "udp_Write L c data =
     udp_runIO L ''write'' (uconnAddr c) (uconnHooks c) (uconnWriteTimeout c)
       (SetWriteDeadline (uconnConn c)) (ConnWrite (uconnConn c) data) 0 (\<lambda>n. n)"

definition udp_conn :: "lib \<Rightarrow> 'u world_scheme udp_timeoutConn \<Rightarrow> 'u world_scheme conn" where
  "udp_conn L c = (uconnConn c)\<lparr>ConnRead := udp_Read L c, ConnWrite := udp_Write L c\<rparr>"

section \<open>The guarded packet connection\<close>

record 'w packet_conn =
  PacketReadFrom :: "nat \<Rightarrow> ((byte list \<times> net_addr option) \<times> go_error option, 'w) prog"
  PacketWriteTo :: "byte list \<Rightarrow> net_addr option \<Rightarrow> (int \<times> go_error option, 'w) prog"
  PacketClose :: "(go_error option, 'w) prog"
  PacketSetReadDeadline :: "int \<Rightarrow> (go_error option, 'w) prog"
  PacketSetWriteDeadline :: "int \<Rightarrow> (go_error option, 'w) prog"
  PacketSetDeadline :: "int \<Rightarrow> (go_error option, 'w) prog"
  PacketLocalAddr :: net_addr

record 'w udp_timeoutPacketConn =
  upktConn :: "'w packet_conn"
  upktReadTimeout :: duration
  upktWriteTimeout :: duration
  upktAddr :: string
  upktHooks :: "'w hook option list"

definition udp_targetAddr :: "string \<Rightarrow> net_addr option \<Rightarrow> string" where
  "udp_targetAddr fallback addr = (case addr of None \<Rightarrow> fallback | Some a \<Rightarrow> AddrString a)"

definition udp_ReadFrom ::
  "lib \<Rightarrow> 'u world_scheme udp_timeoutPacketConn \<Rightarrow> nat \<Rightarrow>
   ((byte list \<times> net_addr option) \<times> go_error option, 'u world_scheme) prog" where
  "udp_ReadFrom L c n =
     pbind (pget now) (\<lambda>start.
     pbind (udp_applyDeadline L (PacketSetReadDeadline (upktConn c)) (upktReadTimeout c) ''read_from'' (upktAddr c)) (\<lambda>err.
       if err \<noteq> None
       then pbind (pget now) (\<lambda>t.
            pbind (udp_emitIO ''read_from'' (upktAddr c) 0 (t - start) err (upktHooks c))
              (\<lambda>_. pret (([], None), err)))
       else
         pbind (PacketReadFrom (upktConn c) n) (\<lambda>((data, addr), err).
           if err \<noteq> None
           then (let wrappedErr = udp_wrapClientError L ''read_from'' (upktAddr c) err in
                 pbind (pget now) (\<lambda>t.
                 pbind (udp_emitIO ''read_from'' (upktAddr c) (int (length data)) (t - start) wrappedErr (upktHooks c))
                   (\<lambda>_. pret ((data, addr), wrappedErr))))
           else pbind (pget now) (\<lambda>t.
                pbind (udp_emitIO ''read_from'' (upktAddr c) (int (length data)) (t - start) None (upktHooks c))
                  (\<lambda>_. pret ((data, addr), None))))))"

definition udp_WriteTo ::
  "lib \<Rightarrow> 'u world_scheme udp_timeoutPacketConn \<Rightarrow> byte list \<Rightarrow> net_addr option \<Rightarrow>
   (int \<times> go_error option, 'u world_scheme) prog" where
  "udp_WriteTo L c data addr =
     (let target = udp_targetAddr (upktAddr c) addr in
      pbind (pget now) (\<lambda>start.
      pbind (udp_applyDeadline L (PacketSetWriteDeadline (upktConn c)) (upktWriteTimeout c) ''write_to'' target) (\<lambda>err.
        if err \<noteq> None
        then pbind (pget now) (\<lambda>t.
             pbind (udp_emitIO ''write_to'' target 0 (t - start) err (upktHooks c)) (\<lambda>_. pret (0, err)))
        else
          pbind (PacketWriteTo (upktConn c) data addr) (\<lambda>(n, err).
            if err \<noteq> None
            then (let wrappedErr = udp_wrapClientError L ''write_to'' target err in
                  pbind (pget now) (\<lambda>t.
                  pbind (udp_emitIO ''write_to'' target n (t - start) wrappedErr (upktHooks c))
                    (\<lambda>_. pret (n, wrappedErr))))
            else pbind (pget now) (\<lambda>t.
                 pbind (udp_emitIO ''write_to'' target n (t - start) None (upktHooks c))
                   (\<lambda>_. pret (n, None)))))))"

definition udp_packet_conn ::
  "lib \<Rightarrow> 'u world_scheme udp_timeoutPacketConn \<Rightarrow> 'u world_scheme packet_conn" where
  "udp_packet_conn L c =
     (upktConn c)\<lparr>PacketReadFrom := udp_ReadFrom L c, PacketWriteTo := udp_WriteTo L c\<rparr>"

section \<open>The client\<close>

record 'w udp_DefaultClient =
  udpCfg :: udp_Config
  udpHooks :: "'w hook option list"
  udpPolicies :: "'w policy option list"

definition udp_WithHooks :: "'w hook option list \<Rightarrow> 'w udp_DefaultClient \<Rightarrow> 'w udp_DefaultClient" where
  "udp_WithHooks hooks c = c\<lparr>udpHooks := AppendHooks (udpHooks c) hooks\<rparr>"

definition udp_WithPolicies :: "'w policy option list \<Rightarrow> 'w udp_DefaultClient \<Rightarrow> 'w udp_DefaultClient" where
  "udp_WithPolicies policies c = c\<lparr>udpPolicies := AppendPolicies (udpPolicies c) policies\<rparr>"

definition udp_WithConcurrencyLimit ::
  "lib \<Rightarrow> nat \<Rightarrow> int \<Rightarrow> 'u world_scheme udp_DefaultClient \<Rightarrow> 'u world_scheme udp_DefaultClient" where
  "udp_WithConcurrencyLimit L s maxInFlight c =
     c\<lparr>udpPolicies := AppendPolicies (udpPolicies c) [Some (NewConcurrencyLimitPolicy L s maxInFlight)]\<rparr>"

definition udp_WithTimeoutGuard ::
  "duration \<Rightarrow> 'u world_scheme udp_DefaultClient \<Rightarrow> 'u world_scheme udp_DefaultClient" where
  "udp_WithTimeoutGuard timeout c =
     c\<lparr>udpPolicies := AppendPolicies (udpPolicies c) [Some (NewTimeoutPolicy timeout)]\<rparr>"

definition udp_New ::
  "lib \<Rightarrow> ('w udp_DefaultClient \<Rightarrow> 'w udp_DefaultClient options \<Rightarrow> 'w udp_DefaultClient) \<Rightarrow>
   udp_Config \<Rightarrow> 'w udp_DefaultClient options \<Rightarrow> 'w udp_DefaultClient option \<times> go_error option" where
  "udp_New L ap cfg opts =
     (case udp_NormalizeAndValidate L cfg of (normalized, err) \<Rightarrow>
        if err \<noteq> None then (None, err)
        else (Some (Apply ap \<lparr>udpCfg = normalized, udpHooks = [], udpPolicies = []\<rparr> opts), None))"

definition udp_Close :: "'w udp_DefaultClient \<Rightarrow> go_error option" where
  "udp_Close c = None"

record 'w packet_net = "'w net" +
  net_listen :: "ctx option \<Rightarrow> string \<Rightarrow> string \<Rightarrow> (go_error + 'w packet_conn, 'w) prog"

text \<open>The attributes both \<open>invokeWithDialPolicies\<close> and \<open>invokeWithListenPolicies\<close> add to an error.\<close>

definition udp_operation_attrs :: "operation \<Rightarrow> attrs" where
  "udp_operation_attrs operation =
     [(''op'', AStr (Op operation)), (''addr'', AStr (Addr operation)),
      (''network'', AStr (Network operation)), (''protocol'', AStr (Protocol operation)),
      (''operation_kind'', AStr (Kind operation))]"

definition udp_invokeWithDialPolicies ::
  "lib \<Rightarrow> ctx option \<Rightarrow> operation \<Rightarrow>
   (ctx option \<Rightarrow> ('u world_scheme conn option \<times> go_error option, 'u world_scheme) prog) \<Rightarrow>
   'u world_scheme policy option list \<Rightarrow>
   ('u world_scheme conn option \<times> go_error option, 'u world_scheme) prog" where
  "udp_invokeWithDialPolicies L ctx operation fn policies =
     pbind (InvokeWithPolicies L None ctx operation (Some fn) policies) (\<lambda>(conn, err).
       if err \<noteq> None
       then pret (None, oops_wrapf L ''clientx/udp'' (udp_operation_attrs operation)
              err ''execute udp dial operation'')
       else pret (conn, None))"

definition udp_invokeWithListenPolicies ::
  "lib \<Rightarrow> ctx option \<Rightarrow> operation \<Rightarrow>
   (ctx option \<Rightarrow> ('u world_scheme packet_conn option \<times> go_error option, 'u world_scheme) prog) \<Rightarrow>
   'u world_scheme policy option list \<Rightarrow>
   ('u world_scheme packet_conn option \<times> go_error option, 'u world_scheme) prog" where
  "udp_invokeWithListenPolicies L ctx operation fn policies =
     pbind (InvokeWithPolicies L None ctx operation (Some fn) policies) (\<lambda>(conn, err).
       if err \<noteq> None
       then pret (None, oops_wrapf L ''clientx/udp'' (udp_operation_attrs operation)
              err ''execute udp listen operation'')
       else pret (conn, None))"

definition udp_dial_event :: "string \<Rightarrow> udp_Config \<Rightarrow> duration \<Rightarrow> go_error option \<Rightarrow> DialEvent" where
  "udp_dial_event op cfg d err =
     \<lparr>dialProtocol = ProtocolUDP, dialOp = op, dialNetwork = udpNetwork cfg,
      dialAddr = udpAddress cfg, dialDuration = d, dialErr = err\<rparr>"

definition udp_dialOnce ::
  "lib \<Rightarrow> ('u world_scheme, 'x) net_scheme \<Rightarrow> 'u world_scheme udp_DefaultClient \<Rightarrow> ctx option \<Rightarrow>
   ('u world_scheme conn option \<times> go_error option, 'u world_scheme) prog" where
  "udp_dialOnce L N c execCtx =
     (let cfg = udpCfg c in
      pbind (pget now) (\<lambda>start.
      pbind (net_dial N None (udpDialTimeout cfg) 0 execCtx (udpNetwork cfg) (udpAddress cfg))
        (\<lambda>r. pbind (pget now) (\<lambda>t.
          case r of
            Inl err \<Rightarrow>
              (let wrappedErr = udp_wrapClientError L ''dial'' (udpAddress cfg) (Some err) in
               pbind (EmitDial (udpHooks c) (udp_dial_event ''dial'' cfg (t - start) wrappedErr))
                 (\<lambda>_. pret (None, wrappedErr)))
          | Inr conn \<Rightarrow>
              pbind (EmitDial (udpHooks c) (udp_dial_event ''dial'' cfg (t - start) None))
                (\<lambda>_. pret (Some (udp_conn L \<lparr>uconnConn = conn, uconnReadTimeout = udpReadTimeout cfg,
                    uconnWriteTimeout = udpWriteTimeout cfg, uconnAddr = udpAddress cfg,
                    uconnHooks = udpHooks c\<rparr>), None))))))"

definition udp_Dial ::
  "lib \<Rightarrow> ('u world_scheme, 'x) net_scheme \<Rightarrow> 'u world_scheme udp_DefaultClient \<Rightarrow> ctx option \<Rightarrow>
   ('u world_scheme conn option \<times> go_error option, 'u world_scheme) prog" where
  "udp_Dial L N c ctx =
     (let operation = \<lparr>Protocol = ProtocolUDP, Kind = OperationKindDial, Op = ''dial'',
            Network = udpNetwork (udpCfg c), Addr = udpAddress (udpCfg c)\<rparr> in
      pbind (udp_invokeWithDialPolicies L ctx operation (udp_dialOnce L N c) (udpPolicies c))
        (\<lambda>(conn, err). if err \<noteq> None then pret (None, err) else pret (conn, None)))"

definition udp_listenOnce ::
  "lib \<Rightarrow> 'u world_scheme packet_net \<Rightarrow> 'u world_scheme udp_DefaultClient \<Rightarrow> ctx option \<Rightarrow>
   ('u world_scheme packet_conn option \<times> go_error option, 'u world_scheme) prog" where
  "udp_listenOnce L N c execCtx =
     (let cfg = udpCfg c in
      pbind (pget now) (\<lambda>start.
      pbind (net_listen N execCtx (udpNetwork cfg) (udpAddress cfg))
        (\<lambda>r. pbind (pget now) (\<lambda>t.
          case r of
            Inl err \<Rightarrow>
              (let wrappedErr = udp_wrapClientError L ''listen'' (udpAddress cfg) (Some err) in
               pbind (EmitDial (udpHooks c) (udp_dial_event ''listen'' cfg (t - start) wrappedErr))
                 (\<lambda>_. pret (None, wrappedErr)))
          | Inr conn \<Rightarrow>
              pbind (EmitDial (udpHooks c) (udp_dial_event ''listen'' cfg (t - start) None))
                (\<lambda>_. pret (Some (udp_packet_conn L \<lparr>upktConn = conn, upktReadTimeout = udpReadTimeout cfg,
                    upktWriteTimeout = udpWriteTimeout cfg, upktAddr = udpAddress cfg,
                    upktHooks = udpHooks c\<rparr>), None))))))"

definition udp_ListenPacket ::
  "lib \<Rightarrow> 'u world_scheme packet_net \<Rightarrow> 'u world_scheme udp_DefaultClient \<Rightarrow> ctx option \<Rightarrow>
   ('u world_scheme packet_conn option \<times> go_error option, 'u world_scheme) prog" where
  "udp_ListenPacket L N c ctx =
     (let operation = \<lparr>Protocol = ProtocolUDP, Kind = OperationKindListen, Op = ''listen'',
            Network = udpNetwork (udpCfg c), Addr = udpAddress (udpCfg c)\<rparr> in
      pbind (udp_invokeWithListenPolicies L ctx operation (udp_listenOnce L N c) (udpPolicies c))
        (\<lambda>(conn, err). if err \<noteq> None then pret (None, err) else pret (conn, None)))"

section \<open>The codec connections\<close>

definition maxUDPPacketSize :: nat where
  "maxUDPPacketSize = 64 * 1024"

record ('w, 'o) udp_CodecConn =
  ucConn :: "'w conn option"
  ucCodec :: "'o codec option"
  ucAddr :: string

definition udp_NewCodecConn :: "'w conn option \<Rightarrow> 'o codec option \<Rightarrow> string \<Rightarrow> ('w, 'o) udp_CodecConn" where
  "udp_NewCodecConn conn codec addr = \<lparr>ucConn = conn, ucCodec = codec, ucAddr = addr\<rparr>"

record ('w, 'o) udp_CodecPacketConn =
  upConn :: "'w packet_conn option"
  upCodec :: "'o codec option"
  upAddr :: string

definition udp_NewCodecPacketConn ::
  "'w packet_conn option \<Rightarrow> 'o codec option \<Rightarrow> string \<Rightarrow> ('w, 'o) udp_CodecPacketConn" where
  "udp_NewCodecPacketConn conn codec addr = \<lparr>upConn = conn, upCodec = codec, upAddr = addr\<rparr>"

definition udp_DialCodec ::
  "lib \<Rightarrow> ('u world_scheme, 'x) net_scheme \<Rightarrow> 'u world_scheme udp_DefaultClient \<Rightarrow> ctx option \<Rightarrow> 'o codec option \<Rightarrow>
   (('u world_scheme, 'o) udp_CodecConn option \<times> go_error option, 'u world_scheme) prog" where
  "udp_DialCodec L N c ctx codec =
     (if codec = None
      then pret (None, udp_wrapCodecError L ''dial_codec'' (udpAddress (udpCfg c))
             (Some (ErrNew [] ''codec is nil'')))
      else pbind (udp_Dial L N c ctx) (\<lambda>(conn, err).
        if err \<noteq> None then pret (None, err)
        else pret (Some (udp_NewCodecConn conn codec (udpAddress (udpCfg c))), None)))"

definition udp_ListenPacketCodec ::
  "lib \<Rightarrow> 'u world_scheme packet_net \<Rightarrow> 'u world_scheme udp_DefaultClient \<Rightarrow> ctx option \<Rightarrow> 'o codec option \<Rightarrow>
   (('u world_scheme, 'o) udp_CodecPacketConn option \<times> go_error option, 'u world_scheme) prog" where
  "udp_ListenPacketCodec L N c ctx codec =
     (if codec = None
      then pret (None, udp_wrapCodecError L ''listen_codec'' (udpAddress (udpCfg c))
             (Some (ErrNew [] ''codec is nil'')))
      else pbind (udp_ListenPacket L N c ctx) (\<lambda>(conn, err).
        if err \<noteq> None then pret (None, err)
        else pret (Some (udp_NewCodecPacketConn conn codec (udpAddress (udpCfg c))), None)))"

definition udp_Raw :: "('w, 'o) udp_CodecConn option \<Rightarrow> 'w conn option" where
  "udp_Raw c = (case c of None \<Rightarrow> None | Some cc \<Rightarrow> ucConn cc)"

definition udp_CodecConn_Close ::
  "lib \<Rightarrow> ('w, 'o) udp_CodecConn option \<Rightarrow> (go_error option, 'w) prog" where
  "udp_CodecConn_Close L c =
     (case c of
        None \<Rightarrow> pret None
      | Some cc \<Rightarrow>
          (case ucConn cc of
             None \<Rightarrow> pret None
           | Some conn \<Rightarrow> pbind (ConnClose conn) (\<lambda>err.
               if err \<noteq> None
               then pret (oops_wrapf L ''clientx/udp''
                      [(''op'', AStr ''close_codec_conn''), (''addr'', AStr (ucAddr cc)),
                       (''protocol'', AStr ProtocolUDP)] err ''close udp codec conn'')
               else pret None)))"

definition udp_PacketRaw :: "('w, 'o) udp_CodecPacketConn option \<Rightarrow> 'w packet_conn option" where
  "udp_PacketRaw c = (case c of None \<Rightarrow> None | Some cc \<Rightarrow> upConn cc)"

definition udp_CodecPacketConn_Close ::
  "lib \<Rightarrow> ('w, 'o) udp_CodecPacketConn option \<Rightarrow> (go_error option, 'w) prog" where
  "udp_CodecPacketConn_Close L c =
     (case c of
        None \<Rightarrow> pret None
      | Some cc \<Rightarrow>
          (case upConn cc of
             None \<Rightarrow> pret None
           | Some conn \<Rightarrow> pbind (PacketClose conn) (\<lambda>err.
               if err \<noteq> None
               then pret (oops_wrapf L ''clientx/udp''
                      [(''op'', AStr ''close_packet_codec_conn''), (''addr'', AStr (upAddr cc)),
                       (''protocol'', AStr ProtocolUDP)] err ''close udp packet codec conn'')
               else pret None)))"

definition udp_nil_attrs :: "string \<Rightarrow> string \<Rightarrow> string \<Rightarrow> attrs" where
  "udp_nil_attrs op addr stage =
     [(''op'', AStr op), (''addr'', AStr addr), (''protocol'', AStr ProtocolUDP), (''stage'', AStr stage)]"

definition udp_WriteValue ::
  "lib \<Rightarrow> 'o runtime \<Rightarrow> ('w, 'o) udp_CodecConn option \<Rightarrow> 'o go_value \<Rightarrow> (go_error option, 'w) prog" where
  "udp_WriteValue L R c v =
     (case c of
        None \<Rightarrow> pret (Some (oops_new L ''clientx/udp''
                  [(''op'', AStr ''encode''), (''protocol'', AStr ProtocolUDP)] ''codec conn is nil''))
      | Some cc \<Rightarrow>
          (case ucConn cc of
             None \<Rightarrow> pret (Some (oops_new L ''clientx/udp''
                       (udp_nil_attrs ''encode'' (ucAddr cc) ''validate_conn'') ''conn is nil''))
           | Some conn \<Rightarrow>
          (case ucCodec cc of
             None \<Rightarrow> pret (Some (oops_new L ''clientx/udp''
                       (udp_nil_attrs ''encode'' (ucAddr cc) ''validate_codec'') ''codec is nil''))
           | Some codec \<Rightarrow>
          pbind (pres (Marshal codec v)) (\<lambda>(payload, err).
            if err \<noteq> None
            then pret (oops_wrapf L ''clientx/udp''
                   (udp_nil_attrs ''encode'' (ucAddr cc) ''marshal'' @
                    [(''value_type'', AStr (value_type R v))])
                   (udp_wrapCodecError L ''encode'' (ucAddr cc) err) ''encode udp value'')
            else pbind (ConnWrite conn payload) (\<lambda>(n, err).
              if err \<noteq> None
              then pret (oops_wrapf L ''clientx/udp''
                     [(''op'', AStr ''write''), (''addr'', AStr (ucAddr cc)),
                      (''protocol'', AStr ProtocolUDP), (''payload_size'', AInt (int (length payload)))]
                     (udp_wrapClientError L ''write'' (ucAddr cc) err) ''write udp payload'')
              else pret None)))))"

definition udp_ReadValue ::
  "lib \<Rightarrow> 'o runtime \<Rightarrow> ('w, 'o) udp_CodecConn option \<Rightarrow> 'o target \<Rightarrow>
   ('o target \<times> go_error option, 'w) prog" where
  "udp_ReadValue L R c zero =
     (case c of
        None \<Rightarrow> pret (zero, Some (oops_new L ''clientx/udp''
                  [(''op'', AStr ''decode''), (''protocol'', AStr ProtocolUDP)] ''codec conn is nil''))
      | Some cc \<Rightarrow>
          (case ucConn cc of
             None \<Rightarrow> pret (zero, Some (oops_new L ''clientx/udp''
                       (udp_nil_attrs ''decode'' (ucAddr cc) ''validate_conn'') ''conn is nil''))
           | Some conn \<Rightarrow>
          (case ucCodec cc of
             None \<Rightarrow> pret (zero, Some (oops_new L ''clientx/udp''
                       (udp_nil_attrs ''decode'' (ucAddr cc) ''validate_codec'') ''codec is nil''))
           | Some codec \<Rightarrow>
          pbind (ConnRead conn maxUDPPacketSize) (\<lambda>(data, err).
            if err \<noteq> None
            then pret (zero, oops_wrapf L ''clientx/udp''
                   [(''op'', AStr ''read''), (''addr'', AStr (ucAddr cc)), (''protocol'', AStr ProtocolUDP)]
                   (udp_wrapClientError L ''read'' (ucAddr cc) err) ''read udp payload'')
            else pbind (pres (Unmarshal codec data zero)) (\<lambda>(val, err).
              if err \<noteq> None
              then pret (val, oops_wrapf L ''clientx/udp''
                     (udp_nil_attrs ''decode'' (ucAddr cc) ''unmarshal'' @
                      [(''target_type'', AStr (target_type R zero)), (''payload_size'', AInt (int (length data)))])
                     (udp_wrapCodecError L ''decode'' (ucAddr cc) err) ''decode udp value'')
              else pret (val, None))))))"

definition udp_ReadValueFrom ::
  "lib \<Rightarrow> 'o runtime \<Rightarrow> ('w, 'o) udp_CodecPacketConn option \<Rightarrow> 'o target \<Rightarrow>
   ('o target \<times> net_addr option \<times> go_error option, 'w) prog" where
  "udp_ReadValueFrom L R c zero =
     (case c of
        None \<Rightarrow> pret (zero, None, Some (oops_new L ''clientx/udp''
                  [(''op'', AStr ''decode''), (''protocol'', AStr ProtocolUDP)] ''packet codec conn is nil''))
      | Some cc \<Rightarrow>
          (case upConn cc of
             None \<Rightarrow> pret (zero, None, Some (oops_new L ''clientx/udp''
                       (udp_nil_attrs ''decode'' (upAddr cc) ''validate_conn'') ''packet conn is nil''))
           | Some conn \<Rightarrow>
          (case upCodec cc of
             None \<Rightarrow> pret (zero, None, Some (oops_new L ''clientx/udp''
                       (udp_nil_attrs ''decode'' (upAddr cc) ''validate_codec'') ''codec is nil''))
           | Some codec \<Rightarrow>
          pbind (PacketReadFrom conn maxUDPPacketSize) (\<lambda>((data, addr), err).
            if err \<noteq> None
            then pret (zero, None, oops_wrapf L ''clientx/udp''
                   [(''op'', AStr ''read_from''), (''addr'', AStr (upAddr cc)), (''protocol'', AStr ProtocolUDP)]
                   (udp_wrapClientError L ''read_from'' (upAddr cc) err) ''read udp packet'')
            else pbind (pres (Unmarshal codec data zero)) (\<lambda>(val, err).
              if err \<noteq> None
              then pret (val, None, oops_wrapf L ''clientx/udp''
                     (udp_nil_attrs ''decode'' (upAddr cc) ''unmarshal'' @
                      [(''target_type'', AStr (target_type R zero)), (''payload_size'', AInt (int (length data)))])
                     (udp_wrapCodecError L ''decode'' (upAddr cc) err) ''decode udp packet'')
              else pret (val, addr, None))))))"

definition udp_WriteValueTo ::
  "lib \<Rightarrow> 'o runtime \<Rightarrow> ('w, 'o) udp_CodecPacketConn option \<Rightarrow> 'o go_value \<Rightarrow> net_addr option \<Rightarrow>
   (go_error option, 'w) prog" where
  "udp_WriteValueTo L R c v addr =
     (case c of
        None \<Rightarrow> pret (Some (oops_new L ''clientx/udp''
                  [(''op'', AStr ''encode''), (''protocol'', AStr ProtocolUDP)] ''packet codec conn is nil''))
      | Some cc \<Rightarrow>
          (case upConn cc of
             None \<Rightarrow> pret (Some (oops_new L ''clientx/udp''
                       (udp_nil_attrs ''encode'' (upAddr cc) ''validate_conn'') ''packet conn is nil''))
           | Some conn \<Rightarrow>
          (case upCodec cc of
             None \<Rightarrow> pret (Some (oops_new L ''clientx/udp''
                       (udp_nil_attrs ''encode'' (upAddr cc) ''validate_codec'') ''codec is nil''))
           | Some codec \<Rightarrow>
          pbind (pres (Marshal codec v)) (\<lambda>(payload, err).
            if err \<noteq> None
            then pret (oops_wrapf L ''clientx/udp''
                   (udp_nil_attrs ''encode'' (upAddr cc) ''marshal'' @
                    [(''value_type'', AStr (value_type R v))])
                   (udp_wrapCodecError L ''encode'' (upAddr cc) err) ''encode udp packet'')
            else pbind (PacketWriteTo conn payload addr) (\<lambda>(n, err).
              if err \<noteq> None
              then (let target = (case addr of None \<Rightarrow> upAddr cc | Some a \<Rightarrow> AddrString a) in
                    pret (oops_wrapf L ''clientx/udp''
                     [(''op'', AStr ''write_to''), (''addr'', AStr target),
                      (''protocol'', AStr ProtocolUDP), (''payload_size'', AInt (int (length payload)))]
                     (udp_wrapClientError L ''write_to'' target err) ''write udp packet''))
              else pret None)))))"

end
