(* ===== verification/Udp_Properties.thy ===== *)
theory Udp_Properties
  imports Udp
begin

text \<open>
  What holds of package \<^verbatim>\<open>udp\<close>: its configurations, its guarded datagram connections, values over
  them, dialling and listening.
\<close>

section \<open>Configuration\<close>

definition udp_normal :: "udp_Config \<Rightarrow> udp_Config" where
  "udp_normal cfg = cfg\<lparr>
     udpNetwork := (if trim_space (udpNetwork cfg) = [] then ''udp'' else trim_space (udpNetwork cfg)),
     udpAddress := trim_space (udpAddress cfg),
     udpDialTimeout := (if udpDialTimeout cfg = 0 then udp_defaultDialTimeout else udpDialTimeout cfg)\<rparr>"

definition udp_valid :: "udp_Config \<Rightarrow> bool" where
  "udp_valid cfg \<longleftrightarrow> udpAddress cfg \<noteq> [] \<and> 0 < udpDialTimeout cfg \<and>
     0 \<le> udpReadTimeout cfg \<and> 0 \<le> udpWriteTimeout cfg \<and> has_prefix (udpNetwork cfg) ''udp''"

lemma udp_normal_idem: "udp_normal (udp_normal cfg) = udp_normal cfg"
proof -
  have "trim_space ''udp'' = ''udp''" by code_simp
  then show ?thesis by (simp add: udp_normal_def udp_defaultDialTimeout_def)
qed

lemma udp_Normalize_eq:
  "udp_NormalizeAndValidate L cfg =
     (let out = udp_normal cfg in
      if udpAddress out = []
      then udp_invalid L [(''field'', AStr ''address''), (''network'', AStr (udpNetwork out))]
             ''address is required''
      else if udpDialTimeout out < 0 \<or> udpReadTimeout out < 0 \<or> udpWriteTimeout out < 0
      then udp_invalid L
             [(''field'', AStr ''timeout''), (''network'', AStr (udpNetwork out)),
              (''dial_timeout'', ADur (udpDialTimeout out)), (''read_timeout'', ADur (udpReadTimeout out)),
              (''write_timeout'', ADur (udpWriteTimeout out))]
             ''timeout values must be >= 0''
      else if \<not> has_prefix (udpNetwork out) ''udp''
      then udp_invalid L [(''field'', AStr ''network''), (''network'', AStr (udpNetwork out))]
             ''network must be udp/udp4/udp6''
      else (out, None))"
  by (simp add: udp_NormalizeAndValidate_def udp_normal_def Let_def)

lemma udp_normal_timeout: "udpDialTimeout (udp_normal cfg) \<noteq> 0"
  by (simp add: udp_normal_def udp_defaultDialTimeout_def)

lemma udp_Normalize_cases:
  "udp_valid (udp_normal cfg) \<and> udp_NormalizeAndValidate L cfg = (udp_normal cfg, None) \<or>
   \<not> udp_valid (udp_normal cfg) \<and> (\<exists>as msg. udp_NormalizeAndValidate L cfg = udp_invalid L as msg)"
  using udp_normal_timeout [of cfg] udp_Normalize_eq [of L cfg] unfolding udp_valid_def Let_def
  by (cases "udpAddress (udp_normal cfg) = []"; cases "has_prefix (udpNetwork (udp_normal cfg)) ''udp''";
      cases "udpDialTimeout (udp_normal cfg) < 0 \<or> udpReadTimeout (udp_normal cfg) < 0 \<or> udpWriteTimeout (udp_normal cfg) < 0")
    (simp_all only: if_True if_False simp_thms, auto)

lemma udp_invalid_error:
  assumes "oops_ok L" and "udp_invalid L as msg = (out, err)"
  shows "out = udp_zero_Config \<and> errors_is err udp_ErrInvalidConfig"
  using assms by (auto simp: udp_invalid_def errors_is_Some udp_ErrInvalidConfig_def)

text \<open>
  Normalising a configuration either gives a valid one, with an address, a positive dial timeout, no
  negative timeout and a udp network, which normalising again leaves alone; or it fails with
  \<open>ErrInvalidConfig\<close>, exactly when trimming and the defaults do not make the configuration valid.
\<close>

theorem udp_config_normal:
  assumes "oops_ok L"
  shows "case udp_NormalizeAndValidate L cfg of (out, err) \<Rightarrow>
    if udp_valid (udp_normal cfg)
    then out = udp_normal cfg \<and> err = None \<and> udp_NormalizeAndValidate L out = (out, None)
    else out = udp_zero_Config \<and> errors_is err udp_ErrInvalidConfig"
proof (cases "udp_valid (udp_normal cfg)")
  case True
  then show ?thesis
    using udp_Normalize_cases [of cfg L] udp_Normalize_cases [of "udp_normal cfg" L]
    by (auto simp: udp_normal_idem)
next
  case False
  then obtain as msg where "udp_NormalizeAndValidate L cfg = udp_invalid L as msg"
    using udp_Normalize_cases [of cfg L] by blast
  then show ?thesis using False udp_invalid_error [OF assms, of as msg] by (cases "udp_invalid L as msg") simp
qed

definition sample_udp_Config :: udp_Config where
  "sample_udp_Config = udp_zero_Config\<lparr>udpAddress := '' h:1 ''\<rparr>"

lemma sample_udp_normal: "udp_normal sample_udp_Config =
    \<lparr>udpNetwork = ''udp'', udpAddress = ''h:1'', udpDialTimeout = 5 * second, udpReadTimeout = 0, udpWriteTimeout = 0\<rparr>"
proof -
  have t: "trim_space '' h:1 '' = ''h:1''" "trim_space [] = []" by code_simp+
  then show ?thesis
    by (simp add: udp_normal_def sample_udp_Config_def udp_zero_Config_def udp_defaultDialTimeout_def)
qed

theorem udp_config_normal_witness:
  "udp_NormalizeAndValidate plain_lib sample_udp_Config =
     (\<lparr>udpNetwork = ''udp'', udpAddress = ''h:1'', udpDialTimeout = 5 * second, udpReadTimeout = 0,
       udpWriteTimeout = 0\<rparr>, None)"
proof -
  have "udp_valid (udp_normal sample_udp_Config)"
    by (simp add: sample_udp_normal udp_valid_def has_prefix_def)
  then show ?thesis
    using udp_config_normal [OF plain_lib_ok, of sample_udp_Config]
    by (cases "udp_NormalizeAndValidate plain_lib sample_udp_Config") (simp add: sample_udp_normal)
qed

section \<open>Guarded datagrams\<close>

lemma udp_runIO_guarded:
  "udp_runIO L op addr hooks timeout setDeadline run nothing size_of =
     guarded_io (udp_applyDeadline L setDeadline timeout op addr) run nothing size_of
       (udp_wrapClientError L op addr) (\<lambda>n d e. udp_emitIO op addr n d e hooks)"
  by (simp add: udp_runIO_def guarded_io_def)

lemma udp_ReadFrom_guarded:
  "udp_ReadFrom L c n =
     guarded_io (udp_applyDeadline L (PacketSetReadDeadline (upktConn c)) (upktReadTimeout c) ''read_from'' (upktAddr c))
       (PacketReadFrom (upktConn c) n) ([], None) (\<lambda>x. int (length (fst x)))
       (udp_wrapClientError L ''read_from'' (upktAddr c))
       (\<lambda>n d e. udp_emitIO ''read_from'' (upktAddr c) n d e (upktHooks c))"
  unfolding udp_ReadFrom_def guarded_io_def split_def prod.collapse ..

lemma udp_WriteTo_guarded:
  "udp_WriteTo L c data addr =
     (let target = udp_targetAddr (upktAddr c) addr in
      guarded_io (udp_applyDeadline L (PacketSetWriteDeadline (upktConn c)) (upktWriteTimeout c) ''write_to'' target)
        (PacketWriteTo (upktConn c) data addr) 0 (\<lambda>n. n) (udp_wrapClientError L ''write_to'' target)
        (\<lambda>n d e. udp_emitIO ''write_to'' target n d e (upktHooks c)))"
  by (simp add: udp_WriteTo_def guarded_io_def Let_def)

lemma udp_applyDeadline_set:
  assumes "\<And>t w. \<exists>w'. setDeadline t w = Some (Ret None, w') \<and> f w' = f w"
  shows "\<exists>w'. udp_applyDeadline L setDeadline timeout op addr w = Some (Ret None, w') \<and> f w' = f w"
  using assms [of "now w + timeout" w] by (auto simp: udp_applyDeadline_def pbind_apply)

lemma udp_emitIO_quiet:
  assumes "\<And>k e. Some k \<in> set hooks \<Longrightarrow> returns (OnIO k e) \<and> keeps f (OnIO k e)"
  shows "quiet f (udp_emitIO op addr n d err hooks)"
  unfolding udp_emitIO_def by (rule quiet_EmitIO) (use assms in blast)+

text \<open>
  The contract of a packet socket: \<open>inbox\<close> are the datagrams that wait with their senders, \<open>outbox\<close>
  those that were sent with their targets. A read takes one datagram, cut at the size of the buffer;
  a write sends one.
\<close>

locale packet_source =
  fixes rd :: "nat \<Rightarrow> ((byte list \<times> net_addr option) \<times> go_error option, 'w) prog"
    and inbox :: "'w \<Rightarrow> (byte list \<times> net_addr) list"
  assumes receive: "inbox w = (d, a) # ds \<Longrightarrow>
    \<exists>w'. rd n w = Some (Ret ((take n d, Some a), None), w') \<and> inbox w' = ds"

locale packet_sink =
  fixes wr :: "byte list \<Rightarrow> net_addr option \<Rightarrow> (int \<times> go_error option, 'w) prog"
    and outbox :: "'w \<Rightarrow> (byte list \<times> net_addr) list"
  assumes transmit: "\<exists>w'. wr d (Some a) w = Some (Ret (int (length d), None), w') \<and> outbox w' = outbox w @ [(d, a)]"

definition calm_packet_conn :: "('u world_scheme \<Rightarrow> 'b) \<Rightarrow> 'u world_scheme udp_timeoutPacketConn \<Rightarrow> bool" where
  "calm_packet_conn f c \<longleftrightarrow>
     (\<forall>t w. \<exists>w'. PacketSetReadDeadline (upktConn c) t w = Some (Ret None, w') \<and> f w' = f w) \<and>
     (\<forall>t w. \<exists>w'. PacketSetWriteDeadline (upktConn c) t w = Some (Ret None, w') \<and> f w' = f w) \<and>
     (\<forall>h \<in> set (upktHooks c). quiet_hook f h)"

lemma udp_ReadFrom_source:
  assumes "packet_source (PacketReadFrom (upktConn c)) inbox" and "calm_packet_conn inbox c"
  shows "packet_source (udp_ReadFrom L c) inbox"
proof
  fix w d a ds and n :: nat
  assume "inbox w = (d, a) # ds"
  moreover obtain w1 where dl: "udp_applyDeadline L (PacketSetReadDeadline (upktConn c)) (upktReadTimeout c)
      ''read_from'' (upktAddr c) w = Some (Ret None, w1)" "inbox w1 = inbox w"
    using udp_applyDeadline_set assms(2) unfolding calm_packet_conn_def by metis
  ultimately obtain w2 where run: "PacketReadFrom (upktConn c) n w1 = Some (Ret ((take n d, Some a), None), w2)"
    "inbox w2 = ds" using packet_source.receive [OF assms(1), of w1 d a ds n] by auto
  have q: "quiet inbox (udp_emitIO ''read_from'' (upktAddr c) n d e (upktHooks c))" for n d e
    by (rule udp_emitIO_quiet) (use assms(2) in \<open>auto simp: calm_packet_conn_def quiet_hook_def\<close>)
  have "\<exists>w'. udp_ReadFrom L c n w = Some (Ret ((take n d, Some a), None), w') \<and> inbox w' = inbox w2"
    unfolding udp_ReadFrom_guarded using dl(1) run(1) q by (rule guarded_io_ok)
  then show "\<exists>w'. udp_ReadFrom L c n w = Some (Ret ((take n d, Some a), None), w') \<and> inbox w' = ds"
    using run(2) by simp
qed

lemma udp_WriteTo_sink:
  assumes "packet_sink (PacketWriteTo (upktConn c)) outbox" and "calm_packet_conn outbox c"
  shows "packet_sink (udp_WriteTo L c) outbox"
proof
  fix w d a
  let ?target = "udp_targetAddr (upktAddr c) (Some a)"
  obtain w1 where dl: "udp_applyDeadline L (PacketSetWriteDeadline (upktConn c)) (upktWriteTimeout c)
      ''write_to'' ?target w = Some (Ret None, w1)" "outbox w1 = outbox w"
    using udp_applyDeadline_set assms(2) unfolding calm_packet_conn_def by metis
  obtain w2 where run: "PacketWriteTo (upktConn c) d (Some a) w1 = Some (Ret (int (length d), None), w2)"
    "outbox w2 = outbox w1 @ [(d, a)]" using packet_sink.transmit [OF assms(1)] by blast
  have q: "quiet outbox (udp_emitIO ''write_to'' ?target n d e (upktHooks c))" for n d e
    by (rule udp_emitIO_quiet) (use assms(2) in \<open>auto simp: calm_packet_conn_def quiet_hook_def\<close>)
  have "\<exists>w'. udp_WriteTo L c d (Some a) w = Some (Ret (int (length d), None), w') \<and> outbox w' = outbox w2"
    unfolding udp_WriteTo_guarded Let_def using dl(1) run(1) q by (rule guarded_io_ok)
  then show "\<exists>w'. udp_WriteTo L c d (Some a) w = Some (Ret (int (length d), None), w') \<and> outbox w' = outbox w @ [(d, a)]"
    using run(2) dl(2) by simp
qed

text \<open>A socket in memory, and the guarded one over it as an interpretation of the contract.\<close>

record packet_world = world +
  pkt_in :: "(byte list \<times> net_addr) list"
  pkt_out :: "(byte list \<times> net_addr) list"

definition mem_packet_conn :: "'u packet_world_scheme packet_conn" where
  "mem_packet_conn = \<lparr>
     PacketReadFrom = (\<lambda>n w. case pkt_in w of
         [] \<Rightarrow> Some (Ret (([], None), Some OsDeadline), w)
       | (d, a) # ds \<Rightarrow> Some (Ret ((take n d, Some a), None), w\<lparr>pkt_in := ds\<rparr>)),
     PacketWriteTo = (\<lambda>d addr w. case addr of
         None \<Rightarrow> Some (Ret (0, Some (ErrNew [] ''missing address'')), w)
       | Some a \<Rightarrow> Some (Ret (int (length d), None), w\<lparr>pkt_out := pkt_out w @ [(d, a)]\<rparr>)),
     PacketClose = pret None,
     PacketSetReadDeadline = (\<lambda>t. pret None), PacketSetWriteDeadline = (\<lambda>t. pret None),
     PacketSetDeadline = (\<lambda>t. pret None), PacketLocalAddr = \<lparr>AddrNetwork = ''udp'', AddrString = ''127.0.0.1:9''\<rparr>\<rparr>"

definition mem_packet_guarded :: "duration \<Rightarrow> 'u packet_world_scheme udp_timeoutPacketConn" where
  "mem_packet_guarded t = \<lparr>upktConn = mem_packet_conn, upktReadTimeout = t, upktWriteTimeout = t,
     upktAddr = '':9'', upktHooks = []\<rparr>"

lemma mem_packet_facts:
  "packet_source (PacketReadFrom (upktConn (mem_packet_guarded t))) pkt_in"
  "packet_sink (PacketWriteTo (upktConn (mem_packet_guarded t))) pkt_out"
  "calm_packet_conn f (mem_packet_guarded t)"
  by (auto simp: packet_source_def packet_sink_def calm_packet_conn_def mem_packet_guarded_def mem_packet_conn_def)

interpretation udp_in: packet_source "udp_ReadFrom L (mem_packet_guarded t)" pkt_in
  by (rule udp_ReadFrom_source [OF mem_packet_facts(1,3)])

interpretation udp_out: packet_sink "udp_WriteTo L (mem_packet_guarded t)" pkt_out
  by (rule udp_WriteTo_sink [OF mem_packet_facts(2,3)])

section \<open>Values over a packet socket\<close>

abbreviation packet_codec_conn ::
  "'w packet_conn \<Rightarrow> 'o codec \<Rightarrow> string \<Rightarrow> ('w, 'o) udp_CodecPacketConn option" where
  "packet_codec_conn conn codec addr \<equiv> Some (udp_NewCodecPacketConn (Some conn) (Some codec) addr)"

locale packet_values = faithful_codec codec vals fresh decoded +
    packet_source "PacketReadFrom conn" inbox + packet_sink "PacketWriteTo conn" outbox
  for codec :: "'o codec" and vals fresh decoded and conn :: "'w packet_conn" and inbox outbox
begin

lemma write_value_to:
  assumes "v \<in> vals"
  shows "\<exists>w'. udp_WriteValueTo L R (packet_codec_conn conn codec addr) v (Some a) w = Some (Ret None, w') \<and>
    outbox w' = outbox w @ [(payload codec v, a)]"
  using transmit [of "payload codec v" a w] marshal_payload [OF assms]
  by (auto simp: udp_WriteValueTo_def udp_NewCodecPacketConn_def pbind_apply)

lemma read_value_from:
  assumes "v \<in> vals" and "length (payload codec v) \<le> maxUDPPacketSize"
    and "inbox w = (payload codec v, a) # ds"
  shows "\<exists>w'. udp_ReadValueFrom L R (packet_codec_conn conn codec addr) (fresh v) w =
      Some (Ret (decoded v, Some a, None), w') \<and> inbox w' = ds"
  using receive [OF assms(3), of maxUDPPacketSize] assms(2)
    unmarshal_ok [OF assms(1) marshal_payload [OF assms(1)]]
  by (auto simp: udp_ReadValueFrom_def udp_NewCodecPacketConn_def pbind_apply)

end

interpretation udp_bytes: packet_values "BytesCodec L R" "range VBytes" fresh_target decoded_target
    "udp_packet_conn L (mem_packet_guarded t)" pkt_in pkt_out
  for L and R :: "'o runtime" and t
proof (intro packet_values.intro)
  show "packet_source (PacketReadFrom (udp_packet_conn L (mem_packet_guarded t))) pkt_in"
    using udp_in.packet_source_axioms by (simp add: udp_packet_conn_def)
  show "packet_sink (PacketWriteTo (udp_packet_conn L (mem_packet_guarded t))) pkt_out"
    using udp_out.packet_sink_axioms by (simp add: udp_packet_conn_def)
qed (rule bytesc.faithful_codec_axioms)

lemma packet_values_guarded:
  assumes "faithful_codec codec vals fresh decoded"
    and "packet_source (PacketReadFrom (upktConn c)) inbox" and "packet_sink (PacketWriteTo (upktConn c)) outbox"
    and "calm_packet_conn inbox c" and "calm_packet_conn outbox c"
  shows "packet_values codec vals fresh decoded (udp_packet_conn L c) inbox outbox"
  using assms udp_ReadFrom_source [OF assms(2,4)] udp_WriteTo_sink [OF assms(3,5)]
  by (intro packet_values.intro) (simp_all add: udp_packet_conn_def)

text \<open>
  C12: a value is one datagram: over a guarded packet socket with a faithful codec, writing a value sends
  exactly its payload to the given address, and reading takes exactly the next datagram, gives its value
  back with the sender's address and leaves the rest, for payloads up to 64 KiB.
\<close>

theorem udp_packet_roundtrip:
  assumes "faithful_codec codec vals fresh decoded"
    and "packet_source (PacketReadFrom (upktConn c)) inbox" and "packet_sink (PacketWriteTo (upktConn c)) outbox"
    and "calm_packet_conn inbox c" and "calm_packet_conn outbox c"
    and "v \<in> vals" and "length (payload codec v) \<le> maxUDPPacketSize"
  shows "let cc = Some (udp_NewCodecPacketConn (Some (udp_packet_conn L c)) (Some codec) addr) in
    (\<exists>w'. udp_WriteValueTo L R cc v (Some a) w = Some (Ret None, w') \<and>
      outbox w' = outbox w @ [(payload codec v, a)]) \<and>
    (inbox w = (payload codec v, a) # ds \<longrightarrow>
      (\<exists>w'. udp_ReadValueFrom L R cc (fresh v) w = Some (Ret (decoded v, Some a, None), w') \<and> inbox w' = ds))"
proof -
  note l = packet_values_guarded [OF assms(1-5)]
  show ?thesis unfolding Let_def
    by (intro conjI impI packet_values.write_value_to [OF l assms(6)] packet_values.read_value_from [OF l assms(6,7)])
qed

definition packet_start :: "(byte list \<times> net_addr) list \<Rightarrow> packet_world" where
  "packet_start ds = \<lparr>now = 0, next_id = 0, cancelled_at = (\<lambda>_. None), choices = (\<lambda>_. False), sems = (\<lambda>_. 0),
     pkt_in = ds, pkt_out = []\<rparr>"

definition sample_peer :: net_addr where
  "sample_peer = \<lparr>AddrNetwork = ''udp'', AddrString = ''p:5''\<rparr>"

theorem udp_packet_roundtrip_witness:
  "let cc = Some (udp_NewCodecPacketConn (Some (udp_packet_conn plain_lib (mem_packet_guarded second)))
         (Some (TextCodec plain_lib no_runtime)) '':9'');
       w = packet_start [(bytes_of ''hi'', sample_peer), ([7], sample_peer)] in
   (\<exists>w'. udp_WriteValueTo plain_lib no_runtime cc (VString ''hi'') (Some sample_peer) w = Some (Ret None, w') \<and>
      pkt_out w' = [(bytes_of ''hi'', sample_peer)]) \<and>
   (\<exists>w'. udp_ReadValueFrom plain_lib no_runtime cc (PString (Some [])) w =
      Some (Ret (PString (Some ''hi''), Some sample_peer, None), w') \<and> pkt_in w' = [([7], sample_peer)])"
proof -
  let ?C = "TextCodec plain_lib no_runtime" and ?w = "packet_start [(bytes_of ''hi'', sample_peer), ([7], sample_peer)]"
  have p: "payload ?C (VString ''hi'') = bytes_of ''hi''" by (simp add: payload_def TextCodec_def)
  have v: "VString ''hi'' \<in> {v. plain_value v}" "length (payload ?C (VString ''hi'')) \<le> maxUDPPacketSize"
    by (simp_all add: p maxUDPPacketSize_def)
  have i: "pkt_in ?w = (payload ?C (VString ''hi''), sample_peer) # [([7], sample_peer)]" "pkt_out ?w = []"
    by (simp_all add: p packet_start_def)
  show ?thesis
    using udp_packet_roundtrip [OF textc.faithful_codec_axioms mem_packet_facts(1,2,3,3) [where t = second] v,
        where L = plain_lib and R = no_runtime and addr = "'':9''" and a = sample_peer and w = ?w
          and ds = "[([7], sample_peer)]"] i
    by (simp add: p Let_def)
qed

lemma KindOf_udp_wrapCodecError:
  assumes "oops_ok L" and "errors_as is_client_error (Some e) = None"
  shows "KindOf (udp_wrapCodecError L op addr (Some e)) = Ret ErrorKindCodec"
  using KindOf_wrapped [of L ProtocolUDP op addr ErrorKindCodec e] assms
  by (simp add: udp_wrapCodecError_def KindOf_wrapf kind_defs)

text \<open>
  C38: a datagram that does not decode costs only itself: the read fails with kind \<open>codec\<close>, does not say
  who sent it, and leaves the socket at the next datagram; a value that does not encode sends nothing.
\<close>

theorem udp_codec_errors:
  assumes "oops_ok L" and "errors_as is_client_error (Some e) = None"
    and "errors_as is_client_error (Some e') = None"
    and "Marshal codec v = Ret (bs, Some e)" and "Unmarshal codec (take maxUDPPacketSize d) t = Ret (t', Some e')"
    and "packet_source (PacketReadFrom conn) inbox" and "inbox w = (d, a) # ds"
  shows "let cc = Some (udp_NewCodecPacketConn (Some conn) (Some codec) addr) in
    (\<exists>r. udp_WriteValueTo L R cc v target w = Some (Ret r, w) \<and> KindOf r = Ret ErrorKindCodec) \<and>
    (\<exists>r w'. udp_ReadValueFrom L R cc t w = Some (Ret (t', None, r), w') \<and> KindOf r = Ret ErrorKindCodec \<and>
      inbox w' = ds)"
proof -
  obtain w' where r: "PacketReadFrom conn maxUDPPacketSize w = Some (Ret ((take maxUDPPacketSize d, Some a), None), w')"
    "inbox w' = ds" using packet_source.receive [OF assms(6,7)] by blast
  show ?thesis unfolding Let_def
    using KindOf_udp_wrapCodecError [OF assms(1,2)] KindOf_udp_wrapCodecError [OF assms(1,3)] assms(4,5) r
    by (simp add: udp_WriteValueTo_def udp_ReadValueFrom_def udp_NewCodecPacketConn_def pbind_apply
        KindOf_wrapf [OF assms(1)])
qed

theorem udp_codec_errors_witness:
  "\<exists>r w'. udp_ReadValueFrom plain_lib no_runtime
      (Some (udp_NewCodecPacketConn (Some mem_packet_conn) (Some (JSONCodec plain_lib no_runtime)) '':9''))
      (PString (Some [])) (packet_start [([7], sample_peer), ([8], sample_peer)]) =
      Some (Ret (PString (Some []), None, r), w') \<and>
    KindOf r = Ret ErrorKindCodec \<and> pkt_in w' = [([8], sample_peer)]"
proof -
  let ?C = "JSONCodec plain_lib no_runtime" and ?e = "Foreign ''clientx/codec'' ''marshal json value'' None [ErrEOF]"
    and ?e' = "Foreign ''clientx/codec'' ''unmarshal json value'' None [ErrEOF]"
  have e: "errors_as is_client_error (Some ?e) = None" "errors_as is_client_error (Some ?e') = None"
    by (simp_all add: errors_as_def)
  have m: "Marshal ?C (VString []) = Ret ([], Some ?e)"
    by (simp add: JSONCodec_def jsonMarshal_def no_runtime_def)
  have u: "Unmarshal ?C (take maxUDPPacketSize [7]) (PString (Some [])) = Ret (PString (Some []), Some ?e')"
    by (simp add: JSONCodec_def jsonUnmarshal_def no_runtime_def)
  have b: "packet_source (PacketReadFrom mem_packet_conn) pkt_in"
    using mem_packet_facts(1) by (simp add: mem_packet_guarded_def)
  have i: "pkt_in (packet_start [([7], sample_peer), ([8], sample_peer)]) = ([7], sample_peer) # [([8], sample_peer)]"
    by (simp add: packet_start_def)
  show ?thesis
    using udp_codec_errors [OF plain_lib_ok e m u b i, where R = no_runtime and addr = "'':9''"]
    unfolding Let_def by blast
qed

section \<open>Dialling and listening\<close>

definition udp_dialled ::
  "lib \<Rightarrow> ('u world_scheme, 'x) net_scheme \<Rightarrow> 'u world_scheme udp_DefaultClient \<Rightarrow> 'u world_scheme conn \<Rightarrow> bool" where
  "udp_dialled L N c conn \<longleftrightarrow> (\<exists>raw execCtx w w'.
     net_dial N None (udpDialTimeout (udpCfg c)) 0 execCtx (udpNetwork (udpCfg c)) (udpAddress (udpCfg c)) w =
       Some (Ret (Inr raw), w') \<and>
     conn = udp_conn L \<lparr>uconnConn = raw, uconnReadTimeout = udpReadTimeout (udpCfg c),
       uconnWriteTimeout = udpWriteTimeout (udpCfg c), uconnAddr = udpAddress (udpCfg c), uconnHooks = udpHooks c\<rparr>)"

definition udp_listens ::
  "lib \<Rightarrow> 'u world_scheme packet_net \<Rightarrow> 'u world_scheme udp_DefaultClient \<Rightarrow> 'u world_scheme packet_conn \<Rightarrow> bool" where
  "udp_listens L N c conn \<longleftrightarrow> (\<exists>raw execCtx w w'.
     net_listen N execCtx (udpNetwork (udpCfg c)) (udpAddress (udpCfg c)) w = Some (Ret (Inr raw), w') \<and>
     conn = udp_packet_conn L \<lparr>upktConn = raw, upktReadTimeout = udpReadTimeout (udpCfg c),
       upktWriteTimeout = udpWriteTimeout (udpCfg c), upktAddr = udpAddress (udpCfg c), upktHooks = udpHooks c\<rparr>)"

abbreviation udp_emitDial ::
  "string \<Rightarrow> 'w udp_DefaultClient \<Rightarrow> duration \<Rightarrow> go_error option \<Rightarrow> (unit, 'w) prog" where
  "udp_emitDial op c d e \<equiv> EmitDial (udpHooks c) (udp_dial_event op (udpCfg c) d e)"

lemma udp_dialOnce_open:
  "udp_dialOnce L N c = open_once
     (\<lambda>execCtx. net_dial N None (udpDialTimeout (udpCfg c)) 0 execCtx (udpNetwork (udpCfg c)) (udpAddress (udpCfg c)))
     (udp_emitDial ''dial'' c) (udp_wrapClientError L ''dial'' (udpAddress (udpCfg c)))
     (\<lambda>conn. udp_conn L \<lparr>uconnConn = conn, uconnReadTimeout = udpReadTimeout (udpCfg c),
       uconnWriteTimeout = udpWriteTimeout (udpCfg c), uconnAddr = udpAddress (udpCfg c), uconnHooks = udpHooks c\<rparr>)"
  by (rule ext) (simp add: udp_dialOnce_def open_once_def Let_def)

lemma udp_listenOnce_open:
  "udp_listenOnce L N c = open_once
     (\<lambda>execCtx. net_listen N execCtx (udpNetwork (udpCfg c)) (udpAddress (udpCfg c)))
     (udp_emitDial ''listen'' c) (udp_wrapClientError L ''listen'' (udpAddress (udpCfg c)))
     (\<lambda>conn. udp_packet_conn L \<lparr>upktConn = conn, upktReadTimeout = udpReadTimeout (udpCfg c),
       upktWriteTimeout = udpWriteTimeout (udpCfg c), upktAddr = udpAddress (udpCfg c), upktHooks = udpHooks c\<rparr>)"
  by (rule ext) (simp add: udp_listenOnce_def open_once_def Let_def)

definition udp_fail :: "lib \<Rightarrow> string \<Rightarrow> operation \<Rightarrow> go_error option \<Rightarrow> go_error option" where
  "udp_fail L msg operation err = oops_wrapf L ''clientx/udp'' (udp_operation_attrs operation) err msg"

lemma udp_wrapClientError_Some: "oops_ok L \<Longrightarrow> udp_wrapClientError L op addr (Some e) \<noteq> None"
  by (simp add: udp_wrapClientError_def WrapError_def)

lemma udp_fail_carries: "oops_ok L \<Longrightarrow> carries (udp_fail L msg operation e) e"
  unfolding udp_fail_def by (rule carries_wrapf)

interpretation udp_dial: client_calls "udp_dialOnce (lawful M) N c"
    "udp_fail (lawful M) ''execute udp dial operation'' operation" "udp_dialled (lawful M) N c"
  for M N c operation
proof
  show "\<exists>d. x = Some d \<and> udp_dialled (lawful M) N c d"
    if "udp_dialOnce (lawful M) N c execCtx w = Some (Ret (x, None), w')" for execCtx w x w'
    using open_once_success [OF udp_wrapClientError_Some [OF lawful_ok] that [unfolded udp_dialOnce_open]]
    unfolding udp_dialled_def by blast
qed (rule udp_fail_carries [OF lawful_ok])

interpretation udp_listen: client_calls "udp_listenOnce (lawful M) N c"
    "udp_fail (lawful M) ''execute udp listen operation'' operation" "udp_listens (lawful M) N c"
  for M N c operation
proof
  show "\<exists>d. x = Some d \<and> udp_listens (lawful M) N c d"
    if "udp_listenOnce (lawful M) N c execCtx w = Some (Ret (x, None), w')" for execCtx w x w'
    using open_once_success [OF udp_wrapClientError_Some [OF lawful_ok] that [unfolded udp_listenOnce_open]]
    unfolding udp_listens_def by blast
qed (rule udp_fail_carries [OF lawful_ok])

lemma udp_Dial_call:
  "\<exists>operation. udp_Dial L N c ctx = client_call L (udp_dialOnce L N c)
     (udp_fail L ''execute udp dial operation'' operation) ctx operation (udpPolicies c)"
  unfolding udp_Dial_def client_call_def udp_invokeWithDialPolicies_def udp_fail_def Let_def by blast

lemma udp_ListenPacket_call:
  "\<exists>operation. udp_ListenPacket L N c ctx = client_call L (udp_listenOnce L N c)
     (udp_fail L ''execute udp listen operation'' operation) ctx operation (udpPolicies c)"
  unfolding udp_ListenPacket_def client_call_def udp_invokeWithListenPolicies_def udp_fail_def Let_def by blast

text \<open>
  Dialling and listening hand out a guarded connection around one that was opened, or an error and
  nothing.
\<close>

theorem udp_open_result:
  assumes "oops_ok L"
  shows "(udp_Dial L N c ctx w = Some (Ret (conn, err), w') \<longrightarrow>
      (if err = None then \<exists>d. conn = Some d \<and> udp_dialled L N c d else conn = None)) \<and>
    (udp_ListenPacket L N c ctx w = Some (Ret (pconn, perr), w'') \<longrightarrow>
      (if perr = None then \<exists>d. pconn = Some d \<and> udp_listens L N c d else pconn = None))"
  using udp_dial.result [where M = L, unfolded lawful_eq [OF assms]] udp_Dial_call [of L N c ctx]
    udp_listen.result [where M = L, unfolded lawful_eq [OF assms]] udp_ListenPacket_call [of L N c ctx]
  by metis

definition mem_packet_net :: "'u packet_world_scheme packet_net" where
  "mem_packet_net = \<lparr>net_dial = (\<lambda>tls timeout keepAlive execCtx network addr. pret (Inl NetClosed)),
     net_listen = (\<lambda>execCtx network addr. pret (Inr mem_packet_conn))\<rparr>"

definition sample_udp_client :: "'w udp_DefaultClient" where
  "sample_udp_client = \<lparr>udpCfg = udp_normal sample_udp_Config, udpHooks = [], udpPolicies = []\<rparr>"

theorem udp_open_result_witness:
  "\<exists>pconn. udp_ListenPacket plain_lib mem_packet_net sample_udp_client None (packet_start []) =
      Some (Ret (Some pconn, None), packet_start []) \<and> udp_listens plain_lib mem_packet_net sample_udp_client pconn"
proof -
  have "\<exists>pconn. udp_ListenPacket plain_lib mem_packet_net sample_udp_client None (packet_start []) =
      Some (Ret (Some pconn, None), packet_start [])"
    by (simp add: udp_ListenPacket_def udp_invokeWithListenPolicies_def InvokeWithPolicies_def normalizeContext_def
        Let_def invokeLoop.simps invokeAttempt_def sample_udp_client_def filterPolicies_def applyAfterPolicies_def
        pbind_apply udp_listenOnce_open open_once_def mem_packet_net_def EmitDial_def)
  then show ?thesis using udp_open_result [OF plain_lib_ok, of mem_packet_net sample_udp_client None "packet_start []"]
    by (metis option.inject)
qed

end
