(* ===== verification/Net_Events.thy ===== *)
theory Net_Events
  imports Tcp_Properties Udp_Properties
begin

text \<open>
  What the guarded connections of both packages tell the hooks: one event per call, with what the call
  returned. The recorder is a hook that keeps the events in the world.
\<close>

record io_world = world +
  io_log :: "IOEvent list"

definition io_recorder :: "'u io_world_scheme hook" where
  "io_recorder = HookFuncs None (Some (\<lambda>e. pmodify (\<lambda>w. w\<lparr>io_log := io_log w @ [e]\<rparr>)))"

lemma EmitIO_recorder: "EmitIO [Some io_recorder] e w = Some (Ret (), w\<lparr>io_log := io_log w @ [e]\<rparr>)"
  by (simp add: EmitIO_def emitIOSafe_def io_recorder_def HookFuncs_def pbind_apply precover_apply)

text \<open>The deadline and the transfer of the wrapped connection leave the log alone.\<close>

lemma guarded_io_event:
  assumes "guarded_io deadline run nothing size_of wrap (\<lambda>n d e. EmitIO [Some io_recorder] (event n d e)) w =
      Some (Ret (x, err), w')"
    and "keeps io_log deadline" and "keeps io_log run" and "size_of nothing = 0"
  shows "io_log w' = io_log w @ [event (size_of x) (now w' - now w) err]"
proof -
  obtain dl w1 where d: "deadline w = Some (Ret dl, w1)"
    using assms(1) by (auto simp: guarded_io_def pbind_apply split: option.splits res.splits)
  have l1: "io_log w1 = io_log w" by (rule keepsD [OF assms(2) d])
  show ?thesis
  proof (cases dl)
    case (Some e)
    then show ?thesis using assms(1,4) d l1
      by (auto simp: guarded_io_def pbind_apply EmitIO_recorder)
  next
    case None
    then obtain y e w2 where r: "run w1 = Some (Ret (y, e), w2)"
      using assms(1) d by (auto simp: guarded_io_def pbind_apply split: option.splits res.splits)
    have "io_log w2 = io_log w1" by (rule keepsD [OF assms(3) r])
    then show ?thesis using assms(1) d r None l1
      by (cases e) (auto simp: guarded_io_def pbind_apply EmitIO_recorder Let_def)
  qed
qed

lemma keeps_applyDeadline:
  assumes "\<And>t. keeps f (setDeadline t)"
  shows "keeps f (tcp_applyDeadline L setDeadline timeout op addr)"
    and "keeps f (udp_applyDeadline L setDeadline timeout op addr)"
  using assms by (auto simp: tcp_applyDeadline_def udp_applyDeadline_def intro!: keeps_pbind)

text \<open>
  C37: a transfer over a guarded connection, whether it succeeds, fails, or cannot even set its deadline,
  is one event: the one whose bytes and error are those the caller is given, and whose duration is the
  time the call took.
\<close>

theorem tcp_io_event:
  assumes "tconnHooks c = [Some io_recorder]"
    and "\<And>t. keeps io_log (SetReadDeadline (tconnConn c) t)" and "\<And>t. keeps io_log (SetWriteDeadline (tconnConn c) t)"
    and "\<And>n. keeps io_log (ConnRead (tconnConn c) n)" and "\<And>d. keeps io_log (ConnWrite (tconnConn c) d)"
  shows "(tcp_Read L c n w = Some (Ret (data, err), w') \<longrightarrow>
      io_log w' = io_log w @ [\<lparr>ioProtocol = ProtocolTCP, ioOp = ''read'', ioAddr = tconnAddr c,
        ioBytes = int (length data), ioDuration = now w' - now w, ioErr = err\<rparr>]) \<and>
    (tcp_Write L c out w = Some (Ret (k, err'), w'') \<longrightarrow>
      io_log w'' = io_log w @ [\<lparr>ioProtocol = ProtocolTCP, ioOp = ''write'', ioAddr = tconnAddr c,
        ioBytes = k, ioDuration = now w'' - now w, ioErr = err'\<rparr>])"
proof (intro conjI impI)
  assume "tcp_Read L c n w = Some (Ret (data, err), w')"
  from guarded_io_event [OF this [unfolded tcp_Read_def tcp_runIO_guarded assms(1) tcp_emitIO_def]
      keeps_applyDeadline(1) [OF assms(2)] assms(4)]
  show "io_log w' = io_log w @ [\<lparr>ioProtocol = ProtocolTCP, ioOp = ''read'', ioAddr = tconnAddr c,
        ioBytes = int (length data), ioDuration = now w' - now w, ioErr = err\<rparr>]" by simp
next
  assume "tcp_Write L c out w = Some (Ret (k, err'), w'')"
  from guarded_io_event [OF this [unfolded tcp_Write_def tcp_runIO_guarded assms(1) tcp_emitIO_def]
      keeps_applyDeadline(1) [OF assms(3)] assms(5)]
  show "io_log w'' = io_log w @ [\<lparr>ioProtocol = ProtocolTCP, ioOp = ''write'', ioAddr = tconnAddr c,
        ioBytes = k, ioDuration = now w'' - now w, ioErr = err'\<rparr>]" by simp
qed

definition idle_conn :: "'w conn" where
  "idle_conn = \<lparr>ConnRead = (\<lambda>n. pret ([], Some ErrEOF)), ConnWrite = (\<lambda>d. pret (0, Some NetClosed)),
     ConnClose = pret None, SetReadDeadline = (\<lambda>t. pret (Some OsClosed)), SetWriteDeadline = (\<lambda>t. pret None),
     SetDeadline = (\<lambda>t. pret None), LocalAddr = \<lparr>AddrNetwork = [], AddrString = []\<rparr>, RemoteAddr = \<lparr>AddrNetwork = [], AddrString = []\<rparr>\<rparr>"

definition io_start :: io_world where
  "io_start = \<lparr>now = 3, next_id = 0, cancelled_at = (\<lambda>_. None), choices = (\<lambda>_. False), sems = (\<lambda>_. 0), io_log = []\<rparr>"

theorem tcp_io_event_witness:
  "\<exists>err w'. tcp_Read plain_lib \<lparr>tconnConn = idle_conn, tconnReadTimeout = second, tconnWriteTimeout = 0,
      tconnAddr = ''h:1'', tconnHooks = [Some io_recorder]\<rparr> 8 io_start = Some (Ret ([], err), w') \<and>
    io_log w' = [\<lparr>ioProtocol = ProtocolTCP, ioOp = ''read'', ioAddr = ''h:1'', ioBytes = 0, ioDuration = 0, ioErr = err\<rparr>]"
proof -
  let ?c = "\<lparr>tconnConn = idle_conn, tconnReadTimeout = second, tconnWriteTimeout = 0, tconnAddr = ''h:1'',
      tconnHooks = [Some io_recorder]\<rparr> :: io_world tcp_timeoutConn"
  have run: "\<exists>err w'. tcp_Read plain_lib ?c 8 io_start = Some (Ret ([], err), w') \<and> now w' = now io_start"
    by (simp add: tcp_Read_def tcp_runIO_def tcp_applyDeadline_def tcp_emitIO_def EmitIO_recorder pbind_apply idle_conn_def Let_def)
  have h: "tconnHooks ?c = [Some io_recorder]" "\<And>t. keeps io_log (SetReadDeadline (tconnConn ?c) t)"
    "\<And>t. keeps io_log (SetWriteDeadline (tconnConn ?c) t)" "\<And>n. keeps io_log (ConnRead (tconnConn ?c) n)"
    "\<And>d. keeps io_log (ConnWrite (tconnConn ?c) d)" by (simp_all add: idle_conn_def)
  show ?thesis using run tcp_io_event [OF h, of plain_lib 8 io_start] by (fastforce simp: io_start_def)
qed

text \<open>
  Over a packet socket too; the event of a write names the address it went to, and that of the
  client only when there is none.
\<close>

theorem udp_io_event:
  assumes "upktHooks c = [Some io_recorder]"
    and "\<And>t. keeps io_log (PacketSetReadDeadline (upktConn c) t)"
    and "\<And>t. keeps io_log (PacketSetWriteDeadline (upktConn c) t)"
    and "\<And>n. keeps io_log (PacketReadFrom (upktConn c) n)" and "\<And>d a. keeps io_log (PacketWriteTo (upktConn c) d a)"
  shows "(udp_ReadFrom L c n w = Some (Ret ((data, from), err), w') \<longrightarrow>
      io_log w' = io_log w @ [\<lparr>ioProtocol = ProtocolUDP, ioOp = ''read_from'', ioAddr = upktAddr c,
        ioBytes = int (length data), ioDuration = now w' - now w, ioErr = err\<rparr>]) \<and>
    (udp_WriteTo L c out to w = Some (Ret (k, err'), w'') \<longrightarrow>
      io_log w'' = io_log w @ [\<lparr>ioProtocol = ProtocolUDP, ioOp = ''write_to'',
        ioAddr = (case to of None \<Rightarrow> upktAddr c | Some a \<Rightarrow> AddrString a),
        ioBytes = k, ioDuration = now w'' - now w, ioErr = err'\<rparr>])"
proof (intro conjI impI)
  assume "udp_ReadFrom L c n w = Some (Ret ((data, from), err), w')"
  from guarded_io_event [OF this [unfolded udp_ReadFrom_guarded assms(1) udp_emitIO_def]
      keeps_applyDeadline(2) [OF assms(2)] assms(4)]
  show "io_log w' = io_log w @ [\<lparr>ioProtocol = ProtocolUDP, ioOp = ''read_from'', ioAddr = upktAddr c,
        ioBytes = int (length data), ioDuration = now w' - now w, ioErr = err\<rparr>]" by simp
next
  assume "udp_WriteTo L c out to w = Some (Ret (k, err'), w'')"
  from guarded_io_event [OF this [unfolded udp_WriteTo_guarded Let_def assms(1) udp_emitIO_def]
      keeps_applyDeadline(2) [OF assms(3)] assms(5)]
  show "io_log w'' = io_log w @ [\<lparr>ioProtocol = ProtocolUDP, ioOp = ''write_to'',
        ioAddr = (case to of None \<Rightarrow> upktAddr c | Some a \<Rightarrow> AddrString a),
        ioBytes = k, ioDuration = now w'' - now w, ioErr = err'\<rparr>]" by (simp add: udp_targetAddr_def)
qed

definition idle_packet_conn :: "'w packet_conn" where
  "idle_packet_conn = \<lparr>PacketReadFrom = (\<lambda>n. pret (([], None), Some OsDeadline)),
     PacketWriteTo = (\<lambda>d a. pret (int (length d), None)), PacketClose = pret None,
     PacketSetReadDeadline = (\<lambda>t. pret None), PacketSetWriteDeadline = (\<lambda>t. pret None),
     PacketSetDeadline = (\<lambda>t. pret None), PacketLocalAddr = \<lparr>AddrNetwork = ''udp'', AddrString = []\<rparr>\<rparr>"

theorem udp_io_event_witness:
  "\<exists>w'. udp_WriteTo plain_lib \<lparr>upktConn = idle_packet_conn, upktReadTimeout = 0, upktWriteTimeout = second,
      upktAddr = '':9'', upktHooks = [Some io_recorder]\<rparr> [1, 2] (Some sample_peer) io_start = Some (Ret (2, None), w') \<and>
    io_log w' = [\<lparr>ioProtocol = ProtocolUDP, ioOp = ''write_to'', ioAddr = ''p:5'', ioBytes = 2, ioDuration = 0, ioErr = None\<rparr>]"
proof -
  let ?c = "\<lparr>upktConn = idle_packet_conn, upktReadTimeout = 0, upktWriteTimeout = second, upktAddr = '':9'',
      upktHooks = [Some io_recorder]\<rparr> :: io_world udp_timeoutPacketConn"
  have run: "\<exists>w'. udp_WriteTo plain_lib ?c [1, 2] (Some sample_peer) io_start = Some (Ret (2, None), w') \<and> now w' = now io_start"
    by (simp add: udp_WriteTo_def udp_applyDeadline_def udp_emitIO_def EmitIO_recorder pbind_apply idle_packet_conn_def Let_def)
  have h: "upktHooks ?c = [Some io_recorder]" "\<And>t. keeps io_log (PacketSetReadDeadline (upktConn ?c) t)"
    "\<And>t. keeps io_log (PacketSetWriteDeadline (upktConn ?c) t)" "\<And>n. keeps io_log (PacketReadFrom (upktConn ?c) n)"
    "\<And>d a. keeps io_log (PacketWriteTo (upktConn ?c) d a)" by (simp_all add: idle_packet_conn_def)
  show ?thesis using run udp_io_event [OF h, of plain_lib 8 io_start] by (fastforce simp: io_start_def sample_peer_def)
qed

end
