(* ===== verification/Http.thy ===== *)
theory Http
  imports Hook Client_Call Retry_Policy Timeout_Policy Bulkhead_Policy Net_Conn
begin

text \<open>
  Package \<^verbatim>\<open>http\<close>: configuration, options and the client.

  What is outside \<open>src/\<close> is the record \<open>resty\<close>: the methods of \<^verbatim>\<open>resty.dev/v3\<close> the package calls.
  A client of that library is a value that the builder methods change while \<open>New\<close> runs; a request is a
  handle whose state is in the world. \<open>parse_uri\<close> is the error of \<open>url.ParseRequestURI\<close>. A header
  map is the list of its entries in the order \<open>Range\<close> visits them.
\<close>

section \<open>Configuration\<close>

record RetryConfig =
  RetryEnabled :: bool
  MaxRetries :: int
  WaitMin :: duration
  WaitMax :: duration

record http_Config =
  httpBaseURL :: string
  httpTimeout :: duration
  httpHeaders :: "(string \<times> string) list option"
  httpUserAgent :: string
  httpRetry :: RetryConfig
  httpTLS :: TLSConfig

definition http_zero_Config :: http_Config where
  "http_zero_Config = \<lparr>httpBaseURL = [], httpTimeout = 0, httpHeaders = None, httpUserAgent = [],
     httpRetry = \<lparr>RetryEnabled = False, MaxRetries = 0, WaitMin = 0, WaitMax = 0\<rparr>,
     httpTLS = \<lparr>TLSEnabled = False, InsecureSkipVerify = False, ServerName = []\<rparr>\<rparr>"

definition http_defaultTimeout :: duration where
  "http_defaultTimeout = 30 * second"

definition http_ErrInvalidConfig :: go_error where
  "http_ErrInvalidConfig = ErrNew ''http.ErrInvalidConfig'' ''invalid http client config''"

definition http_invalid ::
  "lib \<Rightarrow> attrs \<Rightarrow> go_error option \<Rightarrow> string \<Rightarrow> http_Config \<times> go_error option" where
  "http_invalid L as err msg = (http_zero_Config, oops_wrapf L ''clientx/http''
     ((''op'', AStr ''normalize_validate'') # as) err msg)"

definition http_NormalizeAndValidate ::
  "lib \<Rightarrow> (string \<Rightarrow> go_error option) \<Rightarrow> http_Config \<Rightarrow> http_Config \<times> go_error option" where
  "http_NormalizeAndValidate L parse_uri cfg =
     (let out = cfg\<lparr>httpBaseURL := trim_space (httpBaseURL cfg), httpUserAgent := trim_space (httpUserAgent cfg)\<rparr>
      in if httpBaseURL out \<noteq> [] \<and> parse_uri (httpBaseURL out) \<noteq> None
         then http_invalid L [(''field'', AStr ''base_url''), (''base_url'', AStr (httpBaseURL out))]
                (errors_join [Some http_ErrInvalidConfig, parse_uri (httpBaseURL out)]) ''validate http client config''
         else
           (let out = (if httpTimeout out = 0 then out\<lparr>httpTimeout := http_defaultTimeout\<rparr> else out);
                retry = httpRetry out;
                waits = [(''wait_min'', ADur (WaitMin retry)), (''wait_max'', ADur (WaitMax retry))]
            in if httpTimeout out < 0
               then http_invalid L [(''field'', AStr ''timeout''), (''timeout'', ADur (httpTimeout out))]
                      (Some http_ErrInvalidConfig) ''timeout must be >= 0''
               else if MaxRetries retry < 0
               then http_invalid L [(''field'', AStr ''retry.max_retries''), (''max_retries'', AInt (MaxRetries retry))]
                      (Some http_ErrInvalidConfig) ''retry.max_retries must be >= 0''
               else if WaitMin retry < 0 \<or> WaitMax retry < 0
               then http_invalid L ((''field'', AStr ''retry.wait'') # waits)
                      (Some http_ErrInvalidConfig) ''retry wait durations must be >= 0''
               else if 0 < WaitMax retry \<and> WaitMax retry < WaitMin retry
               then http_invalid L ((''field'', AStr ''retry.wait'') # waits)
                      (Some http_ErrInvalidConfig) ''retry.wait_min must be <= retry.wait_max''
               else (out, None)))"

section \<open>The client\<close>

record ('c, 'q, 'p, 'w) resty =
  resty_new :: 'c
  SetBaseURL :: "string \<Rightarrow> 'c \<Rightarrow> 'c"
  SetTimeout :: "duration \<Rightarrow> 'c \<Rightarrow> 'c"
  SetTransport :: "(bool \<times> string) option \<Rightarrow> 'c \<Rightarrow> 'c"
  SetHeader :: "string \<Rightarrow> string \<Rightarrow> 'c \<Rightarrow> 'c"
  AddRequestMiddleware :: "('c \<Rightarrow> 'q \<Rightarrow> (go_error option, 'w) prog) \<Rightarrow> 'c \<Rightarrow> 'c"
  AddResponseMiddleware :: "('c \<Rightarrow> 'p \<Rightarrow> (go_error option, 'w) prog) \<Rightarrow> 'c \<Rightarrow> 'c"
  resty_R :: "'c \<Rightarrow> ('q, 'w) prog"
  SetContext :: "ctx option \<Rightarrow> 'q \<Rightarrow> (unit, 'w) prog"
  resty_Execute :: "'q \<Rightarrow> string \<Rightarrow> string \<Rightarrow> ('p \<times> go_error option, 'w) prog"
  response_Size :: "'p \<Rightarrow> int"
  CloseIdleConnections :: "'c \<Rightarrow> (unit, 'w) prog option"

text \<open>\<open>httpRaw\<close> is nil only in a client that \<open>New\<close> has not made.\<close>

record ('c, 'w) http_DefaultClient =
  httpRaw :: "'c option"
  httpBase :: string
  httpHooks :: "'w hook option list"
  httpPolicies :: "'w policy option list"

definition http_appendHooks :: "'w hook option list \<Rightarrow> ('c, 'w) http_DefaultClient \<Rightarrow> ('c, 'w) http_DefaultClient" where
  "http_appendHooks hooks c = c\<lparr>httpHooks := AppendHooks (httpHooks c) hooks\<rparr>"

definition http_appendPolicies ::
  "'w policy option list \<Rightarrow> ('c, 'w) http_DefaultClient \<Rightarrow> ('c, 'w) http_DefaultClient" where
  "http_appendPolicies policies c = c\<lparr>httpPolicies := AppendPolicies (httpPolicies c) policies\<rparr>"

definition http_WithRequestMiddleware ::
  "('c, 'q, 'p, 'w) resty \<Rightarrow> ('c \<Rightarrow> 'q \<Rightarrow> (go_error option, 'w) prog) \<Rightarrow>
   ('c, 'w) http_DefaultClient \<Rightarrow> ('c, 'w) http_DefaultClient" where
  "http_WithRequestMiddleware Y fn c = c\<lparr>httpRaw := map_option (AddRequestMiddleware Y fn) (httpRaw c)\<rparr>"

definition http_WithResponseMiddleware ::
  "('c, 'q, 'p, 'w) resty \<Rightarrow> ('c \<Rightarrow> 'p \<Rightarrow> (go_error option, 'w) prog) \<Rightarrow>
   ('c, 'w) http_DefaultClient \<Rightarrow> ('c, 'w) http_DefaultClient" where
  "http_WithResponseMiddleware Y fn c = c\<lparr>httpRaw := map_option (AddResponseMiddleware Y fn) (httpRaw c)\<rparr>"

definition http_WithHeader ::
  "('c, 'q, 'p, 'w) resty \<Rightarrow> string \<Rightarrow> string \<Rightarrow> ('c, 'w) http_DefaultClient \<Rightarrow> ('c, 'w) http_DefaultClient" where
  "http_WithHeader Y key value c = c\<lparr>httpRaw := map_option (SetHeader Y key value) (httpRaw c)\<rparr>"

definition http_WithHooks :: "'w hook option list \<Rightarrow> ('c, 'w) http_DefaultClient \<Rightarrow> ('c, 'w) http_DefaultClient" where
  "http_WithHooks hooks = http_appendHooks hooks"

definition http_WithPolicies ::
  "'w policy option list \<Rightarrow> ('c, 'w) http_DefaultClient \<Rightarrow> ('c, 'w) http_DefaultClient" where
  "http_WithPolicies policies = http_appendPolicies policies"

definition http_WithConcurrencyLimit ::
  "lib \<Rightarrow> nat \<Rightarrow> int \<Rightarrow> ('c, 'u world_scheme) http_DefaultClient \<Rightarrow> ('c, 'u world_scheme) http_DefaultClient" where
  "http_WithConcurrencyLimit L s maxInFlight =
     http_appendPolicies [Some (NewConcurrencyLimitPolicy L s maxInFlight)]"

definition http_WithTimeoutGuard ::
  "duration \<Rightarrow> ('c, 'u world_scheme) http_DefaultClient \<Rightarrow> ('c, 'u world_scheme) http_DefaultClient" where
  "http_WithTimeoutGuard timeout = http_appendPolicies [Some (NewTimeoutPolicy timeout)]"

definition http_transport :: "TLSConfig \<Rightarrow> (bool \<times> string) option" where
  "http_transport tls =
     (if TLSEnabled tls \<or> InsecureSkipVerify tls \<or> ServerName tls \<noteq> []
      then Some (InsecureSkipVerify tls, ServerName tls) else None)"

definition http_resty :: "('c, 'q, 'p, 'w) resty \<Rightarrow> http_Config \<Rightarrow> 'c" where
  "http_resty Y normalized =
     (let c = SetTransport Y (http_transport (httpTLS normalized))
                (SetTimeout Y (httpTimeout normalized) (SetBaseURL Y (httpBaseURL normalized) (resty_new Y)));
          c = (if httpUserAgent normalized \<noteq> [] then SetHeader Y ''User-Agent'' (httpUserAgent normalized) c else c)
      in case httpHeaders normalized of
           None \<Rightarrow> c
         | Some headers \<Rightarrow> fold (\<lambda>(key, value) c. SetHeader Y key value c) headers c)"

text \<open>The fields the code leaves out are zero: no multiplier, no jitter, no predicate of its own.\<close>

definition http_retry_config :: "('f, 'w) float64 \<Rightarrow> RetryConfig \<Rightarrow> ('f, 'w) RetryPolicyConfig" where
  "http_retry_config F retry =
     \<lparr>MaxAttempts = max 1 (wrap_int (MaxRetries retry + 1)), BaseDelay = WaitMin retry, MaxDelay = WaitMax retry,
      Multiplier = f_int F 0, JitterRatio = f_int F 0, Retryable = None\<rparr>"

definition http_New ::
  "lib \<Rightarrow> ('f, 'u world_scheme) float64 \<Rightarrow> ('c, 'q, 'p, 'u world_scheme) resty \<Rightarrow> (string \<Rightarrow> go_error option) \<Rightarrow>
   (('c, 'u world_scheme) http_DefaultClient \<Rightarrow> ('c, 'u world_scheme) http_DefaultClient options \<Rightarrow>
    ('c, 'u world_scheme) http_DefaultClient) \<Rightarrow>
   http_Config \<Rightarrow> ('c, 'u world_scheme) http_DefaultClient options \<Rightarrow>
   ('c, 'u world_scheme) http_DefaultClient option \<times> go_error option" where
  "http_New L F Y parse_uri ap cfg opts =
     (case http_NormalizeAndValidate L parse_uri cfg of (normalized, err) \<Rightarrow>
        if err \<noteq> None then (None, err)
        else
          (let client = \<lparr>httpRaw = Some (http_resty Y normalized), httpBase = httpBaseURL normalized,
                         httpHooks = [], httpPolicies = []\<rparr>;
               client = (if RetryEnabled (httpRetry normalized)
                         then http_appendPolicies
                                [Some (NewRetryPolicy F (http_retry_config F (httpRetry normalized)))] client
                         else client)
           in (Some (Apply ap client opts), None)))"

definition http_Close ::
  "('c, 'q, 'p, 'w) resty \<Rightarrow> ('c, 'w) http_DefaultClient option \<Rightarrow> (go_error option, 'w) prog" where
  "http_Close Y c =
     (case c of
        None \<Rightarrow> pret None
      | Some cl \<Rightarrow>
          (case httpRaw cl of
             None \<Rightarrow> pret None
           | Some raw \<Rightarrow>
               (case CloseIdleConnections Y raw of
                  None \<Rightarrow> pret None
                | Some close \<Rightarrow> pbind close (\<lambda>_. pret None))))"

definition http_Raw :: "('c, 'w) http_DefaultClient \<Rightarrow> 'c option" where
  "http_Raw c = httpRaw c"

definition http_R :: "('c, 'q, 'p, 'w) resty \<Rightarrow> ('c, 'w) http_DefaultClient \<Rightarrow> ('q, 'w) prog" where
  "http_R Y c = (case httpRaw c of None \<Rightarrow> ppanic | Some raw \<Rightarrow> resty_R Y raw)"

section \<open>Requests\<close>

definition http_resolveAddr :: "string \<Rightarrow> string \<Rightarrow> string" where
  "http_resolveAddr baseURL endpoint =
     (let addr = trim_space endpoint in
      if addr = [] then baseURL
      else if has_prefix addr ''http://'' \<or> has_prefix addr ''https://'' \<or> baseURL = [] then addr
      else
        (let base = trim_right (\<lambda>c. c = CHR ''/'') baseURL in
         if has_prefix addr ''/'' then base @ addr
         else base @ ''/'' @ addr))"

definition http_wrapClientError :: "lib \<Rightarrow> string \<Rightarrow> string \<Rightarrow> go_error option \<Rightarrow> go_error option" where
  "http_wrapClientError L op addr err =
     oops_wrapf L ''clientx/http''
       [(''op'', AStr op), (''addr'', AStr addr), (''protocol'', AStr ProtocolHTTP)]
       (WrapError L ProtocolHTTP op addr err) (''http '' @ op @ '' '' @ addr)"

definition http_invokeWithPolicies ::
  "lib \<Rightarrow> ctx option \<Rightarrow> operation \<Rightarrow>
   (ctx option \<Rightarrow> ('p option \<times> go_error option, 'u world_scheme) prog) \<Rightarrow>
   'u world_scheme policy option list \<Rightarrow> ('p option \<times> go_error option, 'u world_scheme) prog" where
  "http_invokeWithPolicies L ctx operation fn policies =
     pbind (InvokeWithPolicies L None ctx operation (Some fn) policies) (\<lambda>(resp, err).
       if err \<noteq> None
       then pret (None, oops_wrapf L ''clientx/http''
              [(''op'', AStr (Op operation)), (''addr'', AStr (Addr operation)),
               (''network'', AStr (Network operation)), (''protocol'', AStr (Protocol operation)),
               (''operation_kind'', AStr (Kind operation))]
              err ''execute http operation'')
       else pret (resp, None))"

definition http_event :: "string \<Rightarrow> string \<Rightarrow> int \<Rightarrow> duration \<Rightarrow> go_error option \<Rightarrow> IOEvent" where
  "http_event op addr bytes d err =
     \<lparr>ioProtocol = ProtocolHTTP, ioOp = op, ioAddr = addr, ioBytes = bytes, ioDuration = d, ioErr = err\<rparr>"

definition http_op :: "string \<Rightarrow> string" where
  "http_op method = (let op = to_lower (trim_space method) in if op = [] then ''request'' else op)"

definition http_operation :: "string \<Rightarrow> string \<Rightarrow> operation" where
  "http_operation op addr = \<lparr>Protocol = ProtocolHTTP, Kind = OperationKindRequest, Op = op,
     Network = ''http'', Addr = addr\<rparr>"

definition http_executeOnce ::
  "lib \<Rightarrow> ('c, 'q, 'p, 'u world_scheme) resty \<Rightarrow> ('c, 'u world_scheme) http_DefaultClient \<Rightarrow> 'q option \<Rightarrow>
   string \<Rightarrow> string \<Rightarrow> string \<Rightarrow> string \<Rightarrow> ctx option \<Rightarrow> ('p option \<times> go_error option, 'u world_scheme) prog" where
  "http_executeOnce L Y c req method endpoint op addr execCtx =
     pbind (case req of Some q \<Rightarrow> pret q | None \<Rightarrow> http_R Y c) (\<lambda>workingReq.
     pbind (SetContext Y execCtx workingReq) (\<lambda>_.
     pbind (pget now) (\<lambda>start.
     pbind (resty_Execute Y workingReq method endpoint) (\<lambda>(resp, err).
     pbind (pget now) (\<lambda>t.
       if err \<noteq> None
       then (let wrappedErr = http_wrapClientError L op addr err in
             pbind (EmitIO (httpHooks c) (http_event op addr 0 (t - start) wrappedErr)) (\<lambda>_. pret (None, wrappedErr)))
       else pbind (EmitIO (httpHooks c) (http_event op addr (max 0 (response_Size Y resp)) (t - start) None))
              (\<lambda>_. pret (Some resp, None)))))))"

definition http_Execute ::
  "lib \<Rightarrow> ('c, 'q, 'p, 'u world_scheme) resty \<Rightarrow> ('c, 'u world_scheme) http_DefaultClient \<Rightarrow> ctx option \<Rightarrow>
   'q option \<Rightarrow> string \<Rightarrow> string \<Rightarrow> ('p option \<times> go_error option, 'u world_scheme) prog" where
  "http_Execute L Y c ctx req method endpoint =
     (let op = http_op method; addr = http_resolveAddr (httpBase c) endpoint in
      pbind (http_invokeWithPolicies L ctx (http_operation op addr)
              (http_executeOnce L Y c req method endpoint op addr) (httpPolicies c))
        (\<lambda>(resp, err). if err \<noteq> None then pret (None, err) else pret (resp, None)))"

end
