(* ===== verification/Preset.thy ===== *)
theory Preset
  imports Http Tcp Udp
begin

text \<open>
  Package \<^verbatim>\<open>preset\<close>: the three clients that come tuned. Each file has the same parts: the preset and
  its options, its defaults, the tuning of the caller's configuration, the client options in their
  order, and the constructor.

  \<open>ap\<close> applies the preset's own options and \<open>ap'\<close> the client's; \<open>s\<close> is the identity of the channel
  the concurrency limit makes.
\<close>

section \<open>What the presets share\<close>

definition isZeroRetryConfig :: "RetryConfig \<Rightarrow> bool" where
  "isZeroRetryConfig cfg \<longleftrightarrow> \<not> RetryEnabled cfg \<and> MaxRetries cfg = 0 \<and> WaitMin cfg = 0 \<and> WaitMax cfg = 0"

definition hasRetryHint :: "RetryConfig \<Rightarrow> bool" where
  "hasRetryHint cfg \<longleftrightarrow> 0 < MaxRetries cfg \<or> 0 < WaitMin cfg \<or> 0 < WaitMax cfg"

definition appendPresetOption :: "'c options \<Rightarrow> ('c \<Rightarrow> 'c) option \<Rightarrow> 'c options" where
  "appendPresetOption options opt = (case opt of None \<Rightarrow> options | Some _ \<Rightarrow> options @ [opt])"

section \<open>HTTP at the edge\<close>

record ('c, 'w) edgeHTTPPreset =
  edgeTimeout :: duration
  edgeTimeoutGuard :: duration
  edgeConcurrencyLimit :: int
  edgeRetry :: RetryConfig
  edgeUserAgent :: string
  edgeDisableRetry :: bool
  edgeOptions :: "('c, 'w) http_DefaultClient options"

definition WithEdgeHTTPTimeout :: "duration \<Rightarrow> ('c, 'w) edgeHTTPPreset \<Rightarrow> ('c, 'w) edgeHTTPPreset" where
  "WithEdgeHTTPTimeout timeout p = p\<lparr>edgeTimeout := timeout\<rparr>"

definition WithEdgeHTTPTimeoutGuard :: "duration \<Rightarrow> ('c, 'w) edgeHTTPPreset \<Rightarrow> ('c, 'w) edgeHTTPPreset" where
  "WithEdgeHTTPTimeoutGuard timeout p = p\<lparr>edgeTimeoutGuard := timeout\<rparr>"

definition WithEdgeHTTPConcurrencyLimit :: "int \<Rightarrow> ('c, 'w) edgeHTTPPreset \<Rightarrow> ('c, 'w) edgeHTTPPreset" where
  "WithEdgeHTTPConcurrencyLimit maxInFlight p = p\<lparr>edgeConcurrencyLimit := maxInFlight\<rparr>"

definition WithEdgeHTTPRetry :: "RetryConfig \<Rightarrow> ('c, 'w) edgeHTTPPreset \<Rightarrow> ('c, 'w) edgeHTTPPreset" where
  "WithEdgeHTTPRetry cfg p = p\<lparr>edgeRetry := cfg, edgeDisableRetry := False\<rparr>"

definition WithEdgeHTTPDisableRetry :: "('c, 'w) edgeHTTPPreset \<Rightarrow> ('c, 'w) edgeHTTPPreset" where
  "WithEdgeHTTPDisableRetry p = p\<lparr>edgeDisableRetry := True\<rparr>"

definition WithEdgeHTTPUserAgent :: "string \<Rightarrow> ('c, 'w) edgeHTTPPreset \<Rightarrow> ('c, 'w) edgeHTTPPreset" where
  "WithEdgeHTTPUserAgent userAgent p = p\<lparr>edgeUserAgent := trim_space userAgent\<rparr>"

definition WithEdgeHTTPOption ::
  "(('c, 'w) http_DefaultClient \<Rightarrow> ('c, 'w) http_DefaultClient) option \<Rightarrow>
   ('c, 'w) edgeHTTPPreset \<Rightarrow> ('c, 'w) edgeHTTPPreset" where
  "WithEdgeHTTPOption opt p = p\<lparr>edgeOptions := appendPresetOption (edgeOptions p) opt\<rparr>"

definition defaultEdgeHTTPPreset :: "('c, 'w) edgeHTTPPreset" where
  "defaultEdgeHTTPPreset = \<lparr>edgeTimeout = 5 * second, edgeTimeoutGuard = 4 * second, edgeConcurrencyLimit = 256,
     edgeRetry = \<lparr>RetryEnabled = True, MaxRetries = 2, WaitMin = 50 * millisecond, WaitMax = 250 * millisecond\<rparr>,
     edgeUserAgent = ''arcgolabs-clientx/edge-http'', edgeDisableRetry = False, edgeOptions = []\<rparr>"

definition tuneEdgeHTTPConfig :: "http_Config \<Rightarrow> ('c, 'w) edgeHTTPPreset \<Rightarrow> http_Config" where
  "tuneEdgeHTTPConfig cfg preset =
     (let tuned = cfg;
          tuned = (if httpTimeout tuned = 0 then tuned\<lparr>httpTimeout := edgeTimeout preset\<rparr> else tuned);
          tuned = (if trim_space (httpUserAgent tuned) = [] \<and> edgeUserAgent preset \<noteq> []
                   then tuned\<lparr>httpUserAgent := edgeUserAgent preset\<rparr> else tuned)
      in if \<not> edgeDisableRetry preset
         then (let tuned = (if isZeroRetryConfig (httpRetry tuned) then tuned\<lparr>httpRetry := edgeRetry preset\<rparr> else tuned)
               in if \<not> RetryEnabled (httpRetry tuned) \<and> hasRetryHint (httpRetry tuned)
                  then tuned\<lparr>httpRetry := (httpRetry tuned)\<lparr>RetryEnabled := True\<rparr>\<rparr> else tuned)
         else tuned)"

definition buildEdgeHTTPOptions ::
  "lib \<Rightarrow> nat \<Rightarrow> ('c, 'u world_scheme) edgeHTTPPreset \<Rightarrow> ('c, 'u world_scheme) http_DefaultClient options" where
  "buildEdgeHTTPOptions L s preset =
     (if 0 < edgeTimeoutGuard preset then [Some (http_WithTimeoutGuard (edgeTimeoutGuard preset))] else []) @
     (if 0 < edgeConcurrencyLimit preset
      then [Some (http_WithConcurrencyLimit L s (edgeConcurrencyLimit preset))] else []) @
     edgeOptions preset"

definition NewEdgeHTTP ::
  "lib \<Rightarrow> ('f, 'u world_scheme) float64 \<Rightarrow> ('c, 'q, 'p, 'u world_scheme) resty \<Rightarrow> (string \<Rightarrow> go_error option) \<Rightarrow>
   (('c, 'u world_scheme) edgeHTTPPreset \<Rightarrow> ('c, 'u world_scheme) edgeHTTPPreset options \<Rightarrow>
    ('c, 'u world_scheme) edgeHTTPPreset) \<Rightarrow>
   (('c, 'u world_scheme) http_DefaultClient \<Rightarrow> ('c, 'u world_scheme) http_DefaultClient options \<Rightarrow>
    ('c, 'u world_scheme) http_DefaultClient) \<Rightarrow>
   nat \<Rightarrow> http_Config \<Rightarrow> ('c, 'u world_scheme) edgeHTTPPreset options \<Rightarrow>
   ('c, 'u world_scheme) http_DefaultClient option \<times> go_error option" where
  "NewEdgeHTTP L F Y parse_uri ap ap' s cfg opts =
     (let preset = Apply ap defaultEdgeHTTPPreset opts;
          tuned = tuneEdgeHTTPConfig cfg preset;
          clientOpts = buildEdgeHTTPOptions L s preset
      in case http_New L F Y parse_uri ap' tuned clientOpts of (client, err) \<Rightarrow>
           if err \<noteq> None
           then (None, oops_wrapf L ''clientx/preset''
                  [(''op'', AStr ''new_edge_http''), (''protocol'', AStr ''http''),
                   (''base_url'', AStr (httpBaseURL tuned)), (''timeout'', ADur (httpTimeout tuned)),
                   (''user_agent'', AStr (httpUserAgent tuned)), (''option_count'', AInt (int (length clientOpts)))]
                  err ''build edge http client'')
           else (client, None))"

section \<open>Internal RPC over TCP\<close>

record ('f, 'w) internalRPCPreset =
  rpcDialTimeout :: duration
  rpcReadTimeout :: duration
  rpcWriteTimeout :: duration
  rpcKeepAlive :: duration
  rpcTimeoutGuard :: duration
  rpcConcurrencyLimit :: int
  rpcRetryPolicy :: "('f, 'w) RetryPolicyConfig"
  rpcDisableRetry :: bool
  rpcOptions :: "'w tcp_DefaultClient options"

definition WithInternalRPCDialTimeout :: "duration \<Rightarrow> ('f, 'w) internalRPCPreset \<Rightarrow> ('f, 'w) internalRPCPreset" where
  "WithInternalRPCDialTimeout timeout p = p\<lparr>rpcDialTimeout := timeout\<rparr>"

definition WithInternalRPCReadTimeout :: "duration \<Rightarrow> ('f, 'w) internalRPCPreset \<Rightarrow> ('f, 'w) internalRPCPreset" where
  "WithInternalRPCReadTimeout timeout p = p\<lparr>rpcReadTimeout := timeout\<rparr>"

definition WithInternalRPCWriteTimeout :: "duration \<Rightarrow> ('f, 'w) internalRPCPreset \<Rightarrow> ('f, 'w) internalRPCPreset" where
  "WithInternalRPCWriteTimeout timeout p = p\<lparr>rpcWriteTimeout := timeout\<rparr>"

definition WithInternalRPCKeepAlive :: "duration \<Rightarrow> ('f, 'w) internalRPCPreset \<Rightarrow> ('f, 'w) internalRPCPreset" where
  "WithInternalRPCKeepAlive keepAlive p = p\<lparr>rpcKeepAlive := keepAlive\<rparr>"

definition WithInternalRPCTimeoutGuard :: "duration \<Rightarrow> ('f, 'w) internalRPCPreset \<Rightarrow> ('f, 'w) internalRPCPreset" where
  "WithInternalRPCTimeoutGuard timeout p = p\<lparr>rpcTimeoutGuard := timeout\<rparr>"

definition WithInternalRPCConcurrencyLimit :: "int \<Rightarrow> ('f, 'w) internalRPCPreset \<Rightarrow> ('f, 'w) internalRPCPreset" where
  "WithInternalRPCConcurrencyLimit maxInFlight p = p\<lparr>rpcConcurrencyLimit := maxInFlight\<rparr>"

definition WithInternalRPCRetryPolicy ::
  "('f, 'w) RetryPolicyConfig \<Rightarrow> ('f, 'w) internalRPCPreset \<Rightarrow> ('f, 'w) internalRPCPreset" where
  "WithInternalRPCRetryPolicy cfg p = p\<lparr>rpcRetryPolicy := cfg, rpcDisableRetry := False\<rparr>"

definition WithInternalRPCDisableRetry :: "('f, 'w) internalRPCPreset \<Rightarrow> ('f, 'w) internalRPCPreset" where
  "WithInternalRPCDisableRetry p = p\<lparr>rpcDisableRetry := True\<rparr>"

definition WithInternalRPCOption ::
  "('w tcp_DefaultClient \<Rightarrow> 'w tcp_DefaultClient) option \<Rightarrow> ('f, 'w) internalRPCPreset \<Rightarrow> ('f, 'w) internalRPCPreset" where
  "WithInternalRPCOption opt p = p\<lparr>rpcOptions := appendPresetOption (rpcOptions p) opt\<rparr>"

definition defaultInternalRPCPreset :: "('f, 'w) float64 \<Rightarrow> ('f, 'w) internalRPCPreset" where
  "defaultInternalRPCPreset F = \<lparr>rpcDialTimeout = 1500 * millisecond, rpcReadTimeout = 2 * second,
     rpcWriteTimeout = 2 * second, rpcKeepAlive = 30 * second, rpcTimeoutGuard = 2 * second,
     rpcConcurrencyLimit = 512,
     rpcRetryPolicy = \<lparr>MaxAttempts = 3, BaseDelay = 20 * millisecond, MaxDelay = 120 * millisecond,
       Multiplier = f_int F 2, JitterRatio = f_ratio F 1 5, Retryable = None\<rparr>,
     rpcDisableRetry = False, rpcOptions = []\<rparr>"

definition tuneInternalRPCConfig :: "tcp_Config \<Rightarrow> ('f, 'w) internalRPCPreset \<Rightarrow> tcp_Config" where
  "tuneInternalRPCConfig cfg preset =
     (let tuned = cfg;
          tuned = (if tcpDialTimeout tuned = 0 then tuned\<lparr>tcpDialTimeout := rpcDialTimeout preset\<rparr> else tuned);
          tuned = (if tcpReadTimeout tuned = 0 then tuned\<lparr>tcpReadTimeout := rpcReadTimeout preset\<rparr> else tuned);
          tuned = (if tcpWriteTimeout tuned = 0 then tuned\<lparr>tcpWriteTimeout := rpcWriteTimeout preset\<rparr> else tuned);
          tuned = (if tcpKeepAlive tuned = 0 then tuned\<lparr>tcpKeepAlive := rpcKeepAlive preset\<rparr> else tuned)
      in tuned)"

definition buildInternalRPCOptions ::
  "lib \<Rightarrow> ('f, 'u world_scheme) float64 \<Rightarrow> nat \<Rightarrow> ('f, 'u world_scheme) internalRPCPreset \<Rightarrow>
   'u world_scheme tcp_DefaultClient options" where
  "buildInternalRPCOptions L F s preset =
     (if 0 < rpcTimeoutGuard preset then [Some (tcp_WithTimeoutGuard (rpcTimeoutGuard preset))] else []) @
     (if 0 < rpcConcurrencyLimit preset
      then [Some (tcp_WithConcurrencyLimit L s (rpcConcurrencyLimit preset))] else []) @
     (if \<not> rpcDisableRetry preset
      then [Some (tcp_WithPolicies [Some (NewRetryPolicy F (rpcRetryPolicy preset))])] else []) @
     rpcOptions preset"

definition NewInternalRPC ::
  "lib \<Rightarrow> ('f, 'u world_scheme) float64 \<Rightarrow>
   (('f, 'u world_scheme) internalRPCPreset \<Rightarrow> ('f, 'u world_scheme) internalRPCPreset options \<Rightarrow>
    ('f, 'u world_scheme) internalRPCPreset) \<Rightarrow>
   ('u world_scheme tcp_DefaultClient \<Rightarrow> 'u world_scheme tcp_DefaultClient options \<Rightarrow>
    'u world_scheme tcp_DefaultClient) \<Rightarrow>
   nat \<Rightarrow> tcp_Config \<Rightarrow> ('f, 'u world_scheme) internalRPCPreset options \<Rightarrow>
   'u world_scheme tcp_DefaultClient option \<times> go_error option" where
  "NewInternalRPC L F ap ap' s cfg opts =
     (let preset = Apply ap (defaultInternalRPCPreset F) opts;
          tuned = tuneInternalRPCConfig cfg preset;
          clientOpts = buildInternalRPCOptions L F s preset
      in case tcp_New L ap' tuned clientOpts of (client, err) \<Rightarrow>
           if err \<noteq> None
           then (None, oops_wrapf L ''clientx/preset''
                  [(''op'', AStr ''new_internal_rpc''), (''protocol'', AStr ''tcp''),
                   (''network'', AStr (tcpNetwork tuned)), (''addr'', AStr (tcpAddress tuned)),
                   (''dial_timeout'', ADur (tcpDialTimeout tuned)), (''read_timeout'', ADur (tcpReadTimeout tuned)),
                   (''write_timeout'', ADur (tcpWriteTimeout tuned)), (''option_count'', AInt (int (length clientOpts)))]
                  err ''build internal rpc client'')
           else (client, None))"

section \<open>Low-latency UDP\<close>

record 'w lowLatencyUDPPreset =
  lowDialTimeout :: duration
  lowReadTimeout :: duration
  lowWriteTimeout :: duration
  lowTimeoutGuard :: duration
  lowConcurrencyLimit :: int
  lowOptions :: "'w udp_DefaultClient options"

definition WithLowLatencyUDPDialTimeout :: "duration \<Rightarrow> 'w lowLatencyUDPPreset \<Rightarrow> 'w lowLatencyUDPPreset" where
  "WithLowLatencyUDPDialTimeout timeout p = p\<lparr>lowDialTimeout := timeout\<rparr>"

definition WithLowLatencyUDPReadTimeout :: "duration \<Rightarrow> 'w lowLatencyUDPPreset \<Rightarrow> 'w lowLatencyUDPPreset" where
  "WithLowLatencyUDPReadTimeout timeout p = p\<lparr>lowReadTimeout := timeout\<rparr>"

definition WithLowLatencyUDPWriteTimeout :: "duration \<Rightarrow> 'w lowLatencyUDPPreset \<Rightarrow> 'w lowLatencyUDPPreset" where
  "WithLowLatencyUDPWriteTimeout timeout p = p\<lparr>lowWriteTimeout := timeout\<rparr>"

definition WithLowLatencyUDPTimeoutGuard :: "duration \<Rightarrow> 'w lowLatencyUDPPreset \<Rightarrow> 'w lowLatencyUDPPreset" where
  "WithLowLatencyUDPTimeoutGuard timeout p = p\<lparr>lowTimeoutGuard := timeout\<rparr>"

definition WithLowLatencyUDPConcurrencyLimit :: "int \<Rightarrow> 'w lowLatencyUDPPreset \<Rightarrow> 'w lowLatencyUDPPreset" where
  "WithLowLatencyUDPConcurrencyLimit maxInFlight p = p\<lparr>lowConcurrencyLimit := maxInFlight\<rparr>"

definition WithLowLatencyUDPOption ::
  "('w udp_DefaultClient \<Rightarrow> 'w udp_DefaultClient) option \<Rightarrow> 'w lowLatencyUDPPreset \<Rightarrow> 'w lowLatencyUDPPreset" where
  "WithLowLatencyUDPOption opt p = p\<lparr>lowOptions := appendPresetOption (lowOptions p) opt\<rparr>"

definition defaultLowLatencyUDPPreset :: "'w lowLatencyUDPPreset" where
  "defaultLowLatencyUDPPreset = \<lparr>lowDialTimeout = 300 * millisecond, lowReadTimeout = 150 * millisecond,
     lowWriteTimeout = 150 * millisecond, lowTimeoutGuard = 200 * millisecond, lowConcurrencyLimit = 1024,
     lowOptions = []\<rparr>"

definition tuneLowLatencyUDPConfig :: "udp_Config \<Rightarrow> 'w lowLatencyUDPPreset \<Rightarrow> udp_Config" where
  "tuneLowLatencyUDPConfig cfg preset =
     (let tuned = cfg;
          tuned = (if udpDialTimeout tuned = 0 then tuned\<lparr>udpDialTimeout := lowDialTimeout preset\<rparr> else tuned);
          tuned = (if udpReadTimeout tuned = 0 then tuned\<lparr>udpReadTimeout := lowReadTimeout preset\<rparr> else tuned);
          tuned = (if udpWriteTimeout tuned = 0 then tuned\<lparr>udpWriteTimeout := lowWriteTimeout preset\<rparr> else tuned)
      in tuned)"

definition buildLowLatencyUDPOptions ::
  "lib \<Rightarrow> nat \<Rightarrow> 'u world_scheme lowLatencyUDPPreset \<Rightarrow> 'u world_scheme udp_DefaultClient options" where
  "buildLowLatencyUDPOptions L s preset =
     (if 0 < lowTimeoutGuard preset then [Some (udp_WithTimeoutGuard (lowTimeoutGuard preset))] else []) @
     (if 0 < lowConcurrencyLimit preset
      then [Some (udp_WithConcurrencyLimit L s (lowConcurrencyLimit preset))] else []) @
     lowOptions preset"

definition NewLowLatencyUDP ::
  "lib \<Rightarrow> ('u world_scheme lowLatencyUDPPreset \<Rightarrow> 'u world_scheme lowLatencyUDPPreset options \<Rightarrow>
           'u world_scheme lowLatencyUDPPreset) \<Rightarrow>
   ('u world_scheme udp_DefaultClient \<Rightarrow> 'u world_scheme udp_DefaultClient options \<Rightarrow>
    'u world_scheme udp_DefaultClient) \<Rightarrow>
   nat \<Rightarrow> udp_Config \<Rightarrow> 'u world_scheme lowLatencyUDPPreset options \<Rightarrow>
   'u world_scheme udp_DefaultClient option \<times> go_error option" where
  "NewLowLatencyUDP L ap ap' s cfg opts =
     (let preset = Apply ap defaultLowLatencyUDPPreset opts;
          tuned = tuneLowLatencyUDPConfig cfg preset;
          clientOpts = buildLowLatencyUDPOptions L s preset
      in case udp_New L ap' tuned clientOpts of (client, err) \<Rightarrow>
           if err \<noteq> None
           then (None, oops_wrapf L ''clientx/preset''
                  [(''op'', AStr ''new_low_latency_udp''), (''protocol'', AStr ''udp''),
                   (''network'', AStr (udpNetwork tuned)), (''addr'', AStr (udpAddress tuned)),
                   (''dial_timeout'', ADur (udpDialTimeout tuned)), (''read_timeout'', ADur (udpReadTimeout tuned)),
                   (''write_timeout'', ADur (udpWriteTimeout tuned)), (''option_count'', AInt (int (length clientOpts)))]
                  err ''build low latency udp client'')
           else (client, None))"

end
