(* ===== verification/Bounded_Wait.thy ===== *)
theory Bounded_Wait
  imports Client_Call Retry_Policy Timeout_Policy Bulkhead_Policy
begin

text \<open>
  Timeout, concurrency limit and retry together: behind a timeout guard no policy of the library waits
  for ever, so a call that is guarded comes back whatever the other callers do.
\<close>

section \<open>Policies that return before a deadline\<close>

definition has_deadline :: "ctx option \<Rightarrow> bool" where
  "has_deadline c \<longleftrightarrow> (\<exists>x. c = Some x \<and> ctx_deadline x \<noteq> None)"

definition bounded_policy :: "'w policy \<Rightarrow> bool" where
  "bounded_policy p \<longleftrightarrow> later_returns p \<and>
     (\<forall>c operation w. has_deadline c \<longrightarrow>
        (\<exists>c' e w'. Before p c operation w = Some (Ret (c', e), w') \<and>
          (e = None \<longrightarrow> c' = None \<or> has_deadline c')))"

lemma bounded_policyI:
  assumes "later_returns p"
    and "\<And>c operation w. has_deadline c \<Longrightarrow> \<exists>c' e w'. Before p c operation w = Some (Ret (c', e), w') \<and>
          (e = None \<longrightarrow> c' = None \<or> has_deadline c')"
  shows "bounded_policy p"
  unfolding bounded_policy_def using assms by blast

lemma bounded_policyD:
  "bounded_policy p \<Longrightarrow> has_deadline c \<Longrightarrow> \<exists>c' e w'. Before p c operation w = Some (Ret (c', e), w') \<and>
     (e = None \<longrightarrow> c' = None \<or> has_deadline c')"
  unfolding bounded_policy_def by blast

lemma bounded_call:
  assumes "oops_ok L" and "bounded_policy p" and "has_deadline c"
  shows "\<exists>c' e w'. callPolicyBefore L c p operation w = Some (Ret (c', e), w') \<and> (e = None \<longrightarrow> has_deadline c')"
proof -
  obtain c' e w' where b: "Before p c operation w = Some (Ret (c', e), w')" and d: "e = None \<longrightarrow> c' = None \<or> has_deadline c'"
    using bounded_policyD [OF assms(2,3)] by blast
  show ?thesis
  proof (cases c')
    case None
    then show ?thesis using b assms(3) by (simp add: callPolicyBefore_def prog_simps)
  next
    case (Some x)
    then show ?thesis using b d assms(1)
      by (cases e) (simp_all add: callPolicyBefore_def wrapPolicyBeforeError_def prog_simps)
  qed
qed

lemma returns_bounded_pass:
  assumes "oops_ok L"
  shows "\<forall>p \<in> set ps. bounded_policy p \<Longrightarrow> has_deadline c \<Longrightarrow> applyBeforePolicies L c ps operation w \<noteq> None"
proof (induction ps arbitrary: c w)
  case (Cons p ps)
  obtain c' e w' where b: "callPolicyBefore L c p operation w = Some (Ret (c', e), w')"
    and d: "e = None \<longrightarrow> has_deadline c'" using bounded_call [OF assms] Cons.prems by (metis list.set_intros(1))
  show ?case
  proof (cases e)
    case None
    then have "applyBeforePolicies L c' ps operation w' \<noteq> None" using Cons d by simp
    then show ?thesis using b None by (auto simp: pbind_apply split: res.split)
  qed (use b in \<open>simp add: pbind_apply\<close>)
qed simp

lemma applyBeforePolicies_append_returns:
  assumes "\<forall>p \<in> set pre. policy_returns p" and "\<And>c w. applyBeforePolicies L c ps operation w \<noteq> None"
  shows "applyBeforePolicies L c (pre @ ps) operation w \<noteq> None"
  using assms(1)
proof (induction pre arbitrary: c w)
  case (Cons p pre)
  have "returns (callPolicyBefore L c p operation)"
    using Cons.prems by (auto simp: callPolicyBefore_def policy_returns_def intro!: returns_pbind returns_precover split: prod.split)
  moreover have "returns (applyBeforePolicies L n (pre @ ps) operation)" for n
    using Cons by (simp add: returns_def)
  ultimately have "returns (applyBeforePolicies L c (p # (pre @ ps)) operation)"
    unfolding applyBeforePolicies.simps by (auto intro!: returns_pbind split: prod.split)
  then show ?case by (simp add: returnsD)
qed (use assms(2) in simp)

section \<open>The policies of the library\<close>

lemma timeoutBefore_deadline_set:
  assumes "0 < t"
  shows "\<exists>c' w'. timeoutBefore t c operation w = Some (Ret (Some c', None), w') \<and> ctx_deadline c' \<noteq> None"
  using assms
  by (cases "ctx_deadline (normalizeContext c)")
    (auto simp: timeoutBefore_def with_timeout_def Let_def pbind_apply)

lemma bounded_timeout: "bounded_policy (NewTimeoutPolicy t)"
proof (rule bounded_policyI)
  show "\<exists>c' e w'. Before (NewTimeoutPolicy t) c operation w = Some (Ret (c', e), w') \<and> (e = None \<longrightarrow> c' = None \<or> has_deadline c')"
    if "has_deadline c" for c operation and w :: "'a world_scheme"
  proof (cases "0 < t")
    case True
    then show ?thesis using timeoutBefore_deadline_set [of t c operation w] by (auto simp: has_deadline_def)
  next
    case False
    then show ?thesis using that by (auto simp: timeoutBefore_def has_deadline_def normalizeContext_def)
  qed
qed (rule policy_returns_later [OF returns_NewTimeoutPolicy])

lemma deadline_done: "ctx_deadline c = Some d \<Longrightarrow> ctx_done w c \<noteq> None"
  using due_deadline [of c d d w] by (cases "ctx_done w c") auto

lemma bounded_limit: "bounded_policy (NewConcurrencyLimitPolicy L s n)"
proof (rule bounded_policyI)
  fix c operation and w :: "'a world_scheme"
  assume c: "has_deadline c"
  let ?p = "Some \<lparr>sem = Some (s, limit_cap n)\<rparr>"
  have n: "Some (normalizeContext c) = c" and "ctx_done w (normalizeContext c) \<noteq> None"
    using c deadline_done by (auto simp: has_deadline_def normalizeContext_def)
  then have "limitBefore L ?p c operation w \<noteq> None"
    by (auto simp: limitBefore_def Let_def split: list.split)
  then obtain r w' where b: "limitBefore L ?p c operation w = Some (r, w')" by auto
  then obtain e where "r = Ret (c, e)"
    by (cases rule: limitBefore_cases) (use n in auto)
  then have "\<exists>c' e w'. limitBefore L ?p c operation w = Some (Ret (c', e), w') \<and> (e = None \<longrightarrow> c' = None \<or> has_deadline c')"
    using b c by blast
  then show "\<exists>c' e w'. Before (NewConcurrencyLimitPolicy L s n) c operation w = Some (Ret (c', e), w') \<and>
      (e = None \<longrightarrow> c' = None \<or> has_deadline c')"
    by (simp add: NewConcurrencyLimitPolicy_eq)
qed (auto simp: later_returns_def NewConcurrencyLimitPolicy_eq limitAfter_def intro!: returns_pbind)

lemma bounded_retry: "policy_returns (NewRetryPolicy F cfg) \<Longrightarrow> bounded_policy (NewRetryPolicy F cfg)"
  by (auto simp: bounded_policy_def policy_returns_later NewRetryPolicy_def Let_def)

lemma stops_at_limit: "stops_at m (NewConcurrencyLimitPolicy L s n)"
  by (simp add: stops_at_def NewConcurrencyLimitPolicy_eq)

section \<open>Guarded calls\<close>

lemma guarded_loop_returns:
  assumes "oops_ok L" and "0 < t" and "\<forall>p \<in> set pre. policy_returns p" and "\<forall>p \<in> set post. bounded_policy p"
    and "\<forall>p \<in> set (pre @ post). stops_at n p" and "\<forall>c. returns (fn c)"
  shows "invokeLoop L ctx operation fn (pre @ NewTimeoutPolicy t # post) zero attempt w \<noteq> None"
proof (rule loop_returns_passes [where n = n])
  have "applyBeforePolicies L c (NewTimeoutPolicy t # post) operation w \<noteq> None" for c w
  proof -
    obtain c' w' where "timeoutBefore t c operation w = Some (Ret (Some c', None), w')" "ctx_deadline c' \<noteq> None"
      using timeoutBefore_deadline_set [OF assms(2)] by blast
    then have "callPolicyBefore L c (NewTimeoutPolicy t) operation w = Some (Ret (Some c', None), w')"
      and "has_deadline (Some c')"
      by (simp_all add: callPolicyBefore_def wrapPolicyBeforeError_def prog_simps has_deadline_def)
    then show ?thesis using returns_bounded_pass [OF assms(1,4), of "Some c'" operation w']
      by (auto simp: pbind_apply split: res.split)
  qed
  then show "returns (applyBeforePolicies L (Some ctx) (pre @ NewTimeoutPolicy t # post) operation)"
    using applyBeforePolicies_append_returns [OF assms(3)] by (simp add: returns_def)
  show "\<forall>p \<in> set (pre @ NewTimeoutPolicy t # post). later_returns p \<and> stops_at n p"
    using assms(3,4,5) bounded_timeout stops_at_NewTimeoutPolicy
    by (auto simp: policy_returns_later bounded_policy_def)
qed (rule assms(6))

text \<open>
  A timeout guard bounds the wait for a slot: a call whose policies are the guard and, after it, limits,
  retries and other guards comes back even if every slot is taken for ever, provided the retry policies
  stop asking and the function comes back. Policies before the guard must come back by themselves.
\<close>

theorem guarded_call_returns:
  assumes "oops_ok L" and "0 < t" and "\<forall>p \<in> set pre. policy_returns p" and "\<forall>p \<in> set post. bounded_policy p"
    and "\<forall>p \<in> set (pre @ post). stops_at n p" and "\<forall>c. returns (fn c)"
  shows "invokeLoop L ctx operation fn (pre @ NewTimeoutPolicy t # post) zero attempt w \<noteq> None"
  by (rule guarded_loop_returns [OF assms])

theorem guarded_call_returns_witness:
  "invokeLoop plain_lib Background sample_operation (\<lambda>c. pret (0 :: nat, None))
     ([] @ NewTimeoutPolicy second # [NewConcurrencyLimitPolicy plain_lib 7 2]) 0 1
     (start_world\<lparr>sems := \<lambda>_. 2\<rparr>) \<noteq> None"
  by (rule guarded_call_returns [where n = 0]) (auto simp: bounded_limit stops_at_limit)

text \<open>
  C32: unless a policy between the two panics. The engine contains the panic and passes a nil context on, so the limit
  waits, and the function runs, with the background context: no deadline, neither the guard's nor the caller's.
  With a slot free the attempt goes on without them; while every slot is taken, the guard does not end the
  wait, and unless another caller gives a slot back the call does not return.
\<close>

theorem panic_defeats_guard:
  fixes w :: "'u world_scheme"
  assumes "\<And>c w. Before p c operation w = Some (Panic, w)"
    and "ps = [NewTimeoutPolicy t, p, NewConcurrencyLimitPolicy L s n]"
  shows "(sems w s < limit_cap n \<longrightarrow>
      (\<exists>w'. applyBeforePolicies L (Some ctx) ps operation w = Some (Ret (Some Background, ps, None), w') \<and>
        sems w' s = Suc (sems w s))) \<and>
    (limit_cap n \<le> sems w s \<longrightarrow> invokeLoop L ctx operation fn ps zero attempt w = None)"
proof -
  have sems: "keeps (\<lambda>w :: 'u world_scheme. sems w s) (timeoutBefore t c operation)" for c
    using keeps_NewTimeoutPolicy [of "\<lambda>w :: 'u world_scheme. sems w s" t] by (simp add: policy_keeps_def)
  obtain c' w1 where g: "timeoutBefore t (Some ctx) operation w = Some (Ret (Some c', None), w1)"
  proof (cases "0 < t")
    case True
    then show thesis using that timeoutBefore_deadline_set [OF True, of "Some ctx" operation w] by blast
  qed (use that in \<open>simp add: timeoutBefore_def Let_def\<close>)
  have w1: "sems w1 s = sems w s" using keepsD [OF sems g] .
  have "callPolicyBefore L (Some ctx) (NewTimeoutPolicy t) operation w = Some (Ret (Some c', None), w1)"
    using g by (simp add: callPolicyBefore_def wrapPolicyBeforeError_def prog_simps)
  moreover have "callPolicyBefore L (Some c') p operation w1 = Some (Ret (None, None), w1)"
    using assms(1) by (simp add: callPolicyBefore_def prog_simps)
  moreover have "callPolicyBefore L None (NewConcurrencyLimitPolicy L s n) operation w1 =
      (if sems w s < limit_cap n
       then Some (Ret (Some Background, None), w1\<lparr>sems := (sems w1)(s := Suc (sems w s))\<rparr>) else None)"
    by (simp add: w1 callPolicyBefore_def NewConcurrencyLimitPolicy_eq limitBefore_def limit_select_def
        normalizeContext_def wrapPolicyBeforeError_def ctx_err_def Let_def prog_simps)
  ultimately have before: "applyBeforePolicies L (Some ctx) ps operation w =
      (if sems w s < limit_cap n
       then Some (Ret (Some Background, ps, None), w1\<lparr>sems := (sems w1)(s := Suc (sems w s))\<rparr>) else None)"
    by (simp add: assms(2) pbind_apply)
  then show ?thesis by (auto simp: invokeLoop.simps invokeAttempt_def pbind_apply simp del: applyBeforePolicies.simps)
qed

theorem panic_defeats_guard_witness:
  "let ps = [NewTimeoutPolicy second, PolicyFuncs (Some (\<lambda>_ _. ppanic)) None, NewConcurrencyLimitPolicy plain_lib 7 2] in
   (\<exists>w'. applyBeforePolicies plain_lib (Some Background) ps sample_operation start_world =
      Some (Ret (Some Background, ps, None), w') \<and> sems w' 7 = 1) \<and>
   invokeLoop plain_lib Background sample_operation (\<lambda>c. pret (0 :: nat, None)) ps 0 1 (start_world\<lparr>sems := \<lambda>_. 2\<rparr>) = None"
proof -
  have p: "Before (PolicyFuncs (Some (\<lambda>_ _. ppanic)) None) c operation w = Some (Panic, w)" for c operation and w :: world
    by (simp add: PolicyFuncs_def)
  from panic_defeats_guard [OF p refl, where w = start_world and n = 2 and s = 7 and t = second and L = plain_lib and ctx = Background]
    panic_defeats_guard [OF p refl, where w = "start_world\<lparr>sems := \<lambda>_. 2\<rparr>" and n = 2 and s = 7 and t = second and L = plain_lib
      and ctx = Background and fn = "\<lambda>c. pret (0 :: nat, None)" and zero = 0 and attempt = 1]
  show ?thesis by (simp add: start_world_def limit_cap_def Let_def)
qed

end
