(* ===== verification/Http_Properties.thy ===== *)
theory Http_Properties
  imports Http Bounded_Wait
begin

text \<open>
  What holds of package \<^verbatim>\<open>http\<close>: its configurations, the addresses it reports, and the requests it
  executes.
\<close>

section \<open>Configuration\<close>

definition http_normal :: "http_Config \<Rightarrow> http_Config" where
  "http_normal cfg = cfg\<lparr>
     httpBaseURL := trim_space (httpBaseURL cfg),
     httpUserAgent := trim_space (httpUserAgent cfg),
     httpTimeout := (if httpTimeout cfg = 0 then http_defaultTimeout else httpTimeout cfg)\<rparr>"

definition http_valid :: "(string \<Rightarrow> go_error option) \<Rightarrow> http_Config \<Rightarrow> bool" where
  "http_valid parse_uri cfg \<longleftrightarrow>
     (httpBaseURL cfg = [] \<or> parse_uri (httpBaseURL cfg) = None) \<and> 0 < httpTimeout cfg \<and>
     0 \<le> MaxRetries (httpRetry cfg) \<and> 0 \<le> WaitMin (httpRetry cfg) \<and> 0 \<le> WaitMax (httpRetry cfg) \<and>
     (WaitMax (httpRetry cfg) = 0 \<or> WaitMin (httpRetry cfg) \<le> WaitMax (httpRetry cfg))"

lemma http_normal_idem: "http_normal (http_normal cfg) = http_normal cfg"
  by (simp add: http_normal_def http_defaultTimeout_def)

lemma http_Normalize_eq:
  "http_NormalizeAndValidate L parse_uri cfg =
     (let out = http_normal cfg; retry = httpRetry out;
          waits = [(''wait_min'', ADur (WaitMin retry)), (''wait_max'', ADur (WaitMax retry))]
      in if httpBaseURL out \<noteq> [] \<and> parse_uri (httpBaseURL out) \<noteq> None
         then http_invalid L [(''field'', AStr ''base_url''), (''base_url'', AStr (httpBaseURL out))]
                (errors_join [Some http_ErrInvalidConfig, parse_uri (httpBaseURL out)]) ''validate http client config''
         else if httpTimeout out < 0
         then http_invalid L [(''field'', AStr ''timeout''), (''timeout'', ADur (httpTimeout out))]
                (Some http_ErrInvalidConfig) ''timeout must be >= 0''
         else if MaxRetries retry < 0
         then http_invalid L [(''field'', AStr ''retry.max_retries''), (''max_retries'', AInt (MaxRetries retry))]
                (Some http_ErrInvalidConfig) ''retry.max_retries must be >= 0''
         else if WaitMin retry < 0 \<or> WaitMax retry < 0
         then http_invalid L ((''field'', AStr ''retry.wait'') # waits)
                (Some http_ErrInvalidConfig) ''retry wait durations must be >= 0''
         else if 0 < WaitMax retry \<and> WaitMax retry < WaitMin retry
         then http_invalid L ((''field'', AStr ''retry.wait'') # waits)
                (Some http_ErrInvalidConfig) ''retry.wait_min must be <= retry.wait_max''
         else (out, None))"
  by (simp add: http_NormalizeAndValidate_def http_normal_def Let_def)

lemma http_normal_timeout: "httpTimeout (http_normal cfg) \<noteq> 0"
  by (simp add: http_normal_def http_defaultTimeout_def)

lemma http_Normalize_ok:
  "http_valid parse_uri (http_normal cfg) \<Longrightarrow> http_NormalizeAndValidate L parse_uri cfg = (http_normal cfg, None)"
  by (auto simp: http_valid_def http_Normalize_eq Let_def)

lemma http_invalid_error:
  assumes "oops_ok L" and "errors_is err http_ErrInvalidConfig"
  shows "fst (http_invalid L as err msg) = http_zero_Config \<and>
    errors_is (snd (http_invalid L as err msg)) http_ErrInvalidConfig"
  using assms by (simp add: http_invalid_def http_ErrInvalidConfig_def)

lemma http_Normalize_fails:
  assumes "oops_ok L" and "\<not> http_valid parse_uri (http_normal cfg)"
  shows "fst (http_NormalizeAndValidate L parse_uri cfg) = http_zero_Config \<and>
    errors_is (snd (http_NormalizeAndValidate L parse_uri cfg)) http_ErrInvalidConfig"
proof -
  have j: "errors_is (errors_join [Some http_ErrInvalidConfig, e]) http_ErrInvalidConfig" for e
    by (rule carries_errors_is [OF carries_join_left]) (simp add: errors_is_Some http_ErrInvalidConfig_def)
  have s: "errors_is (Some http_ErrInvalidConfig) http_ErrInvalidConfig"
    by (simp add: errors_is_Some http_ErrInvalidConfig_def)
  show ?thesis
    using assms(2) http_normal_timeout [of cfg] http_invalid_error [OF assms(1) j] http_invalid_error [OF assms(1) s]
    by (auto simp: http_valid_def http_Normalize_eq Let_def)
qed

text \<open>
  C28: normalising a configuration either gives a valid one, whose base URL parses, whose timeout is positive
  and whose retry numbers are consistent, and which normalising again leaves alone; or it fails with
  \<open>ErrInvalidConfig\<close>, exactly when trimming and the default timeout do not make it valid.
\<close>

theorem http_config_normal:
  assumes "oops_ok L"
  shows "case http_NormalizeAndValidate L parse_uri cfg of (out, err) \<Rightarrow>
    if http_valid parse_uri (http_normal cfg)
    then out = http_normal cfg \<and> err = None \<and> http_NormalizeAndValidate L parse_uri out = (out, None)
    else out = http_zero_Config \<and> errors_is err http_ErrInvalidConfig"
  using http_Normalize_ok [of parse_uri cfg L] http_Normalize_ok [of parse_uri "http_normal cfg" L]
    http_Normalize_fails [OF assms, of parse_uri cfg]
  by (cases "http_NormalizeAndValidate L parse_uri cfg") (auto simp: http_normal_idem)

definition sample_http_Config :: http_Config where
  "sample_http_Config = http_zero_Config\<lparr>httpBaseURL := ''http://h/'',
     httpRetry := \<lparr>RetryEnabled = True, MaxRetries = 2, WaitMin = millisecond, WaitMax = 0\<rparr>\<rparr>"

lemma sample_http_normal:
  "http_normal sample_http_Config = sample_http_Config\<lparr>httpTimeout := 30 * second\<rparr>"
  "http_valid (\<lambda>_. None) (http_normal sample_http_Config)"
proof -
  have t: "trim_space ''http://h/'' = ''http://h/''" "trim_space [] = []" by code_simp+
  then show "http_normal sample_http_Config = sample_http_Config\<lparr>httpTimeout := 30 * second\<rparr>"
    by (simp add: http_normal_def sample_http_Config_def http_zero_Config_def http_defaultTimeout_def)
  then show "http_valid (\<lambda>_. None) (http_normal sample_http_Config)"
    by (simp add: http_valid_def sample_http_Config_def)
qed

theorem http_config_normal_witness:
  "http_NormalizeAndValidate plain_lib (\<lambda>_. None) sample_http_Config =
     (sample_http_Config\<lparr>httpTimeout := 30 * second\<rparr>, None)"
  using http_config_normal [OF plain_lib_ok, of "\<lambda>_. None" sample_http_Config] sample_http_normal
  by (cases "http_NormalizeAndValidate plain_lib (\<lambda>_. None) sample_http_Config") simp

section \<open>Addresses\<close>

definition http_absolute :: "string \<Rightarrow> bool" where
  "http_absolute addr \<longleftrightarrow> has_prefix addr ''http://'' \<or> has_prefix addr ''https://''"

lemma trim_right_append: "P c \<Longrightarrow> trim_right P (s @ [c]) = trim_right P s"
  by (simp add: trim_right_def)

lemma trim_right_ends: "trim_right P s \<noteq> [] \<Longrightarrow> \<not> P (last (trim_right P s))"
  by (metis hd_dropWhile last_rev rev_is_Nil_conv trim_right_def)

lemma has_prefix_Cons: "has_prefix s [c] \<longleftrightarrow> (\<exists>t. s = c # t)"
  by (cases s) (auto simp: has_prefix_def)

abbreviation strip_slashes :: "string \<Rightarrow> string" where
  "strip_slashes \<equiv> trim_right (\<lambda>c. c = CHR ''/'')"

lemma strip_slashes_end: "strip_slashes s = [] \<or> last (strip_slashes s) \<noteq> CHR ''/''"
  using trim_right_ends [of "\<lambda>c. c = CHR ''/''" s] by blast

lemma strip_slashes_split: "strip_slashes s @ replicate (length s - length (strip_slashes s)) CHR ''/'' = s"
proof -
  let ?P = "\<lambda>c. c = CHR ''/''"
  let ?t = "takeWhile ?P (rev s)"
  have t: "?t = replicate (length ?t) CHR ''/''" by (rule replicate_eqI) (auto dest: set_takeWhileD)
  have s: "s = strip_slashes s @ rev ?t"
    unfolding trim_right_def by (metis rev_append rev_rev_ident takeWhile_dropWhile_id)
  have "length ?t = length s - length (strip_slashes s)"
    using arg_cong [OF s, of length] by simp
  then have "rev ?t = replicate (length s - length (strip_slashes s)) CHR ''/''"
    using arg_cong [OF t, of rev] by simp
  then show ?thesis using s by simp
qed

lemma http_resolveAddr_joined:
  assumes "base \<noteq> []" "trim_space e \<noteq> []" "\<not> http_absolute (trim_space e)"
  shows "\<exists>path. (trim_space e = path \<or> trim_space e = ''/'' @ path) \<and>
    http_resolveAddr base e = strip_slashes base @ ''/'' @ path"
proof (cases "has_prefix (trim_space e) ''/''")
  case True
  then obtain path where p: "trim_space e = CHR ''/'' # path" by (auto simp: has_prefix_Cons)
  then have "http_resolveAddr base e = strip_slashes base @ ''/'' @ path"
    using assms True by (simp add: http_resolveAddr_def http_absolute_def Let_def)
  then show ?thesis using p by (intro exI [of _ path]) simp
next
  case False
  then have "http_resolveAddr base e = strip_slashes base @ ''/'' @ trim_space e"
    using assms by (simp add: http_resolveAddr_def http_absolute_def Let_def)
  then show ?thesis by (intro exI [of _ "trim_space e"]) simp
qed

text \<open>
  The address a request is reported under. An absolute endpoint stands for itself, an empty one for the
  base URL; any other is joined to the base by exactly one slash, however many the base ends with and
  whether or not the endpoint starts with one.
\<close>

theorem http_resolveAddr_join:
  "(http_absolute (trim_space e) \<longrightarrow> http_resolveAddr base e = trim_space e) \<and>
   (trim_space e = [] \<longrightarrow> http_resolveAddr base e = base) \<and>
   (base \<noteq> [] \<and> trim_space e \<noteq> [] \<and> \<not> http_absolute (trim_space e) \<longrightarrow>
      (\<exists>b path. http_resolveAddr base e = b @ ''/'' @ path \<and>
         b @ replicate (length base - length b) CHR ''/'' = base \<and>
         (b = [] \<or> last b \<noteq> CHR ''/'') \<and>
         (trim_space e = path \<or> trim_space e = ''/'' @ path) \<and>
         http_resolveAddr (base @ ''/'') e = http_resolveAddr base e))"
proof (intro conjI impI)
  assume "http_absolute (trim_space e)"
  moreover from this have "trim_space e \<noteq> []" by (auto simp: http_absolute_def has_prefix_def)
  ultimately show "http_resolveAddr base e = trim_space e"
    by (auto simp: http_resolveAddr_def http_absolute_def Let_def)
next
  assume h: "base \<noteq> [] \<and> trim_space e \<noteq> [] \<and> \<not> http_absolute (trim_space e)"
  let ?b = "strip_slashes base"
  obtain path where "trim_space e = path \<or> trim_space e = ''/'' @ path"
    and "http_resolveAddr base e = ?b @ ''/'' @ path"
    using http_resolveAddr_joined [of base e] h by blast
  moreover have "http_resolveAddr (base @ ''/'') e = http_resolveAddr base e"
    using h by (simp add: http_resolveAddr_def http_absolute_def Let_def trim_right_append)
  ultimately show "\<exists>b path. http_resolveAddr base e = b @ ''/'' @ path \<and>
         b @ replicate (length base - length b) CHR ''/'' = base \<and> (b = [] \<or> last b \<noteq> CHR ''/'') \<and>
         (trim_space e = path \<or> trim_space e = ''/'' @ path) \<and>
         http_resolveAddr (base @ ''/'') e = http_resolveAddr base e"
    using strip_slashes_split [of base] strip_slashes_end [of base] by (intro exI [of _ ?b] exI [of _ path]) simp
qed (simp add: http_resolveAddr_def)

theorem http_resolveAddr_join_witness:
  "http_resolveAddr ''http://h//'' '' v1/x '' = ''http://h/v1/x''"
proof -
  have t: "trim_space '' v1/x '' = ''v1/x''" by code_simp
  have h: "''http://h//'' \<noteq> [] \<and> trim_space '' v1/x '' \<noteq> [] \<and> \<not> http_absolute (trim_space '' v1/x '')"
    by (simp add: t http_absolute_def has_prefix_def)
  have "http_resolveAddr (''http://h/'' @ ''/'') '' v1/x '' = http_resolveAddr ''http://h/'' '' v1/x ''"
    using http_resolveAddr_join [of "'' v1/x ''" "''http://h/''"] h by auto
  then show ?thesis by (simp add: http_resolveAddr_def t Let_def has_prefix_def trim_right_def)
qed

section \<open>Requests\<close>

definition http_fail :: "lib \<Rightarrow> operation \<Rightarrow> go_error option \<Rightarrow> go_error option" where
  "http_fail L operation err = oops_wrapf L ''clientx/http''
     [(''op'', AStr (Op operation)), (''addr'', AStr (Addr operation)),
      (''network'', AStr (Network operation)), (''protocol'', AStr (Protocol operation)),
      (''operation_kind'', AStr (Kind operation))]
     err ''execute http operation''"

lemma http_Execute_call:
  "http_Execute L Y c ctx req method endpoint =
     (let addr = http_resolveAddr (httpBase c) endpoint; operation = http_operation (http_op method) addr in
      client_call L (http_executeOnce L Y c req method endpoint (http_op method) addr) (http_fail L operation)
        ctx operation (httpPolicies c))"
  unfolding http_Execute_def client_call_def http_invokeWithPolicies_def http_fail_def Let_def ..

text \<open>A good response is one the library has answered without an error.\<close>

definition http_answered ::
  "('c, 'q, 'p, 'u world_scheme) resty \<Rightarrow> string \<Rightarrow> string \<Rightarrow> 'p \<Rightarrow> bool" where
  "http_answered Y method endpoint resp \<longleftrightarrow>
     (\<exists>q w w'. resty_Execute Y q method endpoint w = Some (Ret (resp, None), w'))"

lemma http_wrapClientError_Some:
  assumes "oops_ok L"
  shows "http_wrapClientError L op addr (Some e) \<noteq> None"
proof -
  obtain x where "WrapError L ProtocolHTTP op addr (Some e) = Some x"
    by (cases "WrapError L ProtocolHTTP op addr (Some e)") (simp_all add: WrapError_def)
  then show ?thesis
    unfolding http_wrapClientError_def by (metis oops_wrapf_SomeE [OF assms] option.distinct(1))
qed

lemma http_wrapClientError_is:
  assumes "oops_ok L" and "\<not> is_foreign x" and "\<not> is_client_error x"
  shows "errors_is (http_wrapClientError L op addr err) x = errors_is err x"
  using assms by (simp add: http_wrapClientError_def errors_is_WrapError)

lemma http_executeOnce_cases:
  assumes "http_executeOnce L Y c req method endpoint op addr execCtx w = Some (Ret (x, e), w')"
  obtains (answered) q resp v v' where "resty_Execute Y q method endpoint v = Some (Ret (resp, None), v')"
      "x = Some resp" "e = None"
  | (failed) q resp err v v' where "resty_Execute Y q method endpoint v = Some (Ret (resp, Some err), v')"
      "x = None" "e = http_wrapClientError L op addr (Some err)"
  using assms unfolding http_executeOnce_def Let_def
  by (elim pbind_eq_SomeE) (auto elim!: pbind_eq_SomeE split: prod.splits if_splits)

lemma http_client_calls:
  assumes "oops_ok L"
  shows "client_calls (http_executeOnce L Y c req method endpoint op addr) (http_fail L operation)
    (http_answered Y method endpoint)"
proof
  show "\<exists>p. x = Some p \<and> http_answered Y method endpoint p"
    if "http_executeOnce L Y c req method endpoint op addr execCtx w = Some (Ret (x, None), w')" for execCtx w x w'
    using that
  proof (cases rule: http_executeOnce_cases)
    case (failed q resp err)
    then show ?thesis using http_wrapClientError_Some [OF assms, of op addr err] by simp
  qed (auto simp: http_answered_def)
  show "carries (http_fail L operation (Some e)) (Some e)" for e
    unfolding http_fail_def by (rule carries_wrapf [OF assms])
qed

interpretation http_exec: client_calls "http_executeOnce (lawful M) Y c req verb endpoint op addr"
    "http_fail (lawful M) operation" "http_answered Y verb endpoint"
  for M Y c req verb endpoint op addr operation
  by (rule http_client_calls [OF lawful_ok])

text \<open>
  C18: a request reports no error only with a response that the HTTP library has answered, and then always
  with one; with an error it hands out no response, even when one had arrived.
\<close>

theorem http_Execute_result:
  assumes "oops_ok L" and "http_Execute L Y c ctx req method endpoint w = Some (Ret (resp, err), w')"
  shows "if err = None then \<exists>p. resp = Some p \<and> http_answered Y method endpoint p else resp = None"
  using http_exec.result [where M = L, unfolded lawful_eq [OF assms(1)]] assms(2)
  unfolding http_Execute_call Let_def by blast

text \<open>A library for the witnesses: it counts the requests and answers the \<open>n\<close>th with \<open>fate n\<close>.\<close>

record http_world = world +
  requests :: nat

definition count_resty :: "(nat \<Rightarrow> go_error option) \<Rightarrow> (unit, unit, string, 'u http_world_scheme) resty" where
  "count_resty fate = \<lparr>resty_new = (), SetBaseURL = (\<lambda>_ c. c), SetTimeout = (\<lambda>_ c. c), SetTransport = (\<lambda>_ c. c),
     SetHeader = (\<lambda>_ _ c. c), AddRequestMiddleware = (\<lambda>_ c. c), AddResponseMiddleware = (\<lambda>_ c. c),
     resty_R = (\<lambda>_. pret ()), SetContext = (\<lambda>_ _. pret ()),
     resty_Execute = (\<lambda>_ _ _ w. Some (Ret (''ok'', fate (requests w)), w\<lparr>requests := requests w + 1\<rparr>)),
     response_Size = (\<lambda>s. int (length s)), CloseIdleConnections = (\<lambda>_. None)\<rparr>"

definition http_start :: http_world where
  "http_start = \<lparr>now = 0, next_id = 0, cancelled_at = (\<lambda>_. None), choices = (\<lambda>_. False), sems = (\<lambda>_. 0), requests = 0\<rparr>"

definition bare_http_client :: "'w policy option list \<Rightarrow> (unit, 'w) http_DefaultClient" where
  "bare_http_client policies = \<lparr>httpRaw = Some (), httpBase = ''http://h'', httpHooks = [], httpPolicies = policies\<rparr>"

lemmas http_run_simps = http_Execute_def http_invokeWithPolicies_def InvokeWithPolicies_def invokeAttempt_def
  http_executeOnce_def http_R_def count_resty_def http_start_def bare_http_client_def filterPolicies_def
  normalizeContext_def applyAfterPolicies_def EmitIO_def prog_simps Let_def

theorem http_Execute_result_witness:
  "\<exists>resp w'. http_Execute plain_lib (count_resty (\<lambda>_. None)) (bare_http_client []) None None ''GET'' ''/x'' http_start =
      Some (Ret (resp, None), w') \<and>
    (\<exists>p. resp = Some p \<and> http_answered (count_resty (\<lambda>_. None) :: (_, _, _, http_world) resty) ''GET'' ''/x'' p)"
proof -
  obtain w' where run: "http_Execute plain_lib (count_resty (\<lambda>_. None)) (bare_http_client []) None None ''GET'' ''/x'' http_start =
      Some (Ret (Some ''ok'', None), w')"
    using that by (simp add: http_run_simps invokeLoop.simps)
  from http_Execute_result [OF plain_lib_ok run] show ?thesis using run by simp
qed

section \<open>How many requests a call sends\<close>

text \<open>
  The retries of a configuration are one less than the attempts of its policy, except for the largest
  \<open>int\<close>: there the addition in \<open>New\<close> wraps around, and no retry is left at all.
\<close>

theorem http_retry_attempts:
  assumes "0 \<le> MaxRetries r" and "MaxRetries r < 2 ^ 63"
  shows "maxAttempts (newRetryPolicy F (http_retry_config F r)) =
    (if MaxRetries r = 2 ^ 63 - 1 then 1 else MaxRetries r + 1)"
proof (cases "MaxRetries r = 2 ^ 63 - 1")
  case True
  then show ?thesis by (simp add: newRetryPolicy_maxAttempts http_retry_config_def wrap_int_def)
next
  case False
  then have "wrap_int (MaxRetries r + 1) = MaxRetries r + 1" using assms by (intro wrap_int_id) auto
  then show ?thesis using assms False by (simp add: newRetryPolicy_maxAttempts http_retry_config_def)
qed

theorem http_retry_attempts_witness:
  "maxAttempts (newRetryPolicy (binary64 0)
     (http_retry_config (binary64 0) \<lparr>RetryEnabled = True, MaxRetries = 2 ^ 63 - 1, WaitMin = 0, WaitMax = 0\<rparr>)) = 1"
  using http_retry_attempts [of "\<lparr>RetryEnabled = True, MaxRetries = 2 ^ 63 - 1, WaitMin = 0, WaitMax = 0\<rparr>" "binary64 0"]
  by simp

text \<open>What the library and the hooks must do for the requests to be countable.\<close>

definition counts_requests :: "('w \<Rightarrow> nat) \<Rightarrow> ('c, 'q, 'p, 'w) resty \<Rightarrow> bool" where
  "counts_requests count Y \<longleftrightarrow>
     (\<forall>c. keeps count (resty_R Y c)) \<and> (\<forall>c q. keeps count (SetContext Y c q)) \<and>
     (\<forall>q m e w r w'. resty_Execute Y q m e w = Some (r, w') \<longrightarrow> count w' \<le> count w + 1)"

lemma quiet_keeps: "quiet f m \<Longrightarrow> keeps f m"
  unfolding quiet_def keeps_def by (metis option.inject prod.inject)

lemma keeps_EmitIO: "\<forall>h \<in> set hooks. quiet_hook f h \<Longrightarrow> keeps f (EmitIO hooks event)"
  by (rule quiet_keeps, rule quiet_EmitIO) (auto dest: quiet_hooksD)

text \<open>\<open>adds f n m\<close>: the call adds at most \<open>n\<close> to the counter \<open>f\<close>.\<close>

definition adds :: "('w \<Rightarrow> nat) \<Rightarrow> nat \<Rightarrow> ('a, 'w) prog \<Rightarrow> bool" where
  "adds f n m \<longleftrightarrow> (\<forall>w r w'. m w = Some (r, w') \<longrightarrow> f w' \<le> f w + n)"

lemma adds_keeps: "keeps f m \<Longrightarrow> adds f n m"
  unfolding adds_def by (auto dest: keepsD)

lemma adds_before: "keeps f m \<Longrightarrow> (\<And>a. adds f n (k a)) \<Longrightarrow> adds f n (pbind m k)"
  unfolding adds_def by (fastforce dest: keepsD elim!: pbind_eq_SomeE)

lemma adds_after: "adds f n m \<Longrightarrow> (\<And>a. keeps f (k a)) \<Longrightarrow> adds f n (pbind m k)"
  unfolding adds_def by (fastforce dest: keepsD elim!: pbind_eq_SomeE)

lemma http_executeOnce_adds:
  assumes "counts_requests count Y" and "\<forall>h \<in> set (httpHooks c). quiet_hook count h"
  shows "adds count 1 (http_executeOnce L Y c req method endpoint op addr execCtx)"
proof -
  have "keeps count (case req of Some q \<Rightarrow> pret q | None \<Rightarrow> http_R Y c)" and "keeps count (SetContext Y execCtx q)"
    and "adds count 1 (resty_Execute Y q method endpoint)" for q
    using assms(1) by (auto simp: counts_requests_def adds_def http_R_def split: option.split)
  then show ?thesis
    unfolding http_executeOnce_def Let_def
    by (intro adds_before adds_after) (auto intro!: keeps_pbind keeps_EmitIO [OF assms(2)] split: prod.split)
qed

text \<open>
  A call sends no more requests than the policies of its client allow attempts: each attempt sends at
  most one, also when it fails, panics or is refused.
\<close>

lemma http_call_budget:
  assumes "counts_requests count Y" and "\<forall>h \<in> set (httpHooks c). quiet_hook count h"
    and "clock_free count"
    and "\<forall>p. Some p \<in> set (httpPolicies c) \<longrightarrow> policy_keeps count p \<and> stops_at n p"
    and "http_Execute L Y c ctx req method endpoint w = Some (Ret r, w')"
  shows "count w' \<le> count w + nat (n - 1) + 1"
proof -
  let ?op = "http_op method" and ?addr = "http_resolveAddr (httpBase c) endpoint"
  let ?fn = "http_executeOnce L Y c req method endpoint ?op ?addr"
  obtain x e where run: "invokeLoop L (normalizeContext ctx) (normalizeOperation (http_operation ?op ?addr)) ?fn
      (filterPolicies (httpPolicies c)) None 1 w = Some (Ret (x, e), w')"
    using assms(5)
    by (auto simp: http_Execute_def http_invokeWithPolicies_def InvokeWithPolicies_def Let_def
        elim!: pbind_eq_SomeE split: if_splits)
  have "\<forall>p \<in> set (filterPolicies (httpPolicies c)). policy_keeps count p \<and> stops_at n p"
    using assms(4) by (auto simp: filterPolicies_def)
  then show ?thesis
    by (rule loop_count [OF _ assms(3) _ run])
      (use http_executeOnce_adds [OF assms(1,2)] in \<open>simp add: adds_def\<close>)
qed

end
