(* ===== verification/Preset_Properties.thy ===== *)
theory Preset_Properties
  imports Preset Tcp_Properties Udp_Properties Http_Properties
begin

text \<open>
  What holds of the three presets: which configurations they accept and how their clients are put
  together, that a call of a preset client always comes back, and how many requests one sends.
\<close>

section \<open>Guarded clients\<close>

text \<open>What no policy of the library can change: what depends on the extension of the world only.\<close>

definition extension_only :: "('u world_scheme \<Rightarrow> 'b) \<Rightarrow> bool" where
  "extension_only f \<longleftrightarrow> (\<forall>w v. world.more w = world.more v \<longrightarrow> f w = f v)"

lemma extension_onlyD: "extension_only f \<Longrightarrow> world.more w = world.more v \<Longrightarrow> f w = f v"
  unfolding extension_only_def by blast

lemma extension_keeps_timeout: "extension_only f \<Longrightarrow> policy_keeps f (NewTimeoutPolicy t)"
  by (rule keeps_NewTimeoutPolicy) (erule extension_onlyD, simp)+

lemma extension_keeps_limit:
  assumes "extension_only f"
  shows "policy_keeps f (NewConcurrencyLimitPolicy L s n)"
proof -
  have "keeps f (limitBefore L (Some \<lparr>sem = Some (s, k)\<rparr>) c operation)" for k c operation
    by (rule keepsI, rule extension_onlyD [OF assms])
      (auto simp: limitBefore_def limit_select_def Let_def split: option.splits if_splits)
  moreover have "keeps f (limitAfter (Some \<lparr>sem = Some (s, k)\<rparr>) c operation e)" for k c operation e
    unfolding limitAfter_def by (auto simp: keeps_def prog_simps intro: extension_onlyD [OF assms])
  ultimately show ?thesis by (simp add: policy_keeps_def NewConcurrencyLimitPolicy_eq)
qed

lemma guarded_client_returns:
  assumes "oops_ok L" and "0 < t" and "filterPolicies policies = pre @ NewTimeoutPolicy t # post"
    and "\<forall>p \<in> set pre. policy_returns p" and "\<forall>p \<in> set post. bounded_policy p"
    and "\<forall>p \<in> set (pre @ post). stops_at n p" and "\<And>c. returns (once c)"
  shows "client_call L once fail ctx operation policies w \<noteq> None"
proof -
  have "InvokeWithPolicies L None ctx operation (Some once) policies w \<noteq> None"
    unfolding InvokeWithPolicies_def Let_def option.case assms(3)
    by (rule guarded_loop_returns [OF assms(1,2,4,5,6)]) (use assms(7) in blast)
  then show ?thesis by (auto simp: client_call_def pbind_apply split: res.split)
qed

section \<open>How the clients are put together\<close>

text \<open>
  The policies of a preset client, the options of the caller being none: only what is switched on, in
  the order of the code. HTTP has its retries first, because the client has added them before the options.
\<close>

definition guard_and_limit :: "lib \<Rightarrow> nat \<Rightarrow> duration \<Rightarrow> int \<Rightarrow> 'u world_scheme policy list" where
  "guard_and_limit L s t n =
     (if 0 < t then [NewTimeoutPolicy t] else []) @ (if 0 < n then [NewConcurrencyLimitPolicy L s n] else [])"

lemma http_New_client:
  assumes "oops_ok L" and "http_New L F Y parse_uri ap cfg opts = (Some c, None)"
  shows "http_valid parse_uri (http_normal cfg) \<and>
    (\<exists>raw. c = Apply ap \<lparr>httpRaw = raw, httpBase = httpBaseURL (http_normal cfg), httpHooks = [],
       httpPolicies = (if RetryEnabled (httpRetry cfg)
         then [Some (NewRetryPolicy F (http_retry_config F (httpRetry cfg)))] else [])\<rparr> opts)"
proof -
  obtain out e where n: "http_NormalizeAndValidate L parse_uri cfg = (out, e)" by fastforce
  then have "e = None" using assms(2) by (auto simp: http_New_def Let_def split: if_splits)
  then have v: "http_valid parse_uri (http_normal cfg)"
    using http_Normalize_fails [OF assms(1), of parse_uri cfg] n by (auto simp: http_ErrInvalidConfig_def)
  moreover have "httpRetry (http_normal cfg) = httpRetry cfg" by (simp add: http_normal_def)
  moreover have "http_NormalizeAndValidate L parse_uri cfg = (http_normal cfg, None)" by (rule http_Normalize_ok [OF v])
  ultimately show ?thesis
    using assms(2) by (auto simp: http_New_def http_appendPolicies_def AppendPolicies_def Let_def split: if_splits)
qed

lemma NewEdgeHTTP_client:
  assumes "oops_ok L" and "oapply_ok ap'" and "edgeOptions (Apply ap defaultEdgeHTTPPreset opts) = []"
    and "NewEdgeHTTP L F Y parse_uri ap ap' s cfg opts = (Some c, None)"
  defines "p \<equiv> Apply ap defaultEdgeHTTPPreset opts"
  defines "r \<equiv> httpRetry (tuneEdgeHTTPConfig cfg p)"
  shows "http_valid parse_uri (http_normal (tuneEdgeHTTPConfig cfg p)) \<and> httpHooks c = [] \<and>
    filterPolicies (httpPolicies c) =
      (if RetryEnabled r then [NewRetryPolicy F (http_retry_config F r)] else []) @
      guard_and_limit L s (edgeTimeoutGuard p) (edgeConcurrencyLimit p)"
proof -
  have new: "http_New L F Y parse_uri ap' (tuneEdgeHTTPConfig cfg p) (buildEdgeHTTPOptions L s p) = (Some c, None)"
    using assms(4) by (auto simp: NewEdgeHTTP_def Let_def p_def split: if_splits prod.splits)
  then show ?thesis
    using http_New_client [OF assms(1) new] assms(3) unfolding p_def [symmetric] r_def
    by (auto simp: Apply_eq [OF assms(2)] buildEdgeHTTPOptions_def guard_and_limit_def filterPolicies_def
        http_WithTimeoutGuard_def http_WithConcurrencyLimit_def http_appendPolicies_def AppendPolicies_def)
qed

lemma tcp_New_client:
  assumes "oops_ok L" and "tcp_New L ap cfg opts = (Some c, None)"
  shows "tcp_valid (tcp_normal cfg) \<and> c = Apply ap \<lparr>tcpCfg = tcp_normal cfg, tcpHooks = [], tcpPolicies = []\<rparr> opts"
proof (cases "tcp_valid (tcp_normal cfg)")
  case True
  then show ?thesis using assms(2) tcp_Normalize_ok [OF True, of L] by (simp add: tcp_New_def)
next
  case False
  then obtain as msg where "tcp_NormalizeAndValidate L cfg = tcp_invalid L as msg" by (rule tcp_Normalize_fails)
  then show ?thesis using assms(2) tcp_invalid_error [OF assms(1), of as msg]
    by (auto simp: tcp_New_def tcp_ErrInvalidConfig_def split: prod.splits if_splits)
qed

lemma NewInternalRPC_client:
  assumes "oops_ok L" and "oapply_ok ap'" and "rpcOptions (Apply ap (defaultInternalRPCPreset F) opts) = []"
    and "NewInternalRPC L F ap ap' s cfg opts = (Some c, None)"
  defines "p \<equiv> Apply ap (defaultInternalRPCPreset F) opts"
  shows "tcpCfg c = tcp_normal (tuneInternalRPCConfig cfg p) \<and> tcpHooks c = [] \<and>
    filterPolicies (tcpPolicies c) = guard_and_limit L s (rpcTimeoutGuard p) (rpcConcurrencyLimit p) @
      (if rpcDisableRetry p then [] else [NewRetryPolicy F (rpcRetryPolicy p)])"
proof -
  have new: "tcp_New L ap' (tuneInternalRPCConfig cfg p) (buildInternalRPCOptions L F s p) = (Some c, None)"
    using assms(4) by (auto simp: NewInternalRPC_def Let_def p_def split: if_splits prod.splits)
  then show ?thesis
    using tcp_New_client [OF assms(1) new] assms(3) unfolding p_def [symmetric]
    by (auto simp: Apply_eq [OF assms(2)] buildInternalRPCOptions_def guard_and_limit_def filterPolicies_def
        tcp_WithTimeoutGuard_def tcp_WithConcurrencyLimit_def tcp_WithPolicies_def AppendPolicies_def)
qed

lemma udp_New_client:
  assumes "oops_ok L" and "udp_New L ap cfg opts = (Some c, None)"
  shows "udp_valid (udp_normal cfg) \<and> c = Apply ap \<lparr>udpCfg = udp_normal cfg, udpHooks = [], udpPolicies = []\<rparr> opts"
  using udp_Normalize_cases [of cfg L] assms(2) udp_invalid_error [OF assms(1)]
  by (fastforce simp: udp_New_def udp_ErrInvalidConfig_def split: prod.splits if_splits)

lemma NewLowLatencyUDP_client:
  assumes "oops_ok L" and "oapply_ok ap'" and "lowOptions (Apply ap defaultLowLatencyUDPPreset opts) = []"
    and "NewLowLatencyUDP L ap ap' s cfg opts = (Some c, None)"
  defines "p \<equiv> Apply ap defaultLowLatencyUDPPreset opts"
  shows "udpCfg c = udp_normal (tuneLowLatencyUDPConfig cfg p) \<and> udpHooks c = [] \<and>
    filterPolicies (udpPolicies c) = guard_and_limit L s (lowTimeoutGuard p) (lowConcurrencyLimit p)"
proof -
  have new: "udp_New L ap' (tuneLowLatencyUDPConfig cfg p) (buildLowLatencyUDPOptions L s p) = (Some c, None)"
    using assms(4) by (auto simp: NewLowLatencyUDP_def Let_def p_def split: if_splits prod.splits)
  then show ?thesis
    using udp_New_client [OF assms(1) new] assms(3) unfolding p_def [symmetric]
    by (auto simp: Apply_eq [OF assms(2)] buildLowLatencyUDPOptions_def guard_and_limit_def filterPolicies_def
        udp_WithTimeoutGuard_def udp_WithConcurrencyLimit_def AppendPolicies_def)
qed

section \<open>What is accepted\<close>

definition constructed :: "bool \<Rightarrow> go_error \<Rightarrow> 'c option \<times> go_error option \<Rightarrow> bool" where
  "constructed valid invalid r \<longleftrightarrow>
     (if valid then \<exists>c. r = (Some c, None) else fst r = None \<and> errors_is (snd r) invalid)"

lemma errors_is_not_None: "errors_is e x \<Longrightarrow> \<exists>y. e = Some y"
  by (cases e) simp_all

lemma constructed_wrap:
  assumes "oops_ok L" and "constructed valid e r" and "\<not> is_foreign e"
  shows "constructed valid e (case r of (client, err) \<Rightarrow>
    if err \<noteq> None then (None, oops_wrapf L d as err msg) else (client, None))"
  using assms by (cases r; cases valid; auto simp: constructed_def dest: errors_is_not_None)

lemma http_New_constructed:
  assumes "oops_ok L"
  shows "constructed (http_valid parse_uri (http_normal cfg)) http_ErrInvalidConfig (http_New L F Y parse_uri ap cfg opts)"
  using http_Normalize_ok [of parse_uri cfg L] http_Normalize_fails [OF assms, of parse_uri cfg]
  by (cases "http_NormalizeAndValidate L parse_uri cfg"; cases "http_valid parse_uri (http_normal cfg)";
      auto simp: constructed_def http_New_def Let_def http_ErrInvalidConfig_def
        dest: errors_is_not_None)

lemma tcp_New_constructed:
  assumes "oops_ok L"
  shows "constructed (tcp_valid (tcp_normal cfg)) tcp_ErrInvalidConfig (tcp_New L ap cfg opts)"
proof (cases "tcp_valid (tcp_normal cfg)")
  case True
  then show ?thesis using tcp_Normalize_ok [OF True, of L] by (simp add: constructed_def tcp_New_def)
next
  case False
  then obtain as msg where "tcp_NormalizeAndValidate L cfg = tcp_invalid L as msg" by (rule tcp_Normalize_fails)
  then show ?thesis using False tcp_invalid_error [OF assms, of as msg]
    by (cases "tcp_invalid L as msg") (auto simp: constructed_def tcp_New_def tcp_ErrInvalidConfig_def)
qed

lemma udp_New_constructed:
  assumes "oops_ok L"
  shows "constructed (udp_valid (udp_normal cfg)) udp_ErrInvalidConfig (udp_New L ap cfg opts)"
  using udp_Normalize_cases [of cfg L] udp_invalid_error [OF assms]
  by (cases "udp_NormalizeAndValidate L cfg") (fastforce simp: constructed_def udp_New_def udp_ErrInvalidConfig_def)

lemma NewEdgeHTTP_constructed:
  assumes "oops_ok L"
  shows "constructed (http_valid parse_uri (http_normal (tuneEdgeHTTPConfig cfg (Apply ap defaultEdgeHTTPPreset opts))))
    http_ErrInvalidConfig (NewEdgeHTTP L F Y parse_uri ap ap' s cfg opts)"
  unfolding NewEdgeHTTP_def Let_def
  by (rule constructed_wrap [OF assms http_New_constructed [OF assms]]) (simp add: http_ErrInvalidConfig_def)

lemma NewInternalRPC_constructed:
  assumes "oops_ok L"
  shows "constructed (tcp_valid (tcp_normal (tuneInternalRPCConfig cfg (Apply ap (defaultInternalRPCPreset F) opts))))
    tcp_ErrInvalidConfig (NewInternalRPC L F ap ap' s cfg opts)"
  unfolding NewInternalRPC_def Let_def
  by (rule constructed_wrap [OF assms tcp_New_constructed [OF assms]]) (simp add: tcp_ErrInvalidConfig_def)

lemma NewLowLatencyUDP_constructed:
  assumes "oops_ok L"
  shows "constructed (udp_valid (udp_normal (tuneLowLatencyUDPConfig cfg (Apply ap defaultLowLatencyUDPPreset opts))))
    udp_ErrInvalidConfig (NewLowLatencyUDP L ap ap' s cfg opts)"
  unfolding NewLowLatencyUDP_def Let_def
  by (rule constructed_wrap [OF assms udp_New_constructed [OF assms]]) (simp add: udp_ErrInvalidConfig_def)

text \<open>
  C27: a preset makes a client exactly when the configuration, tuned by the preset and then normalised, is
  valid; otherwise it makes none, and its error is recognised as the \<open>ErrInvalidConfig\<close> of the transport.
\<close>

theorem presets_accept:
  assumes "oops_ok L"
  shows "constructed (http_valid parse_uri (http_normal (tuneEdgeHTTPConfig hcfg (Apply hap defaultEdgeHTTPPreset hopts))))
       http_ErrInvalidConfig (NewEdgeHTTP L F Y parse_uri hap hap' s hcfg hopts) \<and>
     constructed (tcp_valid (tcp_normal (tuneInternalRPCConfig tcfg (Apply tap (defaultInternalRPCPreset F) topts))))
       tcp_ErrInvalidConfig (NewInternalRPC L F tap tap' s tcfg topts) \<and>
     constructed (udp_valid (udp_normal (tuneLowLatencyUDPConfig ucfg (Apply uap defaultLowLatencyUDPPreset uopts))))
       udp_ErrInvalidConfig (NewLowLatencyUDP L uap uap' s ucfg uopts)"
  using NewEdgeHTTP_constructed [OF assms] NewInternalRPC_constructed [OF assms] NewLowLatencyUDP_constructed [OF assms]
  by blast

section \<open>Calls come back\<close>

lemma guard_and_limit_split:
  assumes "0 < t"
  obtains post where "guard_and_limit L s t n = NewTimeoutPolicy t # post"
    and "\<forall>p \<in> set post. bounded_policy p" and "\<And>m. \<forall>p \<in> set post. stops_at m p"
  using that [of "if 0 < n then [NewConcurrencyLimitPolicy L s n] else []"] assms
  by (simp add: guard_and_limit_def bounded_limit stops_at_limit split: if_splits)

text \<open>
  A dial of an internal RPC client comes back, even when all its slots are taken for ever and the peer is
  never reached: the timeout guard is there by default and comes before the limit, and the retries are
  bounded. What is outside must come back: the dialer, the random source, a predicate of the caller's.
\<close>

theorem internal_rpc_dial_returns:
  fixes w :: "'u world_scheme"
  assumes "oops_ok L" and "oapply_ok ap'" and "NewInternalRPC L F ap ap' s cfg opts = (Some c, None)"
    and "p = Apply ap (defaultInternalRPCPreset F) opts" and "rpcOptions p = []" and "0 < rpcTimeoutGuard p"
    and "returns (f_rand F)" and "\<forall>f err. Retryable (rpcRetryPolicy p) = Some f \<longrightarrow> returns (f err)"
    and "\<And>tls t k execCtx network addr. returns (net_dial N tls t k execCtx network addr)"
  shows "tcp_Dial L N c ctx w \<noteq> None"
proof -
  let ?retry = "NewRetryPolicy F (rpcRetryPolicy p)" and ?n = "maxAttempts (newRetryPolicy F (rpcRetryPolicy p))"
  obtain post :: "'u world_scheme policy list" where post: "guard_and_limit L s (rpcTimeoutGuard p) (rpcConcurrencyLimit p) = NewTimeoutPolicy (rpcTimeoutGuard p) # post"
      "\<forall>q \<in> set post. bounded_policy q" "\<forall>q \<in> set post. stops_at ?n q"
    using guard_and_limit_split [OF assms(6)] by metis
  have c: "tcpHooks c = []" "filterPolicies (tcpPolicies c) =
      [] @ NewTimeoutPolicy (rpcTimeoutGuard p) # (post @ (if rpcDisableRetry p then [] else [?retry]))"
    using NewInternalRPC_client [OF assms(1,2) assms(5) [unfolded assms(4)] assms(3)] post(1) by (simp_all add: assms(4))
  have "bounded_policy ?retry" and "stops_at ?n ?retry"
    using bounded_retry [OF returns_NewRetryPolicy [OF assms(7,8)]] stops_at_NewRetryPolicy by blast+
  moreover have "returns (tcp_dialOnce L N c execCtx)" for execCtx
    unfolding tcp_dialOnce_open by (rule returns_open_once) (simp_all add: tcp_dialer_def assms(9) c(1) EmitDial_def)
  ultimately show ?thesis
    unfolding tcp_Dial_call using post(2,3) by (intro guarded_client_returns [OF assms(1,6) c(2), where n = ?n]) auto
qed

text \<open>The same for the two ways to open a low-latency UDP client.\<close>

theorem low_latency_udp_returns:
  fixes w :: "'u world_scheme"
  assumes "oops_ok L" and "oapply_ok ap'" and "NewLowLatencyUDP L ap ap' s cfg opts = (Some c, None)"
    and "p = Apply ap defaultLowLatencyUDPPreset opts" and "lowOptions p = []" and "0 < lowTimeoutGuard p"
    and "\<And>tls t k execCtx network addr. returns (net_dial N tls t k execCtx network addr)"
    and "\<And>execCtx network addr. returns (net_listen N execCtx network addr)"
  shows "udp_Dial L N c ctx w \<noteq> None \<and> udp_ListenPacket L N c ctx w \<noteq> None"
proof -
  obtain post :: "'u world_scheme policy list" where post: "guard_and_limit L s (lowTimeoutGuard p) (lowConcurrencyLimit p) = NewTimeoutPolicy (lowTimeoutGuard p) # post"
      "\<forall>q \<in> set post. bounded_policy q" "\<forall>q \<in> set post. stops_at 0 q"
    using guard_and_limit_split [OF assms(6)] by metis
  have c: "udpHooks c = []" "filterPolicies (udpPolicies c) = [] @ NewTimeoutPolicy (lowTimeoutGuard p) # post"
    using NewLowLatencyUDP_client [OF assms(1,2) assms(5) [unfolded assms(4)] assms(3)] post(1) by (simp_all add: assms(4))
  have "returns (udp_dialOnce L N c execCtx)" "returns (udp_listenOnce L N c execCtx)" for execCtx
    unfolding udp_dialOnce_open udp_listenOnce_open
    by (rule returns_open_once; simp add: assms(7,8) c(1) EmitDial_def)+
  moreover have "client_call L once fail ctx operation (udpPolicies c) w \<noteq> None" if "\<And>x. returns (once x)"
    for once fail operation using post(2,3) that by (intro guarded_client_returns [OF assms(1,6) c(2), where n = 0]) auto
  ultimately show ?thesis using udp_Dial_call [of L N c ctx] udp_ListenPacket_call [of L N c ctx] by metis
qed

text \<open>And for the requests of an edge client, whose retries come before the guard.\<close>

lemma returns_http_executeOnce:
  assumes "httpHooks c = []" and "\<And>x. returns (resty_R Y x)" and "\<And>x q. returns (SetContext Y x q)"
    and "\<And>q m e. returns (resty_Execute Y q m e)"
  shows "returns (http_executeOnce L Y c req method endpoint op addr execCtx)"
proof -
  have "returns (EmitIO [] event)" for event by (simp add: EmitIO_def)
  moreover have "returns (case req of Some q \<Rightarrow> pret q | None \<Rightarrow> http_R Y c)"
    using assms(2) by (auto simp: http_R_def split: option.split)
  ultimately show ?thesis
    unfolding http_executeOnce_def Let_def assms(1)
    using assms(3,4) by (intro returns_pbind) (auto intro!: returns_pbind split: prod.split)
qed

theorem edge_execute_returns:
  fixes w :: "'u world_scheme"
  assumes "oops_ok L" and "oapply_ok ap'" and "NewEdgeHTTP L F Y parse_uri ap ap' s cfg opts = (Some c, None)"
    and "p = Apply ap defaultEdgeHTTPPreset opts" and "edgeOptions p = []" and "0 < edgeTimeoutGuard p"
    and "returns (f_rand F)" and "\<And>x. returns (resty_R Y x)" and "\<And>x q. returns (SetContext Y x q)"
    and "\<And>q m e. returns (resty_Execute Y q m e)"
  shows "http_Execute L Y c ctx req method endpoint w \<noteq> None"
proof -
  let ?r = "httpRetry (tuneEdgeHTTPConfig cfg p)"
  let ?retry = "NewRetryPolicy F (http_retry_config F ?r)" and ?n = "maxAttempts (newRetryPolicy F (http_retry_config F ?r))"
  let ?pre = "if RetryEnabled ?r then [?retry] else []"
  obtain post :: "'u world_scheme policy list" where post: "guard_and_limit L s (edgeTimeoutGuard p) (edgeConcurrencyLimit p) =
      NewTimeoutPolicy (edgeTimeoutGuard p) # post" "\<forall>q \<in> set post. bounded_policy q" "\<forall>q \<in> set post. stops_at ?n q"
    using guard_and_limit_split [OF assms(6)] by metis
  have c: "httpHooks c = []" "filterPolicies (httpPolicies c) = ?pre @ NewTimeoutPolicy (edgeTimeoutGuard p) # post"
    using NewEdgeHTTP_client [OF assms(1,2) assms(5) [unfolded assms(4)] assms(3)] post(1) by (simp_all add: assms(4))
  have "policy_returns ?retry" by (rule returns_NewRetryPolicy [OF assms(7)]) (simp add: http_retry_config_def)
  then show ?thesis
    unfolding http_Execute_call Let_def
    using post(2,3) stops_at_NewRetryPolicy [of F "http_retry_config F ?r"]
    by (intro guarded_client_returns [OF assms(1,6) c(2), where n = ?n] returns_http_executeOnce [OF c(1) assms(8-10)]) auto
qed

section \<open>At the defaults\<close>

text \<open>For the witnesses: the sample configurations are valid, tuned or not, and the presets accept them.\<close>

lemma sample_trim: "trim_space '' h:1 '' = ''h:1''" "trim_space [] = []" "trim_space ''http://h/'' = ''http://h/''"
  "trim_space ''arcgolabs-clientx/edge-http'' = ''arcgolabs-clientx/edge-http''"
  by code_simp+

lemma sample_presets_valid:
  "tcp_valid (tcp_normal (tuneInternalRPCConfig sample_tcp_Config (defaultInternalRPCPreset F)))"
  "udp_valid (udp_normal (tuneLowLatencyUDPConfig sample_udp_Config defaultLowLatencyUDPPreset))"
  "http_valid (\<lambda>_. None) (http_normal (tuneEdgeHTTPConfig http_zero_Config defaultEdgeHTTPPreset))"
  by (simp_all add: tcp_valid_def tcp_normal_def tuneInternalRPCConfig_def sample_tcp_Config_def tcp_zero_Config_def
      defaultInternalRPCPreset_def udp_valid_def udp_normal_def tuneLowLatencyUDPConfig_def sample_udp_Config_def
      udp_zero_Config_def defaultLowLatencyUDPPreset_def http_valid_def http_normal_def tuneEdgeHTTPConfig_def
      http_zero_Config_def defaultEdgeHTTPPreset_def isZeroRetryConfig_def hasRetryHint_def sample_trim has_prefix_def Let_def)

lemma sample_preset_invalid:
  "\<not> tcp_valid (tcp_normal (tuneInternalRPCConfig tcp_zero_Config (defaultInternalRPCPreset F)))"
  by (simp add: tcp_valid_def tcp_normal_def tuneInternalRPCConfig_def tcp_zero_Config_def
      defaultInternalRPCPreset_def sample_trim Let_def)

theorem presets_accept_witness:
  "(\<exists>c. NewInternalRPC plain_lib (binary64 0 :: (rat, net_world) float64) apply_all apply_all 7 sample_tcp_Config [] = (Some c, None)) \<and>
   fst (NewInternalRPC plain_lib (binary64 0 :: (rat, net_world) float64) apply_all apply_all 7 tcp_zero_Config []) = None"
  using presets_accept [where F = "binary64 0 :: (rat, net_world) float64" and tap = apply_all and tap' = apply_all and s = 7
      and tcfg = sample_tcp_Config and topts = "[]", OF plain_lib_ok, THEN conjunct2, THEN conjunct1]
    presets_accept [where F = "binary64 0 :: (rat, net_world) float64" and tap = apply_all and tap' = apply_all and s = 7
      and tcfg = tcp_zero_Config and topts = "[]", OF plain_lib_ok, THEN conjunct2, THEN conjunct1]
  by (simp add: constructed_def Apply_def sample_presets_valid sample_preset_invalid)

lemma sample_presets:
  "\<exists>c. NewInternalRPC plain_lib F apply_all apply_all s sample_tcp_Config [] = (Some c, None)"
  "\<exists>c. NewLowLatencyUDP plain_lib apply_all apply_all s sample_udp_Config [] = (Some c, None)"
  "\<exists>c. NewEdgeHTTP plain_lib F Y (\<lambda>_. None) apply_all apply_all s http_zero_Config [] = (Some c, None)"
  using NewInternalRPC_constructed [OF plain_lib_ok, where cfg = sample_tcp_Config and ap = apply_all and F = F and opts = "[]" and ap' = apply_all and s = s]
    NewLowLatencyUDP_constructed [OF plain_lib_ok, where cfg = sample_udp_Config and ap = apply_all and opts = "[]" and ap' = apply_all and s = s]
    NewEdgeHTTP_constructed [OF plain_lib_ok, where parse_uri = "\<lambda>_. None" and cfg = http_zero_Config and ap = apply_all and
      opts = "[]" and F = F and Y = Y and ap' = apply_all and s = s]
  by (simp_all add: constructed_def Apply_def sample_presets_valid)

theorem internal_rpc_dial_returns_witness:
  "\<exists>c. NewInternalRPC plain_lib (binary64 0) apply_all apply_all 7 sample_tcp_Config [] = (Some c, None) \<and>
    tcp_Dial plain_lib mem_net c None ((net_start [])\<lparr>sems := \<lambda>_. 512\<rparr>) \<noteq> None"
proof -
  obtain c :: "net_world tcp_DefaultClient" where
    c: "NewInternalRPC plain_lib (binary64 0) apply_all apply_all 7 sample_tcp_Config [] = (Some c, None)"
    using sample_presets(1) by blast
  have "tcp_Dial plain_lib mem_net c None ((net_start [])\<lparr>sems := \<lambda>_. 512\<rparr>) \<noteq> None"
    by (rule internal_rpc_dial_returns [OF plain_lib_ok apply_all_ok c refl])
      (simp_all add: Apply_def defaultInternalRPCPreset_def mem_net_def)
  then show ?thesis using c by blast
qed

theorem low_latency_udp_returns_witness:
  "\<exists>c. NewLowLatencyUDP plain_lib apply_all apply_all 7 sample_udp_Config [] = (Some c, None) \<and>
    udp_Dial plain_lib mem_packet_net c None ((packet_start [])\<lparr>sems := \<lambda>_. 1024\<rparr>) \<noteq> None"
proof -
  obtain c :: "packet_world udp_DefaultClient" where
    c: "NewLowLatencyUDP plain_lib apply_all apply_all 7 sample_udp_Config [] = (Some c, None)"
    using sample_presets(2) by blast
  have "udp_Dial plain_lib mem_packet_net c None ((packet_start [])\<lparr>sems := \<lambda>_. 1024\<rparr>) \<noteq> None \<and>
      udp_ListenPacket plain_lib mem_packet_net c None ((packet_start [])\<lparr>sems := \<lambda>_. 1024\<rparr>) \<noteq> None"
    by (rule low_latency_udp_returns [OF plain_lib_ok apply_all_ok c refl])
      (simp_all add: Apply_def defaultLowLatencyUDPPreset_def mem_packet_net_def)
  then show ?thesis using c by blast
qed

section \<open>How many requests an edge client sends\<close>

lemma extension_keeps_guard_and_limit:
  "extension_only f \<Longrightarrow> \<forall>q \<in> set (guard_and_limit L s t n). policy_keeps f q \<and> stops_at m q"
  by (auto simp: guard_and_limit_def extension_keeps_timeout extension_keeps_limit stops_at_limit stops_at_NewTimeoutPolicy)

text \<open>
  C11: however requests fail, a call of an edge client sends at most one more of them than the tuned
  configuration has retries, and only one when its retries are off: three by default.
\<close>

theorem edge_request_budget:
  assumes "oops_ok L" and "oapply_ok ap'" and "NewEdgeHTTP L F Y parse_uri ap ap' s cfg opts = (Some c, None)"
    and "p = Apply ap defaultEdgeHTTPPreset opts" and "edgeOptions p = []"
    and "r = httpRetry (tuneEdgeHTTPConfig cfg p)" and "MaxRetries r < 2 ^ 63 - 1"
    and "extension_only count" and "counts_requests count Y" and "keeps count (f_rand F)"
    and "http_Execute L Y c ctx req method endpoint w = Some (Ret x, w')"
  shows "count w' \<le> count w + (if RetryEnabled r then nat (MaxRetries r) + 1 else 1)"
proof -
  let ?n = "if RetryEnabled r then MaxRetries r + 1 else 1"
  have c: "http_valid parse_uri (http_normal (tuneEdgeHTTPConfig cfg p))" "httpHooks c = []"
    "filterPolicies (httpPolicies c) = (if RetryEnabled r then [NewRetryPolicy F (http_retry_config F r)] else []) @
      guard_and_limit L s (edgeTimeoutGuard p) (edgeConcurrencyLimit p)"
    using NewEdgeHTTP_client [OF assms(1,2) assms(5) [unfolded assms(4)] assms(3)] by (simp_all add: assms(4,6))
  have "0 \<le> MaxRetries r" using c(1) by (simp add: http_valid_def http_normal_def assms(6))
  then have "maxAttempts (newRetryPolicy F (http_retry_config F r)) = MaxRetries r + 1"
    using assms(7) by (simp add: newRetryPolicy_maxAttempts http_retry_config_def wrap_int_id)
  then have "stops_at (MaxRetries r + 1) (NewRetryPolicy F (http_retry_config F r))"
    using stops_at_NewRetryPolicy by metis
  moreover have "policy_keeps count (NewRetryPolicy F (http_retry_config F r))"
    by (rule keeps_NewRetryPolicy [OF assms(10)]) (simp add: http_retry_config_def)
  ultimately have "\<forall>q \<in> set (filterPolicies (httpPolicies c)). policy_keeps count q \<and> stops_at ?n q"
    unfolding c(3) using extension_keeps_guard_and_limit [OF assms(8)] by auto
  then have "\<forall>q. Some q \<in> set (httpPolicies c) \<longrightarrow> policy_keeps count q \<and> stops_at ?n q"
    by (force simp: filterPolicies_def)
  then have "count w' \<le> count w + nat (?n - 1) + 1"
    by (intro http_call_budget [OF assms(9) _ _ _ assms(11)]) (auto simp: c(2) clock_free_def intro: extension_onlyD [OF assms(8)])
  then show ?thesis using \<open>0 \<le> MaxRetries r\<close> by (cases "RetryEnabled r") simp_all
qed

lemma sample_retry_config:
  "http_retry_config (binary64 0) (edgeRetry defaultEdgeHTTPPreset) =
     \<lparr>MaxAttempts = 3, BaseDelay = 50 * millisecond, MaxDelay = 250 * millisecond, Multiplier = 0, JitterRatio = 0,
      Retryable = None\<rparr>"
  by (simp add: http_retry_config_def defaultEdgeHTTPPreset_def wrap_int_def)

definition sample_edge_Config :: http_Config where
  "sample_edge_Config = http_zero_Config\<lparr>httpTimeout := 5 * second, httpUserAgent := ''arcgolabs-clientx/edge-http'',
     httpRetry := \<lparr>RetryEnabled = True, MaxRetries = 2, WaitMin = 50 * millisecond, WaitMax = 250 * millisecond\<rparr>\<rparr>"

lemma sample_edge_tuned: "tuneEdgeHTTPConfig http_zero_Config defaultEdgeHTTPPreset = sample_edge_Config"
  by (simp add: tuneEdgeHTTPConfig_def http_zero_Config_def defaultEdgeHTTPPreset_def isZeroRetryConfig_def sample_trim
      sample_edge_Config_def Let_def)

lemma sample_edge_client:
  "NewEdgeHTTP plain_lib F (count_resty fate) (\<lambda>_. None) apply_all apply_all s http_zero_Config [] =
     (Some \<lparr>httpRaw = Some (), httpBase = [], httpHooks = [],
        httpPolicies = [Some (NewRetryPolicy F (http_retry_config F (httpRetry sample_edge_Config))),
          Some (NewTimeoutPolicy (4 * second)), Some (NewConcurrencyLimitPolicy plain_lib s 256)]\<rparr>, None)"
proof -
  have t: "http_normal sample_edge_Config = sample_edge_Config"
    by (simp add: sample_edge_Config_def http_normal_def http_zero_Config_def sample_trim)
  have n: "http_NormalizeAndValidate plain_lib (\<lambda>_. None) sample_edge_Config = (sample_edge_Config, None)"
    using http_Normalize_ok [OF sample_presets_valid(3)] unfolding sample_edge_tuned t .
  have "RetryEnabled (httpRetry sample_edge_Config)" "httpBaseURL sample_edge_Config = []"
    by (simp_all add: sample_edge_Config_def http_zero_Config_def)
  moreover have "http_resty (count_resty fate) cfg = ()" for cfg by simp
  ultimately show ?thesis
    by (simp add: NewEdgeHTTP_def http_New_def Apply_def n sample_edge_tuned buildEdgeHTTPOptions_def
        http_appendPolicies_def AppendPolicies_def http_WithTimeoutGuard_def http_WithConcurrencyLimit_def
        defaultEdgeHTTPPreset_def [THEN arg_cong [where f = edgeTimeoutGuard]]
        defaultEdgeHTTPPreset_def [THEN arg_cong [where f = edgeConcurrencyLimit]]
        defaultEdgeHTTPPreset_def [THEN arg_cong [where f = edgeOptions]])
qed

definition fail_once :: "nat \<Rightarrow> go_error option" where
  "fail_once n = (if n = 0 then Some CtxDeadline else None)"

lemma sample_edge_run:
  "\<exists>w'. http_Execute plain_lib (count_resty fail_once)
      \<lparr>httpRaw = Some (), httpBase = [], httpHooks = [],
        httpPolicies = [Some (NewRetryPolicy (binary64 0) (http_retry_config (binary64 0) (httpRetry sample_edge_Config))),
          Some (NewTimeoutPolicy (4 * second)), Some (NewConcurrencyLimitPolicy plain_lib 7 256)]\<rparr>
      None None ''GET'' ''/x'' http_start = Some (Ret (Some ''ok'', None), w') \<and> requests w' = 2"
proof -
  let ?e = "http_wrapClientError plain_lib (http_op ''GET'') (http_resolveAddr [] ''/x'') (Some CtxDeadline)"
  obtain e where e: "?e = Some e" using http_wrapClientError_Some [OF plain_lib_ok] by blast
  have "errors_is ?e CtxDeadline" "\<not> errors_is ?e CtxCanceled"
    by (simp_all add: http_wrapClientError_is errors_is_Some)
  then show ?thesis
    unfolding e
    by (simp add: e http_run_simps invokeLoop.simps [of plain_lib Background] fail_once_def callPolicyBefore_def
        callPolicyAfter_def wrapPolicyBeforeError_def wrapPolicyAfterError_def retryOrReturn_def decideRetry_def
        callShouldRetry_def NewRetryPolicy_def retryShouldRetry_def newRetryPolicy_def http_retry_config_def
        sample_edge_Config_def backoffDelay_def ctx_err_def sleepWithContext_def trunc_rat_def
        NewConcurrencyLimitPolicy_eq limitBefore_def limit_select_def limitAfter_def timeoutBefore_def timeoutAfter_def
        with_timeout_def cancel_ctx_def wrap_int_def defaultRetryable_def millisecond_def second_def)
qed

lemma count_resty_counts: "counts_requests requests (count_resty fate)"
  by (simp add: counts_requests_def count_resty_def)

lemma extension_requests: "extension_only (requests :: http_world \<Rightarrow> nat)"
proof -
  have "requests w = requests v" if "world.more w = world.more v" for w v :: http_world
    using that by (cases w; cases v) simp
  then show ?thesis unfolding extension_only_def by blast
qed

theorem edge_request_budget_witness:
  "\<exists>c w'. NewEdgeHTTP plain_lib (binary64 0) (count_resty fail_once) (\<lambda>_. None) apply_all apply_all 7
        http_zero_Config [] = (Some c, None) \<and>
    http_Execute plain_lib (count_resty fail_once) c None None ''GET'' ''/x'' http_start = Some (Ret (Some ''ok'', None), w') \<and>
    requests w' = 2 \<and> requests w' \<le> requests http_start + 3"
proof -
  obtain c :: "(unit, http_world) http_DefaultClient" and w' where
    c: "NewEdgeHTTP plain_lib (binary64 0) (count_resty fail_once) (\<lambda>_. None) apply_all apply_all 7
        http_zero_Config [] = (Some c, None)"
    and run: "http_Execute plain_lib (count_resty fail_once) c None None ''GET'' ''/x'' http_start = Some (Ret (Some ''ok'', None), w')"
    and n: "requests w' = 2"
    using sample_edge_client [of "binary64 0" fail_once 7] sample_edge_run by blast
  have "requests w' \<le> requests http_start + (if RetryEnabled (httpRetry sample_edge_Config)
      then nat (MaxRetries (httpRetry sample_edge_Config)) + 1 else 1)"
    by (rule edge_request_budget [OF plain_lib_ok apply_all_ok c refl _ _ _ extension_requests count_resty_counts _ run])
      (simp_all add: Apply_def sample_edge_tuned, simp_all add: defaultEdgeHTTPPreset_def sample_edge_Config_def)
  then show ?thesis using c run n by (fastforce simp: sample_edge_Config_def)
qed

theorem edge_execute_returns_witness:
  "\<exists>c. NewEdgeHTTP plain_lib (binary64 0) (count_resty fail_once) (\<lambda>_. None) apply_all apply_all 7
        http_zero_Config [] = (Some c, None) \<and>
    http_Execute plain_lib (count_resty fail_once) c None None ''GET'' ''/x'' (http_start\<lparr>sems := \<lambda>_. 256\<rparr>) \<noteq> None"
proof -
  obtain c :: "(unit, http_world) http_DefaultClient" where
    c: "NewEdgeHTTP plain_lib (binary64 0) (count_resty fail_once) (\<lambda>_. None) apply_all apply_all 7
        http_zero_Config [] = (Some c, None)"
    using sample_edge_client [of "binary64 0" fail_once 7] by blast
  have "http_Execute plain_lib (count_resty fail_once) c None None ''GET'' ''/x'' (http_start\<lparr>sems := \<lambda>_. 256\<rparr>) \<noteq> None"
    by (rule edge_execute_returns [OF plain_lib_ok apply_all_ok c refl])
      (simp_all add: Apply_def defaultEdgeHTTPPreset_def count_resty_def returns_def)
  then show ?thesis using c by blast
qed

end
