(* ===== verification/Call_Time.thy ===== *)
theory Call_Time
  imports Bounded_Wait
begin

text \<open>
  How long a call takes. With the policies of the library a call ends by the deadline of its caller,
  whatever fails and however often it is tried; without one, a timeout guard and a bound on the attempts
  and on the waits between them bound it all the same. Time is that of the world's clock: what the
  network and the hooks take is their own, and named as a hypothesis.
\<close>

section \<open>Computations that end by an instant\<close>

definition ends_by :: "int \<Rightarrow> ('a, 'u world_scheme) prog \<Rightarrow> bool" where
  "ends_by D m \<longleftrightarrow> (\<forall>w r w'. m w = Some (r, w') \<longrightarrow> now w' \<le> max (now w) D)"

lemma ends_byI [intro?]: "(\<And>w r w'. m w = Some (r, w') \<Longrightarrow> now w' \<le> max (now w) D) \<Longrightarrow> ends_by D m"
  by (simp add: ends_by_def)

lemma ends_byD: "ends_by D m \<Longrightarrow> m w = Some (r, w') \<Longrightarrow> now w' \<le> max (now w) D"
  unfolding ends_by_def by blast

lemma keeps_ends_by: "keeps now m \<Longrightarrow> ends_by D m"
  by (auto simp: ends_by_def dest: keepsD)

lemma ends_by_pret [simp, intro]: "ends_by D (pret a)"
  by (simp add: keeps_ends_by)

lemma ends_by_pbind':
  assumes "ends_by D m" and "\<And>w a w'. m w = Some (Ret a, w') \<Longrightarrow> ends_by D (k a)"
  shows "ends_by D (pbind m k)"
proof
  fix w r w'
  assume "pbind m k w = Some (r, w')"
  then show "now w' \<le> max (now w) D"
  proof (cases rule: pbind_eq_SomeE)
    case (1 a w1)
    then show ?thesis using ends_byD [OF assms(1) 1(1)] ends_byD [OF assms(2) [OF 1(1)] 1(2)] by linarith
  qed (use ends_byD [OF assms(1)] in blast)
qed

lemma ends_by_pbind: "ends_by D m \<Longrightarrow> (\<And>a. ends_by D (k a)) \<Longrightarrow> ends_by D (pbind m k)"
  by (rule ends_by_pbind')

text \<open>\<open>due_by D c\<close>: \<open>c\<close> is a context whose deadline is \<open>D\<close> or earlier.\<close>

definition due_by :: "int \<Rightarrow> ctx option \<Rightarrow> bool" where
  "due_by D c \<longleftrightarrow> (\<exists>x d. c = Some x \<and> ctx_deadline x = Some d \<and> d \<le> D)"

lemma due_by_has_deadline: "due_by D c \<Longrightarrow> has_deadline c"
  by (auto simp: due_by_def has_deadline_def)

lemma has_deadline_due_by: "has_deadline c \<Longrightarrow> \<exists>D. due_by D c"
  by (auto simp: due_by_def has_deadline_def)

lemma due_by_done:
  assumes "due_by D (Some c)"
  obtains t e where "ctx_done w c = Some (t, e)" "t \<le> D"
proof -
  have "due D (ctx_done w c)" using assms due_deadline by (auto simp: due_by_def)
  then show thesis using that by (auto simp: due_def split: option.splits)
qed

lemma sleep_due_by:
  assumes "due_by D (Some c)"
  shows "ends_by D (sleepWithContext L c operation attempt d)"
proof
  fix w r w'
  assume run: "sleepWithContext L c operation attempt d w = Some (r, w')"
  obtain t e where "ctx_done w c = Some (t, e)" "t \<le> D" using due_by_done [OF assms] .
  then show "now w' \<le> max (now w) D" using run
    by (auto simp: sleepWithContext_def Let_def split: if_splits)
qed

lemma sleep_time:
  assumes "sleepWithContext L c operation attempt d w = Some (r, w')"
  shows "now w' \<le> now w + max d 0"
  using assms by (auto simp: sleepWithContext_def Let_def split: if_splits option.splits)

section \<open>Policies that wait no longer than the context\<close>

definition prompt_policy :: "'u world_scheme policy \<Rightarrow> bool" where
  "prompt_policy p \<longleftrightarrow>
     later_returns p \<and> (\<forall>c operation e. keeps now (After p c operation e)) \<and> decider_keeps now p \<and>
     (\<forall>D c operation w. due_by D c \<longrightarrow>
        (\<exists>c' e w'. Before p c operation w = Some (Ret (c', e), w') \<and> now w' \<le> max (now w) D \<and>
          (e = None \<longrightarrow> c' = None \<or> due_by D c')))"

lemma prompt_BeforeD:
  assumes "prompt_policy p" and "due_by D c"
  obtains c' e w' where "Before p c operation w = Some (Ret (c', e), w')" "now w' \<le> max (now w) D"
    "e = None \<longrightarrow> c' = None \<or> due_by D c'"
  using assms unfolding prompt_policy_def by blast

lemma prompt_bounded: "prompt_policy p \<Longrightarrow> bounded_policy p"
proof (rule bounded_policyI)
  show "\<exists>c' e w'. Before p c operation w = Some (Ret (c', e), w') \<and> (e = None \<longrightarrow> c' = None \<or> has_deadline c')"
    if "prompt_policy p" "has_deadline c" for c operation w
  proof -
    obtain D where "due_by D c" using has_deadline_due_by \<open>has_deadline c\<close> by blast
    with \<open>prompt_policy p\<close> obtain c' e w' where "Before p c operation w = Some (Ret (c', e), w')"
      "e = None \<longrightarrow> c' = None \<or> due_by D c'" by (rule prompt_BeforeD)
    then show ?thesis using due_by_has_deadline by blast
  qed
qed (simp add: prompt_policy_def)

lemma prompt_keeps_After: "prompt_policy p \<Longrightarrow> keeps now (callPolicyAfter L c p operation e)"
  by (auto simp: prompt_policy_def callPolicyAfter_def intro!: keeps_precover keeps_pbind)

lemma prompt_call:
  assumes "oops_ok L" and "prompt_policy p" and "due_by D c"
    and "callPolicyBefore L c p operation w = Some (Ret (c', e), w')"
  shows "now w' \<le> max (now w) D \<and> (e = None \<longrightarrow> due_by D c')"
proof -
  obtain b x w1 where b: "Before p c operation w = Some (Ret (b, x), w1)" "now w1 \<le> max (now w) D"
    "x = None \<longrightarrow> b = None \<or> due_by D b" using assms(2,3) by (rule prompt_BeforeD)
  then show ?thesis using assms(1,3,4)
    by (cases x; cases b) (auto simp: callPolicyBefore_def wrapPolicyBeforeError_def prog_simps)
qed

lemma prompt_pass:
  assumes "oops_ok L"
  shows "\<forall>p \<in> set ps. prompt_policy p \<Longrightarrow> due_by D c \<Longrightarrow>
    applyBeforePolicies L c ps operation w = Some (Ret (c', applied, e), w') \<Longrightarrow>
    now w' \<le> max (now w) D \<and> (e = None \<longrightarrow> due_by D c')"
proof (induction ps arbitrary: c w applied)
  case (Cons p ps)
  have p: "prompt_policy p" using Cons.prems(1) by simp
  from Cons.prems(3) show ?case
  proof (cases rule: applyBeforePolicies_ConsE)
    case (refuse n err)
    then show ?thesis using prompt_call [OF assms p Cons.prems(2) refuse(1)] by simp
  next
    case (accept n w1 tl)
    have "now w1 \<le> max (now w) D \<and> due_by D n" using prompt_call [OF assms p Cons.prems(2) accept(1)] by simp
    moreover from this have "now w' \<le> max (now w1) D \<and> (e = None \<longrightarrow> due_by D c')"
      using Cons.IH [OF _ _ accept(2)] Cons.prems(1) by simp
    ultimately show ?thesis by linarith
  qed
qed simp

lemma prompt_keeps_afterPolicies:
  "\<forall>p \<in> set ps. prompt_policy p \<Longrightarrow> keeps now (afterPolicies L c ps operation e)"
  by (induction L c ps operation e rule: afterPolicies.induct)
    (auto intro!: keeps_pbind prompt_keeps_After split: prod.split)

lemma prompt_keeps_after:
  assumes "\<forall>p \<in> set ps. prompt_policy p" and "set applied \<subseteq> set ps"
  shows "keeps now (applyAfterPolicies L c applied operation e)"
  unfolding applyAfterPolicies_def by (rule prompt_keeps_afterPolicies) (use assms in auto)

lemma prompt_keeps_decide:
  "\<forall>p \<in> set ps. prompt_policy p \<Longrightarrow> keeps now (decideRetry c ps operation attempt err)"
  by (rule keeps_decideRetry) (simp add: prompt_policy_def)

section \<open>The policies of the library are prompt\<close>

lemma prompt_timeout: "prompt_policy (NewTimeoutPolicy t :: 'a world_scheme policy)"
proof -
  have keep: "policy_keeps now (NewTimeoutPolicy t :: 'a world_scheme policy)" by (rule keeps_NewTimeoutPolicy) simp_all
  have "\<exists>c' e w'. timeoutBefore t c operation w = Some (Ret (c', e), w') \<and> now w' \<le> max (now w) D \<and>
      (e = None \<longrightarrow> c' = None \<or> due_by D c')" if c: "due_by D c" for D c operation and w :: "'a world_scheme"
  proof -
    obtain x d where x: "c = Some x" "ctx_deadline x = Some d" "d \<le> D" using c unfolding due_by_def by blast
    obtain r w' where b: "timeoutBefore t c operation w = Some (r, w')"
      using returns_NewTimeoutPolicy [of t] unfolding policy_returns_def returns_def
      by (metis NewTimeoutPolicy_simps(1) not_None_eq old.prod.exhaust)
    from timeoutBefore_deadline [OF b] obtain c' where "r = Ret (Some c', None)" "now w' = now w"
      "ctx_deadline c' = (if t \<le> 0 then Some d else tighten (Some d) (now w + t))"
      using x by (auto simp: normalizeContext_def)
    then show ?thesis using b x(3) by (auto simp: due_by_def)
  qed
  then show ?thesis
    using keep policy_returns_later [OF returns_NewTimeoutPolicy [where ?'a = 'a and t = t]]
    by (simp add: prompt_policy_def decider_keeps_def policy_keeps_def)
qed

lemma limitBefore_time:
  assumes "due_by D c" and "limitBefore L (Some \<lparr>sem = Some (s, k)\<rparr>) c operation w = Some (r, w')"
  shows "now w' \<le> max (now w) D"
proof -
  obtain x where x: "c = Some x" "normalizeContext c = x"
    using assms(1) by (auto simp: due_by_def normalizeContext_def)
  obtain t e where "ctx_done w x = Some (t, e)" "t \<le> D" using due_by_done assms(1) x(1) by blast
  then show ?thesis
    using assms(2) x(2) by (auto simp: limitBefore_def limit_select_def Let_def split: if_splits)
qed

lemma prompt_limit: "prompt_policy (NewConcurrencyLimitPolicy L s n :: 'a world_scheme policy)"
proof -
  let ?p = "NewConcurrencyLimitPolicy L s n :: 'a world_scheme policy" and ?b = "limitBefore L (Some \<lparr>sem = Some (s, limit_cap n)\<rparr>)"
  have "\<exists>c' e w'. ?b c operation w = Some (Ret (c', e), w') \<and> now w' \<le> max (now w) D \<and>
      (e = None \<longrightarrow> c' = None \<or> due_by D c')" if c: "due_by D c" for D c operation and w :: "'a world_scheme"
  proof -
    obtain c' e w' where b: "?b c operation w = Some (Ret (c', e), w')"
      using bounded_policyD [OF bounded_limit due_by_has_deadline [OF c]]
      by (fastforce simp: NewConcurrencyLimitPolicy_eq)
    have "Some (normalizeContext c) = c" using c by (auto simp: due_by_def normalizeContext_def)
    then have "c' = c" by (cases rule: limitBefore_cases [OF b]) auto
    then show ?thesis using b c limitBefore_time [OF c b] by blast
  qed
  moreover have "keeps (now :: 'a world_scheme \<Rightarrow> int) (limitAfter p c operation e)" for p c operation e
    by (auto simp: limitAfter_def keeps_def prog_simps split: option.splits)
  moreover have "later_returns ?p" using bounded_limit unfolding bounded_policy_def by blast
  ultimately show ?thesis
    by (simp add: prompt_policy_def NewConcurrencyLimitPolicy_eq decider_keeps_def)
qed

lemma prompt_retry:
  assumes "policy_returns (NewRetryPolicy F cfg)" and "policy_keeps now (NewRetryPolicy F cfg)"
  shows "prompt_policy (NewRetryPolicy F cfg)"
  using assms policy_returns_later [OF assms(1)]
  by (auto simp: prompt_policy_def policy_keeps_def decider_keeps_def NewRetryPolicy_def Let_def)

lemma waits_NewTimeoutPolicy: "waits_at_most M (NewTimeoutPolicy t)"
  and waits_limit: "waits_at_most M (NewConcurrencyLimitPolicy L s n)"
  by (simp_all add: waits_at_most_def NewConcurrencyLimitPolicy_eq)

section \<open>Calls with a deadline\<close>

lemma retryOrReturn_ends_by:
  assumes "\<forall>p \<in> set ps. prompt_policy p" and "due_by D (Some ctx)"
  shows "ends_by D (retryOrReturn L ctx operation ps attempt res e)"
  unfolding retryOrReturn_def
proof (rule ends_by_pbind)
  show "ends_by D (decideRetry (Some ctx) ps operation attempt e)"
    by (rule keeps_ends_by [OF prompt_keeps_decide [OF assms(1)]])
  show "ends_by D (case a of (retry, wait) \<Rightarrow>
        if \<not> retry then pret (Return (res, e))
        else pbind (sleepWithContext L ctx operation attempt wait) (\<lambda>sleepErr.
             if sleepErr \<noteq> None then pret (Return (res, errors_join [e, sleepErr])) else pret Continue))" for a
    using sleep_due_by [OF assms(2)] by (auto intro!: ends_by_pbind split: prod.split)
qed

text \<open>After the first pass, with a context due by \<open>D\<close>: what an attempt still does ends by \<open>D\<close>.\<close>

lemma attempt_rest_ends_by:
  assumes "\<And>c. due_by D c \<Longrightarrow> ends_by D (fn c)" and "\<And>c e. ends_by D (applyAfterPolicies L c applied operation e)"
    and "\<And>res e. ends_by D (K res e)" and "err = None \<longrightarrow> due_by D c"
  shows "ends_by D (if err \<noteq> None then pbind (applyAfterPolicies L c applied operation err) (\<lambda>e. pret (Return (zero, e)))
     else pbind (fn c) (\<lambda>(result, execErr).
          pbind (applyAfterPolicies L c applied operation execErr) (\<lambda>execErr.
            if execErr = None then pret (Return (result, None)) else K result execErr)))"
  using assms by (cases err) (auto intro!: ends_by_pbind split: prod.split)

lemma attempt_ends_by:
  assumes "oops_ok L" and "\<forall>p \<in> set ps. prompt_policy p" and "due_by D (Some ctx)"
    and "\<And>c. due_by D c \<Longrightarrow> ends_by D (fn c)"
  shows "ends_by D (invokeAttempt L ctx operation fn ps zero attempt)"
  unfolding invokeAttempt_def
proof (rule ends_by_pbind')
  note pass = prompt_pass [OF assms(1,2,3)]
  show "ends_by D (applyBeforePolicies L (Some ctx) ps operation)"
  proof
    fix w r w'
    assume run: "applyBeforePolicies L (Some ctx) ps operation w = Some (r, w')"
    then obtain c applied e where "r = Ret (c, applied, e)"
      using calm_SomeE [OF calm_applyBeforePolicies] by (metis prod_cases3)
    with run pass [of operation w c applied e w'] show "now w' \<le> max (now w) D" by simp
  qed
  show "ends_by D (case a of (attemptCtx, applied, err) \<Rightarrow>
       if err \<noteq> None then
           pbind (applyAfterPolicies L attemptCtx applied operation err)
             (\<lambda>e. pret (Return (zero, e)))
         else
           pbind (fn attemptCtx) (\<lambda>(result, execErr).
           pbind (applyAfterPolicies L attemptCtx applied operation execErr) (\<lambda>execErr.
             if execErr = None then pret (Return (result, None))
             else retryOrReturn L ctx operation ps attempt result execErr)))"
    if run: "applyBeforePolicies L (Some ctx) ps operation w = Some (Ret a, w')" for w a w'
  proof -
    obtain c applied err where a: "a = (c, applied, err)" by (cases a)
    have after: "ends_by D (applyAfterPolicies L c' applied operation e)" for c' e
      by (intro keeps_ends_by prompt_keeps_after [OF assms(2)] applyBeforePolicies_subset [OF run [unfolded a]])
    have "err = None \<longrightarrow> due_by D c" using pass [OF run [unfolded a]] by blast
    then show ?thesis unfolding a prod.case
      by (intro attempt_rest_ends_by after retryOrReturn_ends_by [OF assms(2,3)]) (rule assms(4))
  qed
qed

text \<open>A loop whose attempts end by \<open>D\<close> ends by \<open>D\<close>, whether it gives a result or panics.\<close>

lemma loop_ends_by:
  assumes "\<And>attempt. ends_by D (invokeAttempt L ctx operation fn ps zero attempt)"
    and "\<forall>p \<in> set ps. stops_at n p"
  shows "ends_by D (invokeLoop L ctx operation fn ps zero attempt)"
proof
  fix w r w'
  assume "invokeLoop L ctx operation fn ps zero attempt w = Some (r, w')"
  then show "now w' \<le> max (now w) D"
  proof (induction "nat (n - attempt)" arbitrary: attempt w rule: less_induct)
    case less
    obtain x w1 where x: "invokeAttempt L ctx operation fn ps zero attempt w = Some (x, w1)"
      using less.prems by (cases "invokeAttempt L ctx operation fn ps zero attempt w")
        (auto simp: invokeLoop.simps [of L ctx operation fn ps zero attempt w])
    have "now w1 \<le> max (now w) D" by (rule ends_byD [OF assms(1) x])
    moreover have "now w' \<le> max (now w1) D"
    proof (cases "x = Ret Continue")
      case True
      then have "attempt < n" using x invokeAttempt_stops [OF assms(2)] by (metis linorder_not_le)
      moreover have "invokeLoop L ctx operation fn ps zero (attempt + 1) w1 = Some (r, w')"
        using less.prems x True by (simp add: invokeLoop.simps [of L ctx operation fn ps zero attempt w])
      ultimately show ?thesis by (intro less.hyps [of "attempt + 1"]) simp
    next
      case False
      then show ?thesis using less.prems x
        by (cases x) (auto simp: invokeLoop.simps [of L ctx operation fn ps zero attempt w] split: flow.splits)
    qed
    ultimately show ?case by linarith
  qed
qed

lemma ends_by_deadline:
  assumes "oops_ok L" and "\<forall>p \<in> set (filterPolicies policies). prompt_policy p \<and> stops_at n p"
    and "ctx_deadline c = Some D" and "\<And>c. returns (f c)" and "\<And>c. due_by D c \<Longrightarrow> ends_by D (f c)"
  shows "\<exists>r w'. InvokeWithPolicies L zero (Some c) operation (Some f) policies w = Some (r, w') \<and>
    now w' \<le> max (now w) D"
proof -
  let ?ps = "filterPolicies policies" and ?op = "normalizeOperation operation"
  have ps: "\<forall>p \<in> set ?ps. prompt_policy p" "\<forall>p \<in> set ?ps. stops_at n p" using assms(2) by blast+
  have c: "due_by D (Some c)" using assms(3) by (simp add: due_by_def)
  have "invokeLoop L c ?op f ?ps zero 1 w \<noteq> None"
  proof (rule loop_returns_passes [where n = n])
    have "\<forall>p \<in> set ?ps. bounded_policy p" using ps(1) prompt_bounded by blast
    then show "returns (applyBeforePolicies L (Some c) ?ps ?op)"
      by (intro returnsI returns_bounded_pass [OF assms(1)] due_by_has_deadline [OF c])
    show "\<forall>p \<in> set ?ps. later_returns p \<and> stops_at n p" using assms(2) by (simp add: prompt_policy_def)
  qed (use assms(4) in blast)
  moreover have "ends_by D (invokeLoop L c ?op f ?ps zero 1)"
    by (rule loop_ends_by [OF attempt_ends_by [OF assms(1) ps(1) c assms(5)] ps(2)])
  ultimately show ?thesis
    by (auto simp: InvokeWithPolicies_def normalizeContext_def Let_def dest: ends_byD)
qed

text \<open>
  C5: a call ends by the deadline of its caller. With policies of the library in any number and order,
  whatever fails, however often it is tried and however full the limits are, a call that comes with a
  deadline comes back, and by then if it was not past already; the function must come back and must
  itself end by the deadline of the context it is given.
\<close>

theorem call_ends_by_deadline:
  assumes "oops_ok L" and "\<forall>p \<in> set (filterPolicies policies). prompt_policy p \<and> stops_at n p"
    and "ctx_deadline c = Some D" and "\<And>c. returns (f c)" and "\<And>c. due_by D c \<Longrightarrow> ends_by D (f c)"
  shows "\<exists>r w'. InvokeWithPolicies L zero (Some c) operation (Some f) policies w = Some (r, w') \<and>
    now w' \<le> max (now w) D"
  using assms by (rule ends_by_deadline)

section \<open>Calls without one\<close>

text \<open>Policies that keep the clock still, before a guard: the guard's deadline counts from the start.\<close>

lemma guarded_pass:
  assumes "oops_ok L" and "0 < t" and "\<forall>p \<in> set post. prompt_policy p"
  shows "\<forall>p \<in> set pre. policy_keeps now p \<Longrightarrow>
    applyBeforePolicies L c (pre @ NewTimeoutPolicy t # post) operation w = Some (Ret (c', applied, e), w') \<Longrightarrow>
    now w' \<le> now w + t \<and> (e = None \<longrightarrow> due_by (now w + t) c')"
proof (induction pre arbitrary: c w applied)
  case Nil
  obtain c1 w1 where g: "timeoutBefore t c operation w = Some (Ret (Some c1, None), w1)"
    using timeoutBefore_deadline_set [OF assms(2)] by blast
  then have call: "callPolicyBefore L c (NewTimeoutPolicy t) operation w = Some (Ret (Some c1, None), w1)"
    by (simp add: callPolicyBefore_def wrapPolicyBeforeError_def prog_simps)
  have "now w1 = now w" and due: "due_by (now w + t) (Some c1)"
    using timeoutBefore_deadline [OF g] assms(2)
    by (cases "ctx_deadline (normalizeContext c)"; simp add: due_by_def)+
  from Nil(2) [unfolded append_Nil] show ?case
  proof (cases rule: applyBeforePolicies_ConsE)
    case (refuse n err)
    then show ?thesis using call by simp
  next
    case (accept n w2 tl)
    then have "applyBeforePolicies L (Some c1) post operation w1 = Some (Ret (c', tl, e), w')" using call by simp
    from prompt_pass [OF assms(1,3) due this] show ?thesis using \<open>now w1 = now w\<close> assms(2) by simp
  qed
next
  case (Cons p pre)
  have still: "now w1 = now w" if "callPolicyBefore L c p operation w = Some (x, w1)" for x w1
    by (rule keepsD [OF keeps_callPolicyBefore that]) (use Cons.prems(1) in simp)
  from Cons.prems(2) [unfolded append_Cons] show ?case
  proof (cases rule: applyBeforePolicies_ConsE)
    case (refuse n err)
    then show ?thesis using still [OF refuse(1)] assms(2) by simp
  next
    case (accept n w1 tl)
    then show ?thesis using still [OF accept(1)] Cons.IH [OF _ accept(2)] Cons.prems(1) by simp
  qed
qed

lemma calm_retryOrReturn: "calm (retryOrReturn L ctx operation ps attempt res e)"
  unfolding retryOrReturn_def by (auto intro!: calm_pbind split: prod.split)

lemma calm_after_bind: "(\<And>e. calm (k e)) \<Longrightarrow> calm (pbind (applyAfterPolicies L c applied operation x) k)"
  by (rule calm_pbind) simp_all

lemma attempt_panics:
  assumes "invokeAttempt L ctx operation fn ps zero attempt w = Some (Panic, w')"
  obtains c applied w1 where "applyBeforePolicies L (Some ctx) ps operation w = Some (Ret (c, applied, None), w1)"
    "fn c w1 = Some (Panic, w')"
proof -
  from assms obtain c applied err w1 where
    before: "applyBeforePolicies L (Some ctx) ps operation w = Some (Ret (c, applied, err), w1)"
    and rest: "(if err \<noteq> None then
           pbind (applyAfterPolicies L c applied operation err) (\<lambda>e. pret (Return (zero, e)))
         else
           pbind (fn c) (\<lambda>(result, execErr).
           pbind (applyAfterPolicies L c applied operation execErr) (\<lambda>execErr.
             if execErr = None then pret (Return (result, None))
             else retryOrReturn L ctx operation ps attempt result execErr))) w1 = Some (Panic, w')"
    by (auto simp: invokeAttempt_def elim!: calm_bind_SomeE)
  have "err = None" using rest by (auto simp: calmD [OF calm_after_bind [OF calm_pret]] split: if_splits)
  then have "pbind (fn c) (\<lambda>(result, execErr).
           pbind (applyAfterPolicies L c applied operation execErr) (\<lambda>execErr.
             if execErr = None then pret (Return (result, None))
             else retryOrReturn L ctx operation ps attempt result execErr)) w1 = Some (Panic, w')"
    using rest by simp
  then have "fn c w1 = Some (Panic, w')"
  proof (rule pbind_eq_SomeE)
    fix a w2
    assume run: "(case a of (result, execErr) \<Rightarrow>
           pbind (applyAfterPolicies L c applied operation execErr) (\<lambda>execErr.
             if execErr = None then pret (Return (result, None))
             else retryOrReturn L ctx operation ps attempt result execErr)) w2 = Some (Panic, w')"
    have "calm (case a of (result, execErr) \<Rightarrow>
           pbind (applyAfterPolicies L c applied operation execErr) (\<lambda>execErr.
             if execErr = None then pret (Return (result, None))
             else retryOrReturn L ctx operation ps attempt result execErr))"
      by (auto intro!: calm_after_bind simp: calm_retryOrReturn split: prod.split)
    from calmD [OF this] run show ?thesis by (rule notE)
  qed
  then show thesis using that before \<open>err = None\<close> by blast
qed

lemma decideRetry_wait:
  assumes "\<forall>p \<in> set ps. waits_at_most M p \<and> stops_at n p" and "0 \<le> M"
    and "decideRetry c ps operation attempt e w = Some (Ret (retry, wait), w')"
  shows "wait \<le> M" and "n \<le> attempt \<Longrightarrow> \<not> retry"
proof -
  from assms(3) obtain x w1 where x: "decideRetryFrom (False, 0) c ps operation attempt e w = Some (Ret x, w1)"
    and d: "retry = fst x" "wait = max (snd x) 0" by (auto simp: decideRetry_def elim!: calm_bind_SomeE)
  have "snd x \<le> M" by (rule decideRetryFrom_wait_le [OF _ _ x]) (use assms(1,2) in auto)
  then show "wait \<le> M" using d assms(2) by simp
  show "\<not> retry" if "n \<le> attempt"
    using decideRetryFrom_stops [OF _ that x] assms(1) d by simp
qed

lemma retryOrReturn_time:
  assumes "\<forall>p \<in> set ps. waits_at_most M p \<and> stops_at n p" and "0 \<le> M" and "\<forall>p \<in> set ps. decider_keeps now p"
    and "retryOrReturn L ctx operation ps attempt res e w = Some (r, w')"
  shows "now w' \<le> now w + (if n \<le> attempt then 0 else M)"
proof -
  from assms(4) obtain retry wait w1 where
    d: "decideRetry (Some ctx) ps operation attempt e w = Some (Ret (retry, wait), w1)"
    and rest: "(if \<not> retry then pret (Return (res, e))
         else pbind (sleepWithContext L ctx operation attempt wait) (\<lambda>sleepErr.
             if sleepErr \<noteq> None then pret (Return (res, errors_join [e, sleepErr])) else pret Continue)) w1 = Some (r, w')"
    unfolding retryOrReturn_def by (auto elim!: calm_bind_SomeE)
  have w1: "now w1 = now w" by (rule keepsD [OF keeps_decideRetry [OF assms(3)] d])
  note dec = decideRetry_wait [OF assms(1,2) d]
  show ?thesis
  proof (cases retry)
    case True
    then obtain s w2 where "sleepWithContext L ctx operation attempt wait w1 = Some (Ret s, w2)" "w' = w2"
      using rest by (auto elim!: calm_bind_SomeE split: if_splits)
    then have "now w' \<le> now w + max wait 0" using sleep_time w1 by metis
    then show ?thesis using dec True assms(2) by auto
  qed (use rest w1 assms(2) in auto)
qed

text \<open>An attempt behind a guard of \<open>t\<close>: \<open>t\<close> at most, and the wait after it if another one may follow.\<close>

lemma prompt_or_still_after:
  assumes "\<forall>p \<in> set pre. policy_keeps now p" and "\<forall>p \<in> set post. prompt_policy p"
    and "set applied \<subseteq> set (pre @ NewTimeoutPolicy t # post)"
  shows "keeps now (applyAfterPolicies L c applied operation e)"
proof -
  have "\<forall>p \<in> set (rev applied). \<forall>e. keeps now (callPolicyAfter L c p operation e)"
    using assms keeps_callPolicyAfter prompt_keeps_After [OF prompt_timeout] prompt_keeps_After by fastforce
  moreover have "\<forall>p \<in> set qs. \<forall>e. keeps now (callPolicyAfter L c p operation e) \<Longrightarrow>
      keeps now (afterPolicies L c qs operation e)" for qs e
    by (induction qs arbitrary: e) (auto intro!: keeps_pbind split: prod.split)
  ultimately show ?thesis unfolding applyAfterPolicies_def by blast
qed

lemma guarded_attempt_time:
  assumes "oops_ok L" and "0 < t" and "\<forall>p \<in> set pre. policy_keeps now p" and "\<forall>p \<in> set post. prompt_policy p"
    and "\<And>D c. due_by D c \<Longrightarrow> ends_by D (fn c)" and "ps = pre @ NewTimeoutPolicy t # post"
    and "\<forall>p \<in> set ps. waits_at_most M p \<and> stops_at n p" and "0 \<le> M"
    and "invokeAttempt L ctx operation fn ps zero attempt w = Some (r, w')"
  shows "now w' \<le> now w + t + (if n \<le> attempt then 0 else M)"
proof -
  note pass = guarded_pass [OF assms(1,2,4,3), folded assms(6)]
  have after: "now v' = now v" if "applyAfterPolicies L c applied operation e v = Some (x, v')" "set applied \<subseteq> set ps"
    for c applied e x v v'
    using keepsD [OF prompt_or_still_after [OF assms(3,4)]] that assms(6) by blast
  have exec: "now w2 \<le> now w + t" if "applyBeforePolicies L (Some ctx) ps operation w = Some (Ret (c, applied, None), w1)"
    "fn c w1 = Some (x, w2)" for c applied x w1 w2
    using pass [OF that(1)] ends_byD [OF assms(5) that(2)] by fastforce
  have M: "0 \<le> (if n \<le> attempt then 0 else M)" using assms(8) by simp
  show ?thesis
  proof (cases r)
    case Panic
    obtain c applied w1 where "applyBeforePolicies L (Some ctx) ps operation w = Some (Ret (c, applied, None), w1)"
      "fn c w1 = Some (Panic, w')" using assms(9) [unfolded Panic] by (rule attempt_panics)
    then show ?thesis using exec M by fastforce
  next
    case (Ret a)
    from assms(9) [unfolded Ret] show ?thesis
    proof (cases rule: invokeAttempt_cases)
      case (refused c applied err e w1)
      then show ?thesis using pass [OF refused(1)] after [OF refused(2) applyBeforePolicies_subset [OF refused(1)]] M by simp
    next
      case (executed c applied res err e w1 w2 w3)
      have w3: "now w3 \<le> now w + t"
        using exec [OF executed(1,2)] after [OF executed(3) applyBeforePolicies_subset [OF executed(1)]] by simp
      have d: "\<forall>p \<in> set ps. decider_keeps now p"
        using assms(3,4,6) prompt_timeout by (auto simp: prompt_policy_def intro: decider_keeps_policy_keeps)
      from executed(4) have "now w' \<le> now w3 + (if n \<le> attempt then 0 else M)"
        by (elim disjE conjE) (use M in simp, erule retryOrReturn_time [OF assms(7,8) d])
      then show ?thesis using w3 by linarith
    qed
  qed
qed

lemma guarded_loop_time:
  assumes "oops_ok L" and "0 < t" and "\<forall>p \<in> set pre. policy_keeps now p" and "\<forall>p \<in> set post. prompt_policy p"
    and "\<And>D c. due_by D c \<Longrightarrow> ends_by D (fn c)" and "ps = pre @ NewTimeoutPolicy t # post"
    and "\<forall>p \<in> set ps. waits_at_most M p \<and> stops_at n p" and "0 \<le> M"
    and "invokeLoop L ctx operation fn ps zero attempt w = Some (r, w')"
  shows "now w' \<le> now w + t + max 0 (n - attempt) * (t + M)"
  using assms(9)
proof (induction "nat (n - attempt)" arbitrary: attempt w rule: less_induct)
  case less
  obtain x w1 where x: "invokeAttempt L ctx operation fn ps zero attempt w = Some (x, w1)"
    using less.prems by (cases "invokeAttempt L ctx operation fn ps zero attempt w")
      (auto simp: invokeLoop.simps [of L ctx operation fn ps zero attempt w])
  have one: "now w1 \<le> now w + t + (if n \<le> attempt then 0 else M)"
    by (rule guarded_attempt_time [OF assms(1-8) x])
  show ?case
  proof (cases "x = Ret Continue")
    case True
    then have lt: "attempt < n" using x invokeAttempt_stops assms(7) by (metis linorder_not_le)
    have "invokeLoop L ctx operation fn ps zero (attempt + 1) w1 = Some (r, w')"
      using less.prems x True by (simp add: invokeLoop.simps [of L ctx operation fn ps zero attempt w])
    then have "now w' \<le> now w1 + t + max 0 (n - (attempt + 1)) * (t + M)"
      using lt by (intro less.hyps) simp_all
    moreover have "max 0 (n - attempt) * (t + M) = max 0 (n - (attempt + 1)) * (t + M) + (t + M)"
      using lt by (simp add: algebra_simps max_def)
    ultimately show ?thesis using one lt by simp
  next
    case False
    then have "w' = w1" using less.prems x
      by (cases x) (auto simp: invokeLoop.simps [of L ctx operation fn ps zero attempt w] split: flow.splits)
    moreover have "(if n \<le> attempt then 0 else M) \<le> max 0 (n - attempt) * (t + M)"
    proof (cases "n \<le> attempt")
      case False
      then have "1 * (t + M) \<le> max 0 (n - attempt) * (t + M)" using assms(2,8) by (intro mult_right_mono) simp_all
      then show ?thesis using False assms(2) by simp
    qed simp
    ultimately show ?thesis using one by simp
  qed
qed

lemma guarded_time:
  assumes "oops_ok L" and "0 < t" and "filterPolicies policies = pre @ NewTimeoutPolicy t # post"
    and "\<forall>p \<in> set pre. policy_returns p \<and> policy_keeps now p" and "\<forall>p \<in> set post. prompt_policy p"
    and "\<forall>p \<in> set (pre @ post). waits_at_most M p \<and> stops_at n p" and "0 \<le> M" and "1 \<le> n"
    and "\<And>c. returns (f c)" and "\<And>D c. due_by D c \<Longrightarrow> ends_by D (f c)"
  shows "\<exists>r w'. InvokeWithPolicies L zero ctx operation (Some f) policies w = Some (r, w') \<and>
    now w' \<le> now w + n * t + (n - 1) * M"
proof -
  let ?ps = "pre @ NewTimeoutPolicy t # post" and ?c = "normalizeContext ctx" and ?op = "normalizeOperation operation"
  have pre: "\<forall>p \<in> set pre. policy_returns p" "\<forall>p \<in> set pre. policy_keeps now p" using assms(4) by blast+
  have "invokeLoop L ?c ?op f ?ps zero 1 w \<noteq> None"
    by (rule guarded_loop_returns [OF assms(1,2) pre(1), where n = n])
      (use assms(5,6,9) prompt_bounded in blast)+
  then obtain r w' where run: "invokeLoop L ?c ?op f ?ps zero 1 w = Some (r, w')" by auto
  have ps: "\<forall>p \<in> set ?ps. waits_at_most M p \<and> stops_at n p" using assms(6) stops_at_NewTimeoutPolicy waits_NewTimeoutPolicy by auto
  have "now w' \<le> now w + t + max 0 (n - 1) * (t + M)"
    by (rule guarded_loop_time [OF assms(1,2) pre(2) assms(5) _ refl ps assms(7) run]) (rule assms(10))
  then have "now w' \<le> now w + n * t + (n - 1) * M" using assms(8) by (simp add: algebra_simps)
  then show ?thesis using run assms(3) by (simp add: InvokeWithPolicies_def Let_def)
qed

text \<open>
  C16: behind a timeout guard a call takes a bounded time even for a caller who sets no deadline: with \<open>n\<close>
  attempts at most and waits of at most \<open>M\<close> between them, \<open>n\<close> times the guard and \<open>n - 1\<close> times \<open>M\<close>. The guard
  counts anew for each attempt, the wait for a slot included.
\<close>

theorem guarded_call_time:
  assumes "oops_ok L" and "0 < t" and "filterPolicies policies = pre @ NewTimeoutPolicy t # post"
    and "\<forall>p \<in> set pre. policy_returns p \<and> policy_keeps now p" and "\<forall>p \<in> set post. prompt_policy p"
    and "\<forall>p \<in> set (pre @ post). waits_at_most M p \<and> stops_at n p" and "0 \<le> M" and "1 \<le> n"
    and "\<And>c. returns (f c)" and "\<And>D c. due_by D c \<Longrightarrow> ends_by D (f c)"
  shows "\<exists>r w'. InvokeWithPolicies L zero ctx operation (Some f) policies w = Some (r, w') \<and>
    now w' \<le> now w + n * t + (n - 1) * M"
  using assms by (rule guarded_time)

text \<open>For the witnesses: a function that uses all the time its context leaves it, and then fails.\<close>

definition wait_out :: "ctx option \<Rightarrow> (nat \<times> go_error option, 'u world_scheme) prog" where
  "wait_out c = (\<lambda>w. Some (Ret (0, Some CtxDeadline),
     w\<lparr>now := (case ctx_deadline (normalizeContext c) of None \<Rightarrow> now w | Some d \<Rightarrow> max (now w) d)\<rparr>))"

lemma wait_out_ends: "returns (wait_out c)" "due_by D c \<Longrightarrow> ends_by D (wait_out c)"
  by (auto simp: wait_out_def returns_def ends_by_def due_by_def normalizeContext_def)

lemma sample_policy_waits: "waits_at_most 40 sample_policy"
  using waits_NewRetryPolicy [of "binary64 0" sample_cfg]
  by (simp add: sample_policy_facts sample_policy_def [symmetric])

lemma sample_policy_prompt: "prompt_policy sample_policy"
  using prompt_retry sample_policy_facts unfolding sample_policy_def by blast

theorem call_ends_by_deadline_witness:
  "\<exists>r w'. InvokeWithPolicies plain_lib 0 (Some (TimerCtx 9 second Background)) sample_operation (Some wait_out)
      [Some (NewConcurrencyLimitPolicy plain_lib 7 2), None, Some sample_policy] (start_world\<lparr>sems := \<lambda>_. 2\<rparr>) =
      Some (r, w') \<and> now w' \<le> second"
  using call_ends_by_deadline [where L = plain_lib and c = "TimerCtx 9 second Background" and D = second and n = 3
      and policies = "[Some (NewConcurrencyLimitPolicy plain_lib 7 2), None, Some sample_policy]" and f = wait_out
      and w = "start_world\<lparr>sems := \<lambda>_. 2\<rparr>" and zero = 0 and operation = sample_operation]
  by (simp add: filterPolicies_def prompt_limit stops_at_limit sample_policy_prompt sample_policy_facts wait_out_ends
      start_world_def)

theorem guarded_call_time_witness:
  "\<exists>r w'. InvokeWithPolicies plain_lib 0 None sample_operation (Some wait_out)
      [Some (NewTimeoutPolicy second), Some (NewConcurrencyLimitPolicy plain_lib 7 2), Some sample_policy]
      (start_world\<lparr>sems := \<lambda>_. 2\<rparr>) = Some (r, w') \<and> now w' \<le> 3 * second + 80"
  using guarded_call_time [where L = plain_lib and ctx = None and t = second and n = 3 and M = 40 and pre = "[]"
      and post = "[NewConcurrencyLimitPolicy plain_lib 7 2, sample_policy]" and f = wait_out
      and policies = "[Some (NewTimeoutPolicy second), Some (NewConcurrencyLimitPolicy plain_lib 7 2), Some sample_policy]"
      and w = "start_world\<lparr>sems := \<lambda>_. 2\<rparr>" and zero = 0 and operation = sample_operation]
  by (simp add: filterPolicies_def prompt_limit stops_at_limit sample_policy_prompt sample_policy_facts wait_out_ends
      start_world_def sample_policy_waits waits_limit)

end
