(* ===== verification/Preset_Time.thy ===== *)
theory Preset_Time
  imports Preset_Properties Call_Time
begin

text \<open>
  How long a call of a preset client takes: the guard, the attempts and the waits of each preset put
  into the bounds of \<^verbatim>\<open>Call_Time\<close>, through the one shape all clients call the engine with.
\<close>

section \<open>Guarded clients\<close>

lemma client_call_same_world:
  "InvokeWithPolicies L None ctx operation (Some once) policies w = Some (r, w') \<Longrightarrow>
   \<exists>r'. client_call L once fail ctx operation policies w = Some (r', w')"
  by (cases r) (auto simp: client_call_def pbind_apply)

lemma guarded_client_time:
  assumes "oops_ok L" and "0 < t" and "filterPolicies policies = pre @ NewTimeoutPolicy t # post"
    and "\<forall>p \<in> set pre. policy_returns p \<and> policy_keeps now p \<and> prompt_policy p"
    and "\<forall>p \<in> set post. prompt_policy p"
    and "\<forall>p \<in> set (pre @ post). waits_at_most M p \<and> stops_at n p" and "0 \<le> M" and "1 \<le> n"
    and "\<And>c. returns (once c)" and "\<And>D c. due_by D c \<Longrightarrow> ends_by D (once c)"
  shows "\<exists>r w'. client_call L once fail ctx operation policies w = Some (r, w') \<and>
    now w' \<le> now w + n * t + (n - 1) * M \<and>
    (\<forall>D. Option.bind ctx ctx_deadline = Some D \<longrightarrow> now w' \<le> max (now w) D)"
proof -
  have pre: "\<forall>p \<in> set pre. policy_returns p \<and> policy_keeps now p" using assms(4) by blast
  have "\<exists>r w'. InvokeWithPolicies L None ctx operation (Some once) policies w = Some (r, w') \<and>
      now w' \<le> now w + n * t + (n - 1) * M"
    by (rule guarded_time [OF assms(1,2,3) pre assms(5,6,7,8,9)]) (rule assms(10))
  then obtain r w' where run: "InvokeWithPolicies L None ctx operation (Some once) policies w = Some (r, w')"
    and time: "now w' \<le> now w + n * t + (n - 1) * M" by blast
  have "now w' \<le> max (now w) D" if D: "Option.bind ctx ctx_deadline = Some D" for D
  proof -
    obtain c where c: "ctx = Some c" "ctx_deadline c = Some D" using D by (cases ctx) auto
    have "\<forall>p \<in> set (filterPolicies policies). prompt_policy p \<and> stops_at n p"
      using assms(3,4,5,6) prompt_timeout stops_at_NewTimeoutPolicy by auto
    then have "\<exists>r w'. InvokeWithPolicies L None (Some c) operation (Some once) policies w = Some (r, w') \<and>
        now w' \<le> max (now w) D"
      by (rule ends_by_deadline [OF assms(1) _ c(2) assms(9)]) (rule assms(10))
    then show ?thesis using run c(1) by auto
  qed
  then show ?thesis using client_call_same_world [OF run] time by blast
qed

lemma ends_by_open_once:
  assumes "ends_by D (dial execCtx)" and "\<And>d e. keeps now (emit d e)"
  shows "ends_by D (open_once dial emit wrap mk execCtx)"
  unfolding open_once_def Let_def
  by (intro ends_by_pbind assms(1) keeps_ends_by [OF keeps_pget])
    (auto intro!: ends_by_pbind keeps_ends_by assms(2) split: sum.split)

lemma guard_and_limit_prompt:
  assumes "0 < t"
  obtains post where "guard_and_limit L s t n = NewTimeoutPolicy t # post" "\<forall>p \<in> set post. prompt_policy p"
    "\<And>M m. \<forall>p \<in> set post. waits_at_most M p \<and> stops_at m p"
  using that [of "if 0 < n then [NewConcurrencyLimitPolicy L s n] else []"] assms
  by (simp add: guard_and_limit_def prompt_limit stops_at_limit waits_limit split: if_splits)

section \<open>The presets\<close>

lemma retry_facts:
  assumes "returns (f_rand F)" and "keeps now (f_rand F)"
    and "\<forall>f err. Retryable cfg = Some f \<longrightarrow> returns (f err) \<and> keeps now (f err)"
  shows "policy_returns (NewRetryPolicy F cfg) \<and> policy_keeps now (NewRetryPolicy F cfg) \<and>
    prompt_policy (NewRetryPolicy F cfg)"
proof -
  have "policy_returns (NewRetryPolicy F cfg)" by (rule returns_NewRetryPolicy [OF assms(1)]) (use assms(3) in blast)
  moreover have "policy_keeps now (NewRetryPolicy F cfg)" by (rule keeps_NewRetryPolicy [OF assms(2)]) (use assms(3) in blast)
  ultimately show ?thesis using prompt_retry by blast
qed

text \<open>
  C4: a dial of an internal RPC client comes back, and in time, even when all its slots are taken for ever and
  the peer is never reached: by the deadline of its caller, if there is one, and in any case within one
  guard for each attempt and one longest wait between two. What is outside must do its part: the dialer ends
  by the deadline of its context, the random source and a predicate of the caller's take no time.
\<close>

theorem internal_rpc_dial_time:
  fixes w :: "'u world_scheme"
  assumes "oops_ok L" and "oapply_ok ap'" and "NewInternalRPC L F ap ap' s cfg opts = (Some c, None)"
    and "p = Apply ap (defaultInternalRPCPreset F) opts" and "rpcOptions p = []" and "0 < rpcTimeoutGuard p"
    and "returns (f_rand F)" and "keeps now (f_rand F)"
    and "\<forall>f err. Retryable (rpcRetryPolicy p) = Some f \<longrightarrow> returns (f err) \<and> keeps now (f err)"
    and "\<And>tls t k execCtx network addr. returns (net_dial N tls t k execCtx network addr)"
    and "\<And>D tls t k execCtx network addr. due_by D execCtx \<Longrightarrow> ends_by D (net_dial N tls t k execCtx network addr)"
    and "n = (if rpcDisableRetry p then 1 else maxAttempts (newRetryPolicy F (rpcRetryPolicy p)))"
    and "M = maxDelay (newRetryPolicy F (rpcRetryPolicy p))"
  shows "\<exists>r w'. tcp_Dial L N c ctx w = Some (r, w') \<and>
    now w' \<le> now w + n * rpcTimeoutGuard p + (n - 1) * M \<and>
    (\<forall>D. Option.bind ctx ctx_deadline = Some D \<longrightarrow> now w' \<le> max (now w) D)"
proof -
  let ?retry = "NewRetryPolicy F (rpcRetryPolicy p)"
  obtain post :: "'u world_scheme policy list" where post:
      "guard_and_limit L s (rpcTimeoutGuard p) (rpcConcurrencyLimit p) = NewTimeoutPolicy (rpcTimeoutGuard p) # post"
      "\<forall>q \<in> set post. prompt_policy q" "\<forall>q \<in> set post. waits_at_most M q \<and> stops_at n q"
    using guard_and_limit_prompt [OF assms(6)] by metis
  have c: "tcpHooks c = []" "filterPolicies (tcpPolicies c) =
      [] @ NewTimeoutPolicy (rpcTimeoutGuard p) # (post @ (if rpcDisableRetry p then [] else [?retry]))"
    using NewInternalRPC_client [OF assms(1,2) assms(5) [unfolded assms(4)] assms(3)] post(1) by (simp_all add: assms(4))
  have retry: "prompt_policy ?retry" "waits_at_most M ?retry" "\<not> rpcDisableRetry p \<longrightarrow> stops_at n ?retry"
    using retry_facts [OF assms(7,8,9)] waits_NewRetryPolicy [of F "rpcRetryPolicy p"]
      stops_at_NewRetryPolicy [of F "rpcRetryPolicy p"] by (simp_all add: assms(12,13))
  have M: "0 \<le> M" "1 \<le> n"
    using newRetryPolicy_maxDelay_pos [of F "rpcRetryPolicy p"] new_retry_normal [of F "rpcRetryPolicy p"]
    by (simp_all add: assms(12,13))
  have "returns (tcp_dialOnce L N c execCtx)" for execCtx
    unfolding tcp_dialOnce_open by (rule returns_open_once) (simp_all add: tcp_dialer_def assms(10) c(1) EmitDial_def)
  moreover have "ends_by D (tcp_dialOnce L N c execCtx)" if "due_by D execCtx" for D execCtx
    unfolding tcp_dialOnce_open
    by (rule ends_by_open_once) (simp_all add: tcp_dialer_def assms(11) [OF that] c(1) EmitDial_def)
  ultimately show ?thesis
    unfolding tcp_Dial_call using post(2,3) retry M
    by (intro guarded_client_time [OF assms(1,6) c(2)]) (auto split: if_splits)
qed

text \<open>At the defaults: three guards of two seconds and two waits of 120 milliseconds.\<close>

theorem internal_rpc_dial_time_witness:
  "\<exists>c r w'. NewInternalRPC plain_lib (binary64 0) apply_all apply_all 7 sample_tcp_Config [] = (Some c, None) \<and>
    tcp_Dial plain_lib mem_net c None ((net_start [])\<lparr>sems := \<lambda>_. 512\<rparr>) = Some (r, w') \<and> now w' \<le> 6240 * millisecond"
proof -
  let ?F = "binary64 0 :: (rat, net_world) float64"
  let ?p = "defaultInternalRPCPreset ?F"
  obtain c :: "net_world tcp_DefaultClient" where
    c: "NewInternalRPC plain_lib ?F apply_all apply_all 7 sample_tcp_Config [] = (Some c, None)"
    using sample_presets(1) by blast
  have "maxAttempts (newRetryPolicy ?F (rpcRetryPolicy ?p)) = 3"
    and "maxDelay (newRetryPolicy ?F (rpcRetryPolicy ?p)) = 120 * millisecond"
    by (simp_all add: newRetryPolicy_def defaultInternalRPCPreset_def millisecond_def Let_def)
  moreover have "rpcTimeoutGuard ?p = 2 * second" "\<not> rpcDisableRetry ?p"
    by (simp_all add: defaultInternalRPCPreset_def)
  moreover have "\<exists>r w'. tcp_Dial plain_lib mem_net c None ((net_start [])\<lparr>sems := \<lambda>_. 512\<rparr>) = Some (r, w') \<and>
      now w' \<le> now ((net_start [])\<lparr>sems := \<lambda>_. 512\<rparr>) +
        (if rpcDisableRetry ?p then 1 else maxAttempts (newRetryPolicy ?F (rpcRetryPolicy ?p))) * rpcTimeoutGuard ?p +
        ((if rpcDisableRetry ?p then 1 else maxAttempts (newRetryPolicy ?F (rpcRetryPolicy ?p))) - 1) *
          maxDelay (newRetryPolicy ?F (rpcRetryPolicy ?p)) \<and>
      (\<forall>D. Option.bind (None :: ctx option) ctx_deadline = Some D \<longrightarrow> now w' \<le> max (now ((net_start [])\<lparr>sems := \<lambda>_. 512\<rparr>)) D)"
    by (rule internal_rpc_dial_time [OF plain_lib_ok apply_all_ok c, where p = ?p])
      (simp_all add: Apply_def, simp_all add: defaultInternalRPCPreset_def mem_net_def)
  ultimately show ?thesis using c by (force simp: net_start_def second_def)
qed

text \<open>The same for the two ways to open a low-latency UDP client, which has no retries.\<close>

theorem low_latency_udp_time:
  fixes w :: "'u world_scheme"
  assumes "oops_ok L" and "oapply_ok ap'" and "NewLowLatencyUDP L ap ap' s cfg opts = (Some c, None)"
    and "p = Apply ap defaultLowLatencyUDPPreset opts" and "lowOptions p = []" and "0 < lowTimeoutGuard p"
    and "\<And>tls t k execCtx network addr. returns (net_dial N tls t k execCtx network addr)"
    and "\<And>D tls t k execCtx network addr. due_by D execCtx \<Longrightarrow> ends_by D (net_dial N tls t k execCtx network addr)"
    and "\<And>execCtx network addr. returns (net_listen N execCtx network addr)"
    and "\<And>D execCtx network addr. due_by D execCtx \<Longrightarrow> ends_by D (net_listen N execCtx network addr)"
  shows "(\<exists>r w'. udp_Dial L N c ctx w = Some (r, w') \<and> now w' \<le> now w + lowTimeoutGuard p) \<and>
    (\<exists>r w'. udp_ListenPacket L N c ctx w = Some (r, w') \<and> now w' \<le> now w + lowTimeoutGuard p)"
proof -
  obtain post :: "'u world_scheme policy list" where post:
      "guard_and_limit L s (lowTimeoutGuard p) (lowConcurrencyLimit p) = NewTimeoutPolicy (lowTimeoutGuard p) # post"
      "\<forall>q \<in> set post. prompt_policy q" "\<forall>q \<in> set post. waits_at_most 0 q \<and> stops_at 1 q"
    using guard_and_limit_prompt [OF assms(6)] by metis
  have c: "udpHooks c = []" "filterPolicies (udpPolicies c) = [] @ NewTimeoutPolicy (lowTimeoutGuard p) # post"
    using NewLowLatencyUDP_client [OF assms(1,2) assms(5) [unfolded assms(4)] assms(3)] post(1) by (simp_all add: assms(4))
  have "returns (udp_dialOnce L N c execCtx)" "returns (udp_listenOnce L N c execCtx)" for execCtx
    unfolding udp_dialOnce_open udp_listenOnce_open
    by (rule returns_open_once; simp add: assms(7,9) c(1) EmitDial_def)+
  moreover have "ends_by D (udp_dialOnce L N c execCtx)" "ends_by D (udp_listenOnce L N c execCtx)" if "due_by D execCtx" for D execCtx
    unfolding udp_dialOnce_open udp_listenOnce_open
    by (rule ends_by_open_once; simp add: assms(8,10) [OF that] c(1) EmitDial_def)+
  moreover have "\<exists>r w'. client_call L once fail ctx operation (udpPolicies c) w = Some (r, w') \<and> now w' \<le> now w + lowTimeoutGuard p"
    if "\<And>x. returns (once x)" "\<And>D x. due_by D x \<Longrightarrow> ends_by D (once x)" for once fail operation
  proof -
    have "\<exists>r w'. client_call L once fail ctx operation (udpPolicies c) w = Some (r, w') \<and>
        now w' \<le> now w + 1 * lowTimeoutGuard p + (1 - 1) * 0 \<and>
        (\<forall>D. Option.bind ctx ctx_deadline = Some D \<longrightarrow> now w' \<le> max (now w) D)"
      by (rule guarded_client_time [OF assms(1,6) c(2)]) (use post(2,3) that in auto)
    then show ?thesis by auto
  qed
  ultimately show ?thesis using udp_Dial_call [of L N c ctx] udp_ListenPacket_call [of L N c ctx] by metis
qed

theorem low_latency_udp_time_witness:
  "\<exists>c r w'. NewLowLatencyUDP plain_lib apply_all apply_all 7 sample_udp_Config [] = (Some c, None) \<and>
    udp_Dial plain_lib mem_packet_net c None ((packet_start [])\<lparr>sems := \<lambda>_. 1024\<rparr>) = Some (r, w') \<and>
    now w' \<le> 200 * millisecond"
proof -
  obtain c :: "packet_world udp_DefaultClient" where
    c: "NewLowLatencyUDP plain_lib apply_all apply_all 7 sample_udp_Config [] = (Some c, None)"
    using sample_presets(2) by blast
  let ?w = "(packet_start [])\<lparr>sems := \<lambda>_. 1024\<rparr>"
  let ?t = "lowTimeoutGuard (defaultLowLatencyUDPPreset :: packet_world lowLatencyUDPPreset)"
  have "(\<exists>r w'. udp_Dial plain_lib mem_packet_net c None ?w = Some (r, w') \<and> now w' \<le> now ?w + ?t) \<and>
      (\<exists>r w'. udp_ListenPacket plain_lib mem_packet_net c None ?w = Some (r, w') \<and> now w' \<le> now ?w + ?t)"
    by (rule low_latency_udp_time [OF plain_lib_ok apply_all_ok c, where p = defaultLowLatencyUDPPreset])
      (simp_all add: Apply_def, simp_all add: defaultLowLatencyUDPPreset_def mem_packet_net_def)
  then show ?thesis using c by (auto simp: packet_start_def defaultLowLatencyUDPPreset_def)
qed

text \<open>
  And for the requests of an edge client. The HTTP library must end a request by the deadline of the context
  it was last given.
\<close>

lemma ends_by_assoc:
  assumes "ends_by D (pbind A (\<lambda>_. B))" and "\<And>s x. keeps now (K s x)"
  shows "ends_by D (pbind A (\<lambda>_. pbind (pget now) (\<lambda>s. pbind B (K s))))"
proof
  fix w r w'
  assume run: "pbind A (\<lambda>_. pbind (pget now) (\<lambda>s. pbind B (K s))) w = Some (r, w')"
  then show "now w' \<le> max (now w) D"
  proof (cases rule: pbind_eq_SomeE)
    case (1 a w1)
    from 1(2) have "pbind B (K (now w1)) w1 = Some (r, w')" by (simp add: pbind_apply)
    then show ?thesis
    proof (cases rule: pbind_eq_SomeE)
      case (1 b w2)
      have "pbind A (\<lambda>_. B) w = Some (Ret b, w2)" using \<open>A w = Some (Ret a, w1)\<close> 1(1) by (simp add: pbind_apply)
      then have "now w2 \<le> max (now w) D" by (rule ends_byD [OF assms(1)])
      moreover have "now w' = now w2" by (rule keepsD [OF assms(2) 1(2)])
      ultimately show ?thesis by simp
    next
      case 2
      have "pbind A (\<lambda>_. B) w = Some (Panic, w')" using \<open>A w = Some (Ret a, w1)\<close> 2(1) by (simp add: pbind_apply)
      then show ?thesis by (rule ends_byD [OF assms(1)])
    qed
  next
    case 2
    then have "pbind A (\<lambda>_. B) w = Some (Panic, w')" by (simp add: pbind_apply)
    then show ?thesis by (rule ends_byD [OF assms(1)])
  qed
qed

lemma ends_by_http_executeOnce:
  assumes "httpHooks c = []" and "\<And>x. keeps now (resty_R Y x)"
    and "\<And>q m e. ends_by D (pbind (SetContext Y execCtx q) (\<lambda>_. resty_Execute Y q m e))"
  shows "ends_by D (http_executeOnce L Y c req method endpoint op addr execCtx)"
proof -
  have emit: "keeps now (pbind (pget now) (\<lambda>t.
       if e \<noteq> None
       then (let wrappedErr = http_wrapClientError L op addr e in
             pbind (EmitIO [] (http_event op addr 0 (t - s) wrappedErr)) (\<lambda>_. pret (None, wrappedErr)))
       else pbind (EmitIO [] (http_event op addr (max 0 (response_Size Y resp)) (t - s) None)) (\<lambda>_. pret (Some resp, None))))"
    for s resp e by (auto intro!: keeps_pbind simp: Let_def EmitIO_def)
  have "keeps now (case req of Some q \<Rightarrow> pret q | None \<Rightarrow> http_R Y c)"
    using assms(2) by (auto simp: http_R_def split: option.split)
  then have first: "ends_by D (case req of Some q \<Rightarrow> pret q | None \<Rightarrow> http_R Y c)" by (rule keeps_ends_by)
  show ?thesis
    unfolding http_executeOnce_def assms(1)
    by (intro ends_by_pbind [OF first] ends_by_assoc assms(3)) (simp only: emit split: prod.split, simp)
qed

theorem edge_execute_time:
  fixes w :: "'u world_scheme"
  assumes "oops_ok L" and "oapply_ok ap'" and "NewEdgeHTTP L F Y parse_uri ap ap' s cfg opts = (Some c, None)"
    and "p = Apply ap defaultEdgeHTTPPreset opts" and "edgeOptions p = []" and "0 < edgeTimeoutGuard p"
    and "returns (f_rand F)" and "keeps now (f_rand F)"
    and "\<And>x. returns (resty_R Y x) \<and> keeps now (resty_R Y x)" and "\<And>x q. returns (SetContext Y x q)"
    and "\<And>q m e. returns (resty_Execute Y q m e)"
    and "\<And>D x q m e. due_by D x \<Longrightarrow> ends_by D (pbind (SetContext Y x q) (\<lambda>_. resty_Execute Y q m e))"
    and "r = http_retry_config F (httpRetry (tuneEdgeHTTPConfig cfg p))"
    and "n = (if RetryEnabled (httpRetry (tuneEdgeHTTPConfig cfg p)) then maxAttempts (newRetryPolicy F r) else 1)"
    and "M = maxDelay (newRetryPolicy F r)"
  shows "\<exists>x w'. http_Execute L Y c ctx req method endpoint w = Some (x, w') \<and>
    now w' \<le> now w + n * edgeTimeoutGuard p + (n - 1) * M \<and>
    (\<forall>D. Option.bind ctx ctx_deadline = Some D \<longrightarrow> now w' \<le> max (now w) D)"
proof -
  let ?pre = "if RetryEnabled (httpRetry (tuneEdgeHTTPConfig cfg p)) then [NewRetryPolicy F r] else []"
  obtain post :: "'u world_scheme policy list" where post:
      "guard_and_limit L s (edgeTimeoutGuard p) (edgeConcurrencyLimit p) = NewTimeoutPolicy (edgeTimeoutGuard p) # post"
      "\<forall>q \<in> set post. prompt_policy q" "\<forall>q \<in> set post. waits_at_most M q \<and> stops_at n q"
    using guard_and_limit_prompt [OF assms(6)] by metis
  have c: "httpHooks c = []" "filterPolicies (httpPolicies c) = ?pre @ NewTimeoutPolicy (edgeTimeoutGuard p) # post"
    using NewEdgeHTTP_client [OF assms(1,2) assms(5) [unfolded assms(4)] assms(3)] post(1)
    by (simp_all add: assms(4,13))
  have retry: "policy_returns (NewRetryPolicy F r) \<and> policy_keeps now (NewRetryPolicy F r) \<and> prompt_policy (NewRetryPolicy F r)"
    by (rule retry_facts [OF assms(7,8)]) (simp add: assms(13) http_retry_config_def)
  have pre: "\<forall>q \<in> set ?pre. policy_returns q \<and> policy_keeps now q \<and> prompt_policy q"
    "\<forall>q \<in> set ?pre. waits_at_most M q \<and> stops_at n q"
    using retry waits_NewRetryPolicy [of F r] stops_at_NewRetryPolicy [of F r] by (simp_all add: assms(14,15))
  have M: "0 \<le> M" "1 \<le> n"
    using newRetryPolicy_maxDelay_pos [of F r] new_retry_normal [of F r] by (simp_all add: assms(14,15))
  have "returns (resty_R Y x)" "keeps now (resty_R Y x)" for x using assms(9) by blast+
  note once = returns_http_executeOnce [OF c(1) this(1) assms(10,11)]
    ends_by_http_executeOnce [OF c(1) this(2) assms(12)]
  show ?thesis
    unfolding http_Execute_call Let_def
    by (rule guarded_client_time [OF assms(1,6) c(2) pre(1) post(2) _ M once(1)])
      (use pre(2) post(3) once(2) in \<open>auto split: if_splits\<close>)
qed

theorem edge_execute_time_witness:
  "\<exists>c x w'. NewEdgeHTTP plain_lib (binary64 0) (count_resty fail_once) (\<lambda>_. None) apply_all apply_all 7
        http_zero_Config [] = (Some c, None) \<and>
    http_Execute plain_lib (count_resty fail_once) c None None ''GET'' ''/x'' (http_start\<lparr>sems := \<lambda>_. 256\<rparr>) = Some (x, w') \<and>
    now w' \<le> 12500 * millisecond"
proof -
  let ?F = "binary64 0 :: (rat, http_world) float64" and ?Y = "count_resty fail_once"
  let ?p = "defaultEdgeHTTPPreset :: (unit, http_world) edgeHTTPPreset"
  let ?r = "http_retry_config ?F (httpRetry (tuneEdgeHTTPConfig http_zero_Config ?p))"
  obtain c :: "(unit, http_world) http_DefaultClient" where
    c: "NewEdgeHTTP plain_lib ?F ?Y (\<lambda>_. None) apply_all apply_all 7 http_zero_Config [] = (Some c, None)"
    using sample_edge_client [of ?F fail_once 7] by blast
  have n: "maxAttempts (newRetryPolicy ?F ?r) = 3" "maxDelay (newRetryPolicy ?F ?r) = 250 * millisecond"
    by (simp_all add: newRetryPolicy_def http_retry_config_def sample_edge_tuned sample_edge_Config_def millisecond_def
        wrap_int_def Let_def)
  have "\<exists>x w'. http_Execute plain_lib ?Y c None None ''GET'' ''/x'' (http_start\<lparr>sems := \<lambda>_. 256\<rparr>) = Some (x, w') \<and>
      now w' \<le> now (http_start\<lparr>sems := \<lambda>_. 256\<rparr>) +
        (if RetryEnabled (httpRetry (tuneEdgeHTTPConfig http_zero_Config ?p)) then maxAttempts (newRetryPolicy ?F ?r) else 1) *
          edgeTimeoutGuard ?p +
        ((if RetryEnabled (httpRetry (tuneEdgeHTTPConfig http_zero_Config ?p)) then maxAttempts (newRetryPolicy ?F ?r) else 1) - 1) *
          maxDelay (newRetryPolicy ?F ?r) \<and>
      (\<forall>D. Option.bind (None :: ctx option) ctx_deadline = Some D \<longrightarrow>
        now w' \<le> max (now (http_start\<lparr>sems := \<lambda>_. 256\<rparr>)) D)"
    by (rule edge_execute_time [OF plain_lib_ok apply_all_ok c, where p = ?p])
      (simp_all add: Apply_def, simp_all add: defaultEdgeHTTPPreset_def count_resty_def returns_def keeps_def
        ends_by_def pbind_apply)
  then show ?thesis using c n
    by (force simp: sample_edge_tuned sample_edge_Config_def http_start_def second_def
        defaultEdgeHTTPPreset_def [THEN arg_cong [where f = edgeTimeoutGuard]])
qed

end
