(* ===== verification/Call_Error.thy ===== *)
theory Call_Error
  imports Client_Call
begin

text \<open>
  Where the error of a failed call comes from, and which kind \<open>KindOf\<close> finds on it. With policies whose
  \<open>After\<close> never fails the error goes back to one source: what the last execution returned, or what the
  \<open>Before\<close> of one policy refused with. The locale \<open>kinded_calls\<close> adds to the contract of a client that its
  errors are those of the network, wrapped.
\<close>

section \<open>Where an error comes from\<close>

definition stems_from :: "go_error \<Rightarrow> go_error \<Rightarrow> bool" where
  "stems_from e e0 \<longleftrightarrow> carries (Some e) (Some e0) \<and>
     errors_as is_client_error (Some e) = errors_as is_client_error (Some e0)"

lemma stems_from_refl [simp, intro]: "stems_from e e"
  by (simp add: stems_from_def)

lemma stems_from_trans: "stems_from e f \<Longrightarrow> stems_from f g \<Longrightarrow> stems_from e g"
  using carries_trans by (auto simp: stems_from_def)

lemma stems_from_kind: "stems_from e e0 \<Longrightarrow> KindOf (Some e) = KindOf (Some e0)"
  by (simp add: stems_from_def KindOf_def)

lemma stems_from_is: "stems_from e e0 \<Longrightarrow> errors_is (Some e0) x \<Longrightarrow> errors_is (Some e) x"
  unfolding stems_from_def by (blast intro: carries_errors_is)

lemma stems_from_wrapf:
  assumes "oops_ok L" and "oops_wrapf L d as (Some e0) msg = Some e"
  shows "stems_from e e0"
  using carries_wrapf [OF assms(1), of d as "Some e0" msg] errors_as_wrapf [OF assms(1), of is_client_error d as "Some e0" msg]
  by (simp add: stems_from_def assms(2))

text \<open>The error of an interrupted wait is joined behind the execution's and has no kind of its own.\<close>

lemma stems_from_join:
  assumes "errors_as is_client_error (Some s) = None" and "errors_join [Some e0, Some s] = Some e"
  shows "stems_from e e0"
proof -
  have e: "e = JoinError [e0, s]" using assms(2) by simp
  have "chain e = e # chain e0 @ chain s" unfolding e by (subst chain.simps) simp
  then have "errors_as is_client_error (Some e) = find is_client_error (chain e0 @ chain s)"
    using e by (simp add: errors_as_Some)
  also have "\<dots> = find is_client_error (chain e0)"
    using assms(1) by (cases "find is_client_error (chain e0)")
      (simp_all add: errors_as_Some find_append_Some find_append_None)
  finally show ?thesis using carries_join_left [of "Some e0" "Some s"] assms(2)
    by (simp add: stems_from_def errors_as_Some)
qed

lemma sleep_no_kind:
  assumes "oops_ok L" and "sleepWithContext L c operation attempt d w = Some (Ret (Some s), w')"
  shows "errors_as is_client_error (Some s) = None"
proof -
  obtain t e as msg where "oops_wrapf L ''clientx/policy'' as (Some e) msg = Some s" "ctx_done w c = Some (t, e)"
    using assms(2) by (auto simp: sleepWithContext_def Let_def split: if_splits option.splits)
  then have "errors_as is_client_error (Some s) = errors_as is_client_error (Some e)" "e \<in> {CtxCanceled, CtxDeadline}"
    using stems_from_wrapf [OF assms(1)] ctx_done_reason unfolding stems_from_def by blast+
  then show ?thesis by (auto simp: errors_as_Some)
qed

section \<open>Policies whose After never fails\<close>

definition silent_after :: "'w policy \<Rightarrow> bool" where
  "silent_after p \<longleftrightarrow> (\<forall>c operation e w x w'. After p c operation e w = Some (Ret x, w') \<longrightarrow> x = None)"

lemma silent_afterPolicies:
  assumes "oops_ok L"
  shows "\<forall>p \<in> set ps. silent_after p \<Longrightarrow> afterPolicies L c ps operation e w = Some (Ret e', w') \<Longrightarrow> e' = e"
proof (induction ps arbitrary: w)
  case (Cons p ps)
  from Cons.prems(2) obtain a b w1 where
    after: "callPolicyAfter L c p operation e w = Some (Ret (a, b), w1)"
    and rest: "afterPolicies L c ps operation (if a \<and> b \<noteq> None then errors_join [e, b] else e) w1 = Some (Ret e', w')"
    by (rule afterPolicies_ConsE)
  have "b = None"
    using after Cons.prems(1) assms
    by (fastforce simp: callPolicyAfter_def silent_after_def wrapPolicyAfterError_def prog_simps
        split: option.splits res.splits)
  then show ?case using Cons.IH rest Cons.prems(1) by simp
qed simp

lemma silent_after_pass:
  assumes "oops_ok L" and "\<forall>p \<in> set ps. silent_after p"
    and "applyAfterPolicies L c ps operation e w = Some (Ret e', w')"
  shows "e' = e"
  using silent_afterPolicies [OF assms(1), of "rev ps" c operation e w e' w'] assms(2,3)
  by (simp add: applyAfterPolicies_def)

lemma refused_by:
  assumes "oops_ok L"
  shows "applyBeforePolicies L c ps operation w = Some (Ret (c', applied, Some e), w') \<Longrightarrow>
    \<exists>p \<in> set ps. \<exists>c w c' e0 w'. Before p c operation w = Some (Ret (c', Some e0), w') \<and> stems_from e e0"
proof (induction ps arbitrary: c w applied)
  case (Cons p ps)
  from Cons.prems show ?case
  proof (cases rule: applyBeforePolicies_ConsE)
    case (refuse n err)
    obtain b x where "Before p c operation w = Some (Ret (b, x), w')" "wrapPolicyBeforeError L operation x = Some err"
      using refuse(1) by (fastforce simp: callPolicyBefore_def prog_simps split: option.splits res.splits if_splits)
    then show ?thesis using refuse(4) stems_from_wrapf [OF assms]
      by (cases x) (fastforce simp: wrapPolicyBeforeError_def)+
  next
    case (accept n w1 tl)
    then show ?thesis using Cons.IH by auto
  qed
qed simp

definition executed_error ::
  "(ctx option \<Rightarrow> ('t \<times> go_error option, 'w) prog) \<Rightarrow> go_error \<Rightarrow> bool" where
  "executed_error fn e \<longleftrightarrow> (\<exists>c w x e0 w'. fn c w = Some (Ret (x, Some e0), w') \<and> stems_from e e0)"

definition refused_error :: "'w policy set \<Rightarrow> operation \<Rightarrow> go_error \<Rightarrow> bool" where
  "refused_error ps operation e \<longleftrightarrow>
     (\<exists>p \<in> ps. \<exists>c w c' e0 w'. Before p c operation w = Some (Ret (c', Some e0), w') \<and> stems_from e e0)"

lemma retryOrReturn_stems:
  assumes "oops_ok L"
    and "retryOrReturn L ctx operation ps attempt res (Some e0) w = Some (Ret (Return (x, Some e)), w')"
  shows "stems_from e e0"
proof -
  from assms(2) obtain retry wait w1 where
    rest: "(if \<not> retry then pret (Return (res, Some e0))
         else pbind (sleepWithContext L ctx operation attempt wait) (\<lambda>sleepErr.
             if sleepErr \<noteq> None then pret (Return (res, errors_join [Some e0, sleepErr])) else pret Continue)) w1 =
      Some (Ret (Return (x, Some e)), w')"
    unfolding retryOrReturn_def by (auto elim!: calm_bind_SomeE)
  show ?thesis
  proof (cases retry)
    case True
    then obtain s w2 where "sleepWithContext L ctx operation attempt wait w1 = Some (Ret (Some s), w2)"
      "errors_join [Some e0, Some s] = Some e"
      using rest by (auto elim!: calm_bind_SomeE split: if_splits)
    then show ?thesis using stems_from_join sleep_no_kind [OF assms(1)] by blast
  qed (use rest in auto)
qed

lemma loop_error:
  assumes "oops_ok L" and "\<forall>p \<in> set ps. silent_after p"
    and "invokeLoop L ctx operation fn ps zero attempt w = Some (Ret (x, Some e), w')"
  shows "executed_error fn e \<or> refused_error (set ps) operation e"
proof -
  have "\<forall>e. snd r = Some e \<longrightarrow> executed_error fn e \<or> refused_error (set ps) operation e"
    if "invokeLoop L ctx operation fn ps zero attempt w = Some (Ret r, w')" for r
    using that
  proof (induction rule: invokeLoop_induct)
    case (stop attempt w r w')
    have sil: "\<forall>p \<in> set applied. silent_after p" if "set applied \<subseteq> set ps" for applied
      using assms(2) that by blast
    from stop show ?case
    proof (cases rule: invokeAttempt_cases)
      case (refused c applied err e w1)
      have "e = Some err"
        by (rule silent_after_pass [OF assms(1) sil [OF applyBeforePolicies_subset [OF refused(1)]] refused(2)])
      then show ?thesis using refused_by [OF assms(1) refused(1)] refused(3) by (auto simp: refused_error_def)
    next
      case (executed c applied res err e w1 w2 w3)
      have e: "e = err"
        by (rule silent_after_pass [OF assms(1) sil [OF applyBeforePolicies_subset [OF executed(1)]] executed(3)])
      show ?thesis
      proof (cases e)
        case (Some e0)
        then have "retryOrReturn L ctx operation ps attempt res (Some e0) w3 = Some (Ret (Return r), w')"
          using executed(4) by simp
        then have "\<forall>e. snd r = Some e \<longrightarrow> stems_from e e0"
          using retryOrReturn_stems [OF assms(1)] by (cases r) auto
        moreover have "fn c w1 = Some (Ret (res, Some e0), w2)" using executed(2) e Some by simp
        ultimately show ?thesis unfolding executed_error_def by blast
      qed (use executed(4) in auto)
    qed
  qed
  then show ?thesis using assms(3) by fastforce
qed

section \<open>The contract of a client\<close>

definition raw_kind :: "lib \<Rightarrow> go_error \<Rightarrow> string" where
  "raw_kind L e = (case errors_as is_client_error (Some e) of
       Some (ClientError p op addr kind x) \<Rightarrow> kind
     | _ \<Rightarrow> classifyErrorKind L (Some e))"

lemma KindOf_WrapError: "KindOf (WrapError L p op addr (Some e)) = Ret (raw_kind L e)"
  by (simp add: WrapError_def KindOf_wrapped raw_kind_def split: option.split go_error.split)

locale kinded_calls = client_calls once fail good
  for once :: "ctx option \<Rightarrow> ('c option \<times> go_error option, 'u world_scheme) prog"
    and fail :: "go_error option \<Rightarrow> go_error option" and good :: "'c \<Rightarrow> bool" +
  fixes L :: lib and raised :: "go_error \<Rightarrow> bool"
  assumes lib: "oops_ok L"
    and once_raised: "once execCtx w = Some (Ret (x, Some e), w') \<Longrightarrow>
      \<exists>raw. raised raw \<and> carries (Some e) (Some raw) \<and> KindOf (Some e) = Ret (raw_kind L raw)"
    and fail_stems: "fail (Some e) = Some e' \<Longrightarrow> stems_from e' e"
begin

lemma failed_call:
  assumes "\<forall>p. Some p \<in> set policies \<longrightarrow> silent_after p"
    and "client_call L once fail ctx operation policies w = Some (Ret (conn, Some e), w')"
  shows "(\<exists>raw. raised raw \<and> carries (Some e) (Some raw) \<and> KindOf (Some e) = Ret (raw_kind L raw)) \<or>
    refused_error {p. Some p \<in> set policies} (normalizeOperation operation) e"
proof -
  obtain x e1 w1 where run: "InvokeWithPolicies L None ctx operation (Some once) policies w = Some (Ret (x, Some e1), w1)"
    and "fail (Some e1) = Some e"
    using assms(2) unfolding client_call_def by (auto elim!: pbind_eq_SomeE split: if_splits)
  then have e: "stems_from e e1" using fail_stems by blast
  have "\<forall>p \<in> set (filterPolicies policies). silent_after p" using assms(1) by (auto simp: filterPolicies_def)
  from loop_error [OF lib this] run have "executed_error once e1 \<or>
      refused_error (set (filterPolicies policies)) (normalizeOperation operation) e1"
    by (simp add: InvokeWithPolicies_def Let_def)
  then show ?thesis
  proof
    assume "executed_error once e1"
    then obtain c v y e0 v' where "once c v = Some (Ret (y, Some e0), v')" and e0: "stems_from e1 e0"
      unfolding executed_error_def by blast
    then obtain raw where raw: "raised raw" "carries (Some e0) (Some raw)" "KindOf (Some e0) = Ret (raw_kind L raw)"
      using once_raised by blast
    have "stems_from e e0" using stems_from_trans [OF e e0] .
    then have "carries (Some e) (Some raw)" "KindOf (Some e) = Ret (raw_kind L raw)"
      using raw(2,3) stems_from_kind carries_trans unfolding stems_from_def by (blast, metis KindOf_def)
    then show ?thesis using raw(1) by blast
  next
    assume "refused_error (set (filterPolicies policies)) (normalizeOperation operation) e1"
    then show ?thesis using stems_from_trans [OF e] unfolding refused_error_def filterPolicies_def by fastforce
  qed
qed

end

end
