(* ===== verification/Error_Report.thy ===== *)
theory Error_Report
  imports Call_Error Tcp_Properties Udp_Properties Http_Properties
begin

text \<open>
  What the error of a failed call tells its caller, for the four calls of the three clients: with the
  policies of the library it is either an error of the network, whose cause it still carries and
  whose kind it has, or the refusal of a slot.
\<close>

section \<open>The policies of the library\<close>

definition library_policy :: "lib \<Rightarrow> ('f, 'u world_scheme) float64 \<Rightarrow> 'u world_scheme policy \<Rightarrow> bool" where
  "library_policy L F p \<longleftrightarrow> (\<exists>t. p = NewTimeoutPolicy t) \<or> (\<exists>s n. p = NewConcurrencyLimitPolicy L s n) \<or>
     (\<exists>cfg. p = NewRetryPolicy F cfg)"

lemma silent_library: "library_policy L F p \<Longrightarrow> silent_after p"
  by (auto simp: library_policy_def silent_after_def timeoutAfter_def limitAfter_def NewConcurrencyLimitPolicy_eq
      NewRetryPolicy_def Let_def pbind_apply split: option.splits ctx_val.splits res.splits)

lemma limit_refusal:
  assumes "oops_ok L" and "limitBefore L (Some \<lparr>sem = Some (s, k)\<rparr>) c operation w = Some (Ret (c', Some e0), w')"
  shows "\<exists>r \<in> {CtxCanceled, CtxDeadline}. stems_from e0 r"
proof -
  let ?c = "normalizeContext c"
  have "\<exists>r. limit_refused L operation k (sems w s) (Some r) = Some e0 \<and> (ctx_err w ?c = Some r \<or> (\<exists>t. ctx_done w ?c = Some (t, r)))"
    using assms(2) by (auto simp: limitBefore_def limit_select_def Let_def split: if_splits option.splits)
  then obtain r where r: "limit_refused L operation k (sems w s) (Some r) = Some e0"
    and reason: "r \<in> {CtxCanceled, CtxDeadline}" using ctx_err_reason ctx_done_reason by blast
  from r have "stems_from e0 r" unfolding limit_refused_def by (rule stems_from_wrapf [OF assms(1)])
  then show ?thesis using reason by blast
qed

lemma library_refusal:
  assumes "oops_ok L" and "library_policy L F p" and "Before p c operation w = Some (Ret (c', Some e0), w')"
  shows "\<exists>r \<in> {CtxCanceled, CtxDeadline}. stems_from e0 r"
  using assms(2) unfolding library_policy_def
proof (elim disjE exE)
  fix t
  assume "p = NewTimeoutPolicy t"
  then show ?thesis using assms(3) timeoutBefore_deadline [of t c operation w] by fastforce
next
  fix s n
  assume "p = NewConcurrencyLimitPolicy L s n"
  then show ?thesis using assms(3) limit_refusal [OF assms(1)] by (simp add: NewConcurrencyLimitPolicy_eq)
next
  fix cfg
  assume "p = NewRetryPolicy F cfg"
  then show ?thesis using assms(3) by (simp add: NewRetryPolicy_def Let_def)
qed

text \<open>What a caller sees of a refusal: the reason its context gives, and no kind.\<close>

definition slot_refused :: "go_error \<Rightarrow> bool" where
  "slot_refused e \<longleftrightarrow> (errors_is (Some e) CtxCanceled \<or> errors_is (Some e) CtxDeadline) \<and>
     errors_as is_client_error (Some e) = None"

lemma stems_from_reason:
  assumes "stems_from e r" and "r \<in> {CtxCanceled, CtxDeadline}"
  shows "errors_is (Some e) r \<and> errors_as is_client_error (Some e) = None"
proof -
  have "errors_is (Some r) r" and "errors_as is_client_error (Some r) = None"
    using assms(2) by (auto simp: errors_is_Some errors_as_Some)
  then show ?thesis using assms(1) stems_from_is unfolding stems_from_def by metis
qed

lemma slot_refused_kind: "slot_refused e \<Longrightarrow> KindOf (Some e) = Ret ErrorKindUnknown \<and> IsKind (Some e) k = Ret False"
  by (simp add: slot_refused_def KindOf_def IsKind_def)

lemma refused_library:
  assumes "oops_ok L" and "\<forall>p \<in> ps. library_policy L F p" and "refused_error ps operation e"
  shows "slot_refused e"
proof -
  obtain p c w c' e0 w' where p: "p \<in> ps" and b: "Before p c operation w = Some (Ret (c', Some e0), w')"
    and e: "stems_from e e0" using assms(3) unfolding refused_error_def by blast
  from library_refusal [OF assms(1) assms(2) [rule_format, OF p] b] obtain r where
    r: "r \<in> {CtxCanceled, CtxDeadline}" and "stems_from e0 r" by blast
  with e have "stems_from e r" using stems_from_trans by blast
  from stems_from_reason [OF this r] show ?thesis using r unfolding slot_refused_def by auto
qed

section \<open>The four calls\<close>

lemma wrapped_raw:
  assumes "oops_ok L" and "oops_wrapf L d as (WrapError L p op addr (Some raw)) msg = Some e"
  shows "carries (Some e) (Some raw) \<and> KindOf (Some e) = Ret (raw_kind L raw)"
proof -
  have "KindOf (Some e) = KindOf (WrapError L p op addr (Some raw))" using KindOf_wrapf [OF assms(1)] assms(2) by metis
  moreover have "carries (Some e) (Some raw)"
    using carries_trans [OF carries_wrapf [OF assms(1)] carries_WrapError] assms(2) by metis
  ultimately show ?thesis by (simp add: KindOf_WrapError)
qed

lemma open_once_failure:
  assumes "open_once dial emit wrap mk execCtx w = Some (Ret (x, Some e), w')"
  shows "\<exists>raw w1. dial execCtx w = Some (Ret (Inl raw), w1) \<and> wrap (Some raw) = Some e"
  using assms unfolding open_once_def Let_def
  by (elim pbind_eq_SomeE) (auto elim!: pbind_eq_SomeE split: sum.splits)

definition tcp_raised :: "'u world_scheme net \<Rightarrow> tcp_Config \<Rightarrow> go_error \<Rightarrow> bool" where
  "tcp_raised N cfg raw \<longleftrightarrow> (\<exists>execCtx w w'. tcp_dialer N cfg execCtx w = Some (Ret (Inl raw), w'))"

interpretation tcp_dial_kind: kinded_calls "tcp_dialOnce (lawful M) N c" "tcp_fail (lawful M) operation"
    "tcp_dialled (lawful M) N c" "lawful M" "tcp_raised N (tcpCfg c)" for M N c operation
proof unfold_locales
  fix execCtx w x e w'
  assume "tcp_dialOnce (lawful M) N c execCtx w = Some (Ret (x, Some e), w')"
  then obtain raw w1 where "tcp_dialer N (tcpCfg c) execCtx w = Some (Ret (Inl raw), w1)"
    and wrap: "tcp_wrapClientError (lawful M) ''dial'' (tcpAddress (tcpCfg c)) (Some raw) = Some e"
    unfolding tcp_dialOnce_open using open_once_failure by blast
  moreover have "carries (Some e) (Some raw) \<and> KindOf (Some e) = Ret (raw_kind (lawful M) raw)"
    by (rule wrapped_raw [OF lawful_ok wrap [unfolded tcp_wrapClientError_def]])
  ultimately show "\<exists>raw. tcp_raised N (tcpCfg c) raw \<and> carries (Some e) (Some raw) \<and>
      KindOf (Some e) = Ret (raw_kind (lawful M) raw)"
    unfolding tcp_raised_def by blast
qed (auto simp: tcp_fail_def intro: stems_from_wrapf [OF lawful_ok])

definition udp_dial_raised :: "'u world_scheme packet_net \<Rightarrow> udp_Config \<Rightarrow> go_error \<Rightarrow> bool" where
  "udp_dial_raised N cfg raw \<longleftrightarrow> (\<exists>execCtx w w'.
     net_dial N None (udpDialTimeout cfg) 0 execCtx (udpNetwork cfg) (udpAddress cfg) w = Some (Ret (Inl raw), w'))"

definition udp_listen_raised :: "'u world_scheme packet_net \<Rightarrow> udp_Config \<Rightarrow> go_error \<Rightarrow> bool" where
  "udp_listen_raised N cfg raw \<longleftrightarrow> (\<exists>execCtx w w'.
     net_listen N execCtx (udpNetwork cfg) (udpAddress cfg) w = Some (Ret (Inl raw), w'))"

interpretation udp_dial_kind: kinded_calls "udp_dialOnce (lawful M) N c"
    "udp_fail (lawful M) ''execute udp dial operation'' operation" "udp_dialled (lawful M) N c" "lawful M"
    "udp_dial_raised N (udpCfg c)" for M N c operation
proof unfold_locales
  fix execCtx w x e w'
  assume "udp_dialOnce (lawful M) N c execCtx w = Some (Ret (x, Some e), w')"
  then obtain raw w1 where "net_dial N None (udpDialTimeout (udpCfg c)) 0 execCtx (udpNetwork (udpCfg c))
      (udpAddress (udpCfg c)) w = Some (Ret (Inl raw), w1)"
    and wrap: "udp_wrapClientError (lawful M) ''dial'' (udpAddress (udpCfg c)) (Some raw) = Some e"
    unfolding udp_dialOnce_open using open_once_failure by blast
  moreover have "carries (Some e) (Some raw) \<and> KindOf (Some e) = Ret (raw_kind (lawful M) raw)"
    by (rule wrapped_raw [OF lawful_ok wrap [unfolded udp_wrapClientError_def]])
  ultimately show "\<exists>raw. udp_dial_raised N (udpCfg c) raw \<and> carries (Some e) (Some raw) \<and>
      KindOf (Some e) = Ret (raw_kind (lawful M) raw)"
    unfolding udp_dial_raised_def by blast
qed (auto simp: udp_fail_def intro: stems_from_wrapf [OF lawful_ok])

interpretation udp_listen_kind: kinded_calls "udp_listenOnce (lawful M) N c"
    "udp_fail (lawful M) ''execute udp listen operation'' operation" "udp_listens (lawful M) N c" "lawful M"
    "udp_listen_raised N (udpCfg c)" for M N c operation
proof unfold_locales
  fix execCtx w x e w'
  assume "udp_listenOnce (lawful M) N c execCtx w = Some (Ret (x, Some e), w')"
  then obtain raw w1 where "net_listen N execCtx (udpNetwork (udpCfg c)) (udpAddress (udpCfg c)) w = Some (Ret (Inl raw), w1)"
    and wrap: "udp_wrapClientError (lawful M) ''listen'' (udpAddress (udpCfg c)) (Some raw) = Some e"
    unfolding udp_listenOnce_open using open_once_failure by blast
  moreover have "carries (Some e) (Some raw) \<and> KindOf (Some e) = Ret (raw_kind (lawful M) raw)"
    by (rule wrapped_raw [OF lawful_ok wrap [unfolded udp_wrapClientError_def]])
  ultimately show "\<exists>raw. udp_listen_raised N (udpCfg c) raw \<and> carries (Some e) (Some raw) \<and>
      KindOf (Some e) = Ret (raw_kind (lawful M) raw)"
    unfolding udp_listen_raised_def by blast
qed (auto simp: udp_fail_def intro: stems_from_wrapf [OF lawful_ok])

definition http_raised :: "('c, 'q, 'p, 'u world_scheme) resty \<Rightarrow> string \<Rightarrow> string \<Rightarrow> go_error \<Rightarrow> bool" where
  "http_raised Y method endpoint raw \<longleftrightarrow>
     (\<exists>q resp w w'. resty_Execute Y q method endpoint w = Some (Ret (resp, Some raw), w'))"

interpretation http_exec_kind: kinded_calls "http_executeOnce (lawful M) Y c req verb endpoint op addr"
    "http_fail (lawful M) operation" "http_answered Y verb endpoint" "lawful M" "http_raised Y verb endpoint"
  for M Y c req verb endpoint op addr operation
proof unfold_locales
  fix execCtx w x e w'
  assume "http_executeOnce (lawful M) Y c req verb endpoint op addr execCtx w = Some (Ret (x, Some e), w')"
  then show "\<exists>raw. http_raised Y verb endpoint raw \<and> carries (Some e) (Some raw) \<and>
      KindOf (Some e) = Ret (raw_kind (lawful M) raw)"
  proof (cases rule: http_executeOnce_cases)
    case (failed q resp raw v v')
    have "carries (Some e) (Some raw) \<and> KindOf (Some e) = Ret (raw_kind (lawful M) raw)"
      by (rule wrapped_raw [OF lawful_ok failed(3) [symmetric, unfolded http_wrapClientError_def]])
    then show ?thesis using failed(1) unfolding http_raised_def by blast
  qed simp
qed (auto simp: http_fail_def intro: stems_from_wrapf [OF lawful_ok])

section \<open>What a caller learns\<close>

text \<open>
  C14: what the error of a failed dial tells, the policies being those of the library. Either the dialer
  failed, at the last attempt: the client's error carries that failure, and \<open>KindOf\<close> answers its
  classification, however many retries, interrupted waits and wrappers there were. Or the call was refused
  a slot: then the error carries the reason of its context and has no kind at all.
\<close>

theorem tcp_Dial_error:
  assumes "oops_ok L" and "\<forall>p. Some p \<in> set (tcpPolicies c) \<longrightarrow> library_policy L F p"
    and "tcp_Dial L N c ctx w = Some (Ret (conn, Some e), w')"
  shows "(\<exists>raw. tcp_raised N (tcpCfg c) raw \<and> carries (Some e) (Some raw) \<and> KindOf (Some e) = Ret (raw_kind L raw)) \<or>
    slot_refused e \<and> KindOf (Some e) = Ret ErrorKindUnknown"
proof -
  have "\<forall>p. Some p \<in> set (tcpPolicies c) \<longrightarrow> silent_after p" using assms(2) silent_library by blast
  from tcp_dial_kind.failed_call [where M = L, unfolded lawful_eq [OF assms(1)], OF this assms(3) [unfolded tcp_Dial_call]]
  show ?thesis
    using refused_library [OF assms(1), of "{p. Some p \<in> set (tcpPolicies c)}" F] assms(2) slot_refused_kind by fastforce
qed

text \<open>The same for the two calls of a UDP client and for the requests of an HTTP client.\<close>

theorem udp_open_error:
  assumes "oops_ok L" and "\<forall>p. Some p \<in> set (udpPolicies c) \<longrightarrow> library_policy L F p"
  shows "(\<forall>conn e w'. udp_Dial L N c ctx w = Some (Ret (conn, Some e), w') \<longrightarrow>
      (\<exists>raw. udp_dial_raised N (udpCfg c) raw \<and> carries (Some e) (Some raw) \<and> KindOf (Some e) = Ret (raw_kind L raw)) \<or>
      slot_refused e) \<and>
    (\<forall>conn e w'. udp_ListenPacket L N c ctx w = Some (Ret (conn, Some e), w') \<longrightarrow>
      (\<exists>raw. udp_listen_raised N (udpCfg c) raw \<and> carries (Some e) (Some raw) \<and> KindOf (Some e) = Ret (raw_kind L raw)) \<or>
      slot_refused e)"
proof -
  have sil: "\<forall>p. Some p \<in> set (udpPolicies c) \<longrightarrow> silent_after p" using assms(2) silent_library by blast
  obtain op1 op2 where calls:
    "udp_Dial L N c ctx = client_call L (udp_dialOnce L N c) (udp_fail L ''execute udp dial operation'' op1) ctx op1 (udpPolicies c)"
    "udp_ListenPacket L N c ctx = client_call L (udp_listenOnce L N c) (udp_fail L ''execute udp listen operation'' op2) ctx op2 (udpPolicies c)"
    using udp_Dial_call udp_ListenPacket_call by blast
  note failed = udp_dial_kind.failed_call [where M = L, unfolded lawful_eq [OF assms(1)], OF sil]
    udp_listen_kind.failed_call [where M = L, unfolded lawful_eq [OF assms(1)], OF sil]
  have refused: "refused_error {p. Some p \<in> set (udpPolicies c)} op e \<Longrightarrow> slot_refused e" for op e
    by (rule refused_library [OF assms(1), where F = F]) (use assms(2) in auto)
  show ?thesis unfolding calls
  proof (intro conjI allI impI, goal_cases)
    case (1 conn e w')
    from failed(1) [OF 1] refused show ?case by blast
  next
    case (2 conn e w')
    from failed(2) [OF 2] refused show ?case by blast
  qed
qed

theorem http_Execute_error:
  assumes "oops_ok L" and "\<forall>p. Some p \<in> set (httpPolicies c) \<longrightarrow> library_policy L F p"
    and "http_Execute L Y c ctx req method endpoint w = Some (Ret (resp, Some e), w')"
  shows "(\<exists>raw. http_raised Y method endpoint raw \<and> carries (Some e) (Some raw) \<and> KindOf (Some e) = Ret (raw_kind L raw)) \<or>
    slot_refused e"
proof -
  have "\<forall>p. Some p \<in> set (httpPolicies c) \<longrightarrow> silent_after p" using assms(2) silent_library by blast
  from http_exec_kind.failed_call [where M = L, unfolded lawful_eq [OF assms(1)], OF this assms(3) [unfolded http_Execute_call Let_def]]
  show ?thesis
    using refused_library [OF assms(1), of "{p. Some p \<in> set (httpPolicies c)}" F] assms(2) by fastforce
qed

lemma slot_wait_pass:
  assumes "oops_ok L" and "0 < t" and "limit_cap n \<le> sems w s" and "cancelled_at w (next_id w) = None"
  defines "c \<equiv> ValueCtx TimeoutCancelKey (CancelFunc (next_id w)) (TimerCtx (next_id w) (now w + t) Background)"
  shows "\<exists>e. applyBeforePolicies L (Some Background) [NewTimeoutPolicy t, NewConcurrencyLimitPolicy L s n] operation w =
      Some (Ret (Some c, [NewTimeoutPolicy t], Some e), w\<lparr>next_id := Suc (next_id w), now := now w + t\<rparr>) \<and>
    stems_from e CtxDeadline"
proof -
  let ?w1 = "w\<lparr>next_id := Suc (next_id w)\<rparr>"
  have guard: "callPolicyBefore L (Some Background) (NewTimeoutPolicy t) operation w = Some (Ret (Some c, None), ?w1)"
    using assms(2) by (simp add: callPolicyBefore_def timeoutBefore_def with_timeout_def normalizeContext_def
        wrapPolicyBeforeError_def c_def Let_def prog_simps)
  have d: "ctx_done ?w1 c = Some (now w + t, CtxDeadline)" using assms(4) by (simp add: c_def)
  then have e: "ctx_err ?w1 c = None" using assms(2) by (simp add: ctx_err_def)
  obtain e0 where refused: "limit_refused L operation (limit_cap n) (sems w s) (Some CtxDeadline) = Some e0"
    using limit_refused_not_None [OF assms(1)] by blast
  obtain e1 where e1: "wrapPolicyBeforeError L operation (Some e0) = Some e1"
    using oops_wrapf_SomeE [OF assms(1)] unfolding wrapPolicyBeforeError_def by (metis option.distinct(1))
  have "stems_from e0 CtxDeadline"
    by (rule stems_from_wrapf [OF assms(1) refused [unfolded limit_refused_def]])
  moreover have "stems_from e1 e0" using e1 stems_from_wrapf [OF assms(1)] by (simp add: wrapPolicyBeforeError_def)
  ultimately have stems: "stems_from e1 CtxDeadline" using stems_from_trans by blast
  have "limitBefore L (Some \<lparr>sem = Some (s, limit_cap n)\<rparr>) (Some c) operation ?w1 =
      Some (Ret (Some c, Some e0), ?w1\<lparr>now := now w + t\<rparr>)"
    using assms(2,3) d e refused by (simp add: limitBefore_def limit_select_def normalizeContext_def Let_def max_def)
  then have "callPolicyBefore L (Some c) (NewConcurrencyLimitPolicy L s n) operation ?w1 =
      Some (Ret (Some c, Some e1), ?w1\<lparr>now := now w + t\<rparr>)"
    by (simp add: callPolicyBefore_def NewConcurrencyLimitPolicy_eq e1 prog_simps)
  with guard show ?thesis using stems by (simp add: pbind_apply)
qed

text \<open>
  C30: so the kind misses a timeout: a dial that waits for a slot until its guard expires fails with an error
  that \<open>errors.Is\<close> recognises as \<open>context.DeadlineExceeded\<close>, but that holds no \<open>*clientx.Error\<close>, and \<open>IsKind\<close>
  answers no to every kind, \<open>ErrorKindTimeout\<close> among them.
\<close>

theorem slot_timeout_no_kind:
  assumes "oops_ok L" and "tcpPolicies c = [Some (NewTimeoutPolicy t), Some (NewConcurrencyLimitPolicy L s n)]"
    and "0 < t" and "limit_cap n \<le> sems w s" and "cancelled_at w (next_id w) = None"
  shows "\<exists>e w'. tcp_Dial L N c None w = Some (Ret (None, Some e), w') \<and> now w' = now w + t \<and>
    errors_is (Some e) CtxDeadline \<and> (\<forall>k. IsKind (Some e) k = Ret False)"
proof -
  let ?op = "tcp_operation (tcpCfg c)"
  obtain e1 x where e1: "applyBeforePolicies L (Some Background) [NewTimeoutPolicy t, NewConcurrencyLimitPolicy L s n]
      (normalizeOperation ?op) w =
      Some (Ret (Some x, [NewTimeoutPolicy t], Some e1), w\<lparr>next_id := Suc (next_id w), now := now w + t\<rparr>)"
    and stems: "stems_from e1 CtxDeadline"
    using slot_wait_pass [OF assms(1,3,4,5)] by blast
  have after: "\<exists>w2. callPolicyAfter L (Some x) (NewTimeoutPolicy t) operation err v = Some (Ret (True, None), w2) \<and> now w2 = now v"
    for operation err and v :: "'a world_scheme"
    by (auto simp: callPolicyAfter_def timeoutAfter_def cancel_ctx_def wrapPolicyAfterError_def prog_simps
        split: option.split ctx_val.split)
  obtain w' where "callPolicyAfter L (Some x) (NewTimeoutPolicy t) (normalizeOperation ?op) (Some e1)
      (w\<lparr>next_id := Suc (next_id w), now := now w + t\<rparr>) = Some (Ret (True, None), w')" and now: "now w' = now w + t"
    using after by fastforce
  then have run: "InvokeWithPolicies L None None ?op (Some (tcp_dialOnce L N c)) (tcpPolicies c) w = Some (Ret (None, Some e1), w')"
    using e1 by (simp add: InvokeWithPolicies_def normalizeContext_def filterPolicies_def assms(2) Let_def invokeAttempt_def
        invokeLoop.simps [of L Background] applyAfterPolicies_def pbind_apply del: applyBeforePolicies.simps)
  obtain e where e: "tcp_fail L ?op (Some e1) = Some e"
    using oops_wrapf_SomeE [OF assms(1)] unfolding tcp_fail_def by metis
  then have "stems_from e e1" unfolding tcp_fail_def by (rule stems_from_wrapf [OF assms(1)])
  then have "stems_from e CtxDeadline" using stems stems_from_trans by blast
  from stems_from_reason [OF this] have "errors_is (Some e) CtxDeadline \<and> (\<forall>k. IsKind (Some e) k = Ret False)"
    by (simp add: IsKind_def)
  moreover have "tcp_Dial L N c None w = Some (Ret (None, Some e), w')"
    unfolding tcp_Dial_call client_call_def using run e by (simp add: pbind_apply)
  ultimately show ?thesis using now by blast
qed

text \<open>For the witnesses: a network that refuses every connection, and a client with one slot that is taken.\<close>

definition refused_dial :: go_error where
  "refused_dial = OpError ''dial'' ''tcp'' None None (SyscallError ''connect'' (Errno ECONNREFUSED))"

definition refusing_net :: "'u net_world_scheme net" where
  "refusing_net = \<lparr>net_dial = (\<lambda>tls timeout keepAlive execCtx network addr. pret (Inl refused_dial))\<rparr>"

lemma refused_dial_kind: "raw_kind plain_lib refused_dial = ErrorKindConnRefused"
proof -
  have "isConnRefused (SyscallError ''connect'' (Errno ECONNREFUSED))"
    by (simp add: isConnRefused.simps errors_is_def)
  then show ?thesis
    by (simp add: raw_kind_def refused_dial_def classify_order errors_is_def errors_as_def timeout_method.simps
        errno_defs)
qed

theorem tcp_Dial_error_witness:
  "\<exists>e. tcp_Dial plain_lib refusing_net (sample_tcp_client [Some (NewTimeoutPolicy second)]) None (net_start []) =
      Some (Ret (None, Some e), (net_start [])\<lparr>next_id := 1, cancelled_at := (\<lambda>_. None)(0 := Some 0)\<rparr>) \<and>
    errors_is (Some e) (Errno ECONNREFUSED) \<and> KindOf (Some e) = Ret ErrorKindConnRefused"
proof -
  let ?c = "sample_tcp_client [Some (NewTimeoutPolicy second)] :: net_world tcp_DefaultClient"
  have k: "classifyErrorKind plain_lib (Some refused_dial) = ErrorKindConnRefused"
    using refused_dial_kind by (simp add: raw_kind_def refused_dial_def errors_as_def)
  have s: "\<not> second \<le> 0" using second_pos(1) by linarith
  have c: "tcpPolicies ?c = [Some (NewTimeoutPolicy second)]" by (simp add: sample_tcp_client_def)
  have once: "tcp_dialOnce plain_lib refusing_net ?c x w =
      Some (Ret (None, tcp_wrapClientError plain_lib ''dial'' (tcpAddress (tcpCfg ?c)) (Some refused_dial)), w)" for x w
    by (simp add: tcp_dialOnce_open open_once_def tcp_dialer_def refusing_net_def sample_tcp_client_def EmitDial_def
        Let_def pbind_apply)
  obtain e where run: "tcp_Dial plain_lib refusing_net ?c None (net_start []) =
      Some (Ret (None, Some e), (net_start [])\<lparr>next_id := 1, cancelled_at := (\<lambda>_. None)(0 := Some 0)\<rparr>)"
    and not_refused: "\<not> slot_refused e"
    by (simp add: tcp_Dial_def tcp_invokeWithPolicies_def InvokeWithPolicies_def normalizeContext_def filterPolicies_def
        invokeLoop.simps [of plain_lib Background] invokeAttempt_def applyAfterPolicies_def callPolicyBefore_def
        callPolicyAfter_def timeoutBefore_def timeoutAfter_def with_timeout_def cancel_ctx_def wrapPolicyBeforeError_def
        wrapPolicyAfterError_def retryOrReturn_def decideRetry_def once tcp_wrapClientError_def WrapError_def
        WrapErrorWithKind_def net_start_def c slot_refused_def errors_is_def errors_as_def
        refused_dial_def s prog_simps Let_def)
  have "library_policy plain_lib (binary64 0) (NewTimeoutPolicy second :: net_world policy)"
    by (auto simp: library_policy_def)
  then have "\<forall>p. Some p \<in> set (tcpPolicies ?c) \<longrightarrow> library_policy plain_lib (binary64 0) p"
    by (simp add: sample_tcp_client_def)
  from tcp_Dial_error [OF plain_lib_ok this run] not_refused obtain raw where
    raw: "tcp_raised (refusing_net :: net_world net) (tcpCfg ?c) raw" "carries (Some e) (Some raw)" "KindOf (Some e) = Ret (raw_kind plain_lib raw)"
    by blast
  have r: "raw = refused_dial" using raw(1) by (simp add: tcp_raised_def tcp_dialer_def refusing_net_def)
  have "errors_is (Some refused_dial) (Errno ECONNREFUSED)"
    by (simp add: refused_dial_def errors_is_def)
  with raw(2) [unfolded r] have "errors_is (Some e) (Errno ECONNREFUSED)" by (rule carries_errors_is)
  then show ?thesis using run raw(3) [unfolded r refused_dial_kind] by (intro exI conjI)
qed

theorem slot_timeout_no_kind_witness:
  "\<exists>e w'. tcp_Dial plain_lib mem_net (sample_tcp_client [Some (NewTimeoutPolicy second),
        Some (NewConcurrencyLimitPolicy plain_lib 7 1)]) None ((net_start [])\<lparr>sems := \<lambda>_. 1\<rparr>) = Some (Ret (None, Some e), w') \<and>
    now w' = second \<and> errors_is (Some e) CtxDeadline \<and> IsKind (Some e) ErrorKindTimeout = Ret False"
  using slot_timeout_no_kind [OF plain_lib_ok, of "sample_tcp_client [Some (NewTimeoutPolicy second),
      Some (NewConcurrencyLimitPolicy plain_lib 7 1)]" second 7 1 "(net_start [])\<lparr>sems := \<lambda>_. 1\<rparr>" mem_net]
  by (auto simp: sample_tcp_client_def net_start_def limit_cap_def)

end
