(* ===== verification/Api.thy ===== *)
theory Api
  imports Error_Report
begin

text \<open>
  \<^verbatim>\<open>capability.go\<close> and the three \<^verbatim>\<open>api.go\<close>: the interfaces the clients are used through. An interface is
  the record of its methods, one that embeds others has them as components, and an assertion such as
  \<^verbatim>\<open>var _ Client = (*DefaultClient)(nil)\<close> is the conversion of a client into the interface. What a holder
  of a \<open>Dialer\<close> may rely on, whatever client is behind it, is the locale \<open>dial_capability\<close>.
\<close>

section \<open>Capabilities\<close>

record 'w Closer =
  Closer_Close :: "(go_error option, 'w) prog"

record 'w Dialer =
  Dialer_Dial :: "ctx option \<Rightarrow> ('w conn option \<times> go_error option, 'w) prog"

record 'w PacketListener =
  PacketListener_ListenPacket :: "ctx option \<Rightarrow> ('w packet_conn option \<times> go_error option, 'w) prog"

section \<open>The clients\<close>

record ('w, 'o) tcp_Client =
  tcp_Client_Closer :: "'w Closer"
  tcp_Client_Dialer :: "'w Dialer"
  tcp_Client_DialCodec :: "ctx option \<Rightarrow> 'o codec option \<Rightarrow> 'w framer option \<Rightarrow>
     (('w, 'o) tcp_CodecConn option \<times> go_error option, 'w) prog"

definition tcp_as_Dialer ::
  "lib \<Rightarrow> 'u world_scheme net \<Rightarrow> 'u world_scheme tcp_DefaultClient \<Rightarrow> 'u world_scheme Dialer" where
  "tcp_as_Dialer L N c = \<lparr>Dialer_Dial = tcp_Dial L N c\<rparr>"

definition tcp_as_Client ::
  "lib \<Rightarrow> 'u world_scheme net \<Rightarrow> 'u world_scheme tcp_DefaultClient \<Rightarrow> ('u world_scheme, 'o) tcp_Client" where
  "tcp_as_Client L N c =
     \<lparr>tcp_Client_Closer = \<lparr>Closer_Close = pret (tcp_Close c)\<rparr>,
      tcp_Client_Dialer = tcp_as_Dialer L N c,
      tcp_Client_DialCodec = tcp_DialCodec L N c\<rparr>"

record ('w, 'o) udp_Client =
  udp_Client_Closer :: "'w Closer"
  udp_Client_Dialer :: "'w Dialer"
  udp_Client_PacketListener :: "'w PacketListener"
  udp_Client_DialCodec :: "ctx option \<Rightarrow> 'o codec option \<Rightarrow>
     (('w, 'o) udp_CodecConn option \<times> go_error option, 'w) prog"
  udp_Client_ListenPacketCodec :: "ctx option \<Rightarrow> 'o codec option \<Rightarrow>
     (('w, 'o) udp_CodecPacketConn option \<times> go_error option, 'w) prog"

definition udp_as_PacketListener ::
  "lib \<Rightarrow> 'u world_scheme packet_net \<Rightarrow> 'u world_scheme udp_DefaultClient \<Rightarrow> 'u world_scheme PacketListener" where
  "udp_as_PacketListener L N c = \<lparr>PacketListener_ListenPacket = udp_ListenPacket L N c\<rparr>"

definition udp_as_Client ::
  "lib \<Rightarrow> 'u world_scheme packet_net \<Rightarrow> 'u world_scheme udp_DefaultClient \<Rightarrow> ('u world_scheme, 'o) udp_Client" where
  "udp_as_Client L N c =
     \<lparr>udp_Client_Closer = \<lparr>Closer_Close = pret (udp_Close c)\<rparr>,
      udp_Client_Dialer = \<lparr>Dialer_Dial = udp_Dial L N c\<rparr>,
      udp_Client_PacketListener = udp_as_PacketListener L N c,
      udp_Client_DialCodec = udp_DialCodec L N c,
      udp_Client_ListenPacketCodec = udp_ListenPacketCodec L N c\<rparr>"

record ('c, 'q, 'p, 'w) http_Client =
  http_Client_Closer :: "'w Closer"
  http_Client_Raw :: "'c option"
  http_Client_R :: "('q, 'w) prog"
  http_Client_Execute :: "ctx option \<Rightarrow> 'q option \<Rightarrow> string \<Rightarrow> string \<Rightarrow> ('p option \<times> go_error option, 'w) prog"

definition http_as_Client ::
  "lib \<Rightarrow> ('c, 'q, 'p, 'u world_scheme) resty \<Rightarrow> ('c, 'u world_scheme) http_DefaultClient \<Rightarrow>
   ('c, 'q, 'p, 'u world_scheme) http_Client" where
  "http_as_Client L Y c =
     \<lparr>http_Client_Closer = \<lparr>Closer_Close = http_Close Y (Some c)\<rparr>,
      http_Client_Raw = http_Raw c,
      http_Client_R = http_R Y c,
      http_Client_Execute = http_Execute L Y c\<rparr>"

section \<open>What a holder of a Dialer relies on\<close>

text \<open>
  After \<^verbatim>\<open>conn, err := d.Dial(ctx)\<close> a program tests \<open>err\<close> and then uses \<open>conn\<close>. \<open>with_dialed\<close> is that
  shape: a nil connection that is used panics. The capability is that this never happens.
\<close>

definition with_dialed ::
  "'w Dialer \<Rightarrow> ctx option \<Rightarrow> (go_error \<Rightarrow> ('a, 'w) prog) \<Rightarrow> ('w conn \<Rightarrow> ('a, 'w) prog) \<Rightarrow> ('a, 'w) prog" where
  "with_dialed d ctx failed use =
     pbind (Dialer_Dial d ctx) (\<lambda>(conn, err). case err of
         Some e \<Rightarrow> failed e
       | None \<Rightarrow> (case conn of None \<Rightarrow> ppanic | Some c \<Rightarrow> use c))"

locale dial_capability =
  fixes d :: "'u world_scheme Dialer" and dialled :: "'u world_scheme conn \<Rightarrow> bool"
  assumes dial_result: "Dialer_Dial d ctx w = Some (Ret (conn, err), w') \<Longrightarrow>
    if err = None then \<exists>c. conn = Some c \<and> dialled c else conn = None"
begin

text \<open>The call after the dial goes one of three ways, and none of them uses a nil connection.\<close>

lemma with_dialed_cases:
  assumes "with_dialed d ctx failed use w = Some (r, w')"
  obtains (failed) e w1 where "Dialer_Dial d ctx w = Some (Ret (None, Some e), w1)" "failed e w1 = Some (r, w')"
  | (used) c w1 where "Dialer_Dial d ctx w = Some (Ret (Some c, None), w1)" "dialled c" "use c w1 = Some (r, w')"
  | (panicked) "Dialer_Dial d ctx w = Some (Panic, w')" "r = Panic"
proof -
  from assms show thesis
    unfolding with_dialed_def
  proof (cases rule: pbind_eq_SomeE)
    case (1 a w1)
    obtain conn err where a: "a = (conn, err)" by (cases a)
    note res = dial_result [OF 1(1) [unfolded a]]
    show thesis
    proof (cases err)
      case (Some e)
      then show thesis using 1 a res by (auto intro: failed)
    next
      case None
      then show thesis using 1 a res by (auto intro: used)
    qed
  qed (rule panicked)
qed

lemma returns_with_dialed:
  assumes "returns (Dialer_Dial d ctx)" and "\<And>e. returns (failed e)" and "\<And>c. dialled c \<Longrightarrow> returns (use c)"
  shows "returns (with_dialed d ctx failed use)"
  unfolding with_dialed_def
proof (rule returns_pbind' [OF assms(1)])
  fix a w w'
  assume run: "Dialer_Dial d ctx w = Some (Ret a, w')"
  obtain conn err where a: "a = (conn, err)" by (cases a)
  show "(case a of (conn, err) \<Rightarrow> case err of Some e \<Rightarrow> failed e
      | None \<Rightarrow> (case conn of None \<Rightarrow> ppanic | Some c \<Rightarrow> use c)) w' \<noteq> None"
    using dial_result [OF run [unfolded a]] a assms(2,3) by (auto simp: returns_def split: option.split)
qed

end

interpretation tcp_dialer_capability: dial_capability "tcp_as_Dialer (lawful M) N c" "tcp_dialled (lawful M) N c" for M N c
proof
  fix ctx w conn err w'
  assume "Dialer_Dial (tcp_as_Dialer (lawful M) N c) ctx w = Some (Ret (conn, err), w')"
  then show "if err = None then \<exists>d. conn = Some d \<and> tcp_dialled (lawful M) N c d else conn = None"
    using tcp_dial.result unfolding tcp_as_Dialer_def tcp_Dial_call by fastforce
qed

definition udp_as_Dialer ::
  "lib \<Rightarrow> 'u world_scheme packet_net \<Rightarrow> 'u world_scheme udp_DefaultClient \<Rightarrow> 'u world_scheme Dialer" where
  "udp_as_Dialer L N c = udp_Client_Dialer (udp_as_Client L N c :: ('u world_scheme, unit) udp_Client)"

interpretation udp_dialer_capability: dial_capability "udp_as_Dialer (lawful M) N c" "udp_dialled (lawful M) N c" for M N c
proof
  fix ctx w conn err w'
  assume "Dialer_Dial (udp_as_Dialer (lawful M) N c) ctx w = Some (Ret (conn, err), w')"
  then have "udp_Dial (lawful M) N c ctx w = Some (Ret (conn, err), w')"
    by (simp add: udp_as_Dialer_def udp_as_Client_def)
  then show "if err = None then \<exists>d. conn = Some d \<and> udp_dialled (lawful M) N c d else conn = None"
    using udp_dial.result udp_Dial_call [of "lawful M" N c ctx] by fastforce
qed

end
