(* ===== verification/Go_Programs.thy ===== *)
theory Go_Programs
  imports Api
begin

text \<open>
  What the programs under \<^verbatim>\<open>examples/\<close> use of Go beside the clients: deferred calls, \<open>fmt\<close> and \<open>log\<close>,
  goroutines that answer over a channel, and reading a line with \<open>bufio\<close>.
\<close>

section \<open>Deferred calls\<close>

text \<open>\<open>pdefer d m\<close> is \<open>m\<close> after \<^verbatim>\<open>defer d\<close>: \<open>d\<close> runs however \<open>m\<close> ends; a panic goes on after it.\<close>

definition pdefer :: "(unit, 'w) prog \<Rightarrow> ('a, 'w) prog \<Rightarrow> ('a, 'w) prog" where
  "pdefer d m = (\<lambda>w. case m w of
       None \<Rightarrow> None
     | Some (r, w') \<Rightarrow> (case d w' of
           None \<Rightarrow> None
         | Some (Ret _, w'') \<Rightarrow> Some (r, w'')
         | Some (Panic, w'') \<Rightarrow> Some (Panic, w'')))"

lemma pdefer_SomeE:
  assumes "pdefer d m w = Some (r, w'')"
  obtains r0 w' x where "m w = Some (r0, w')" "d w' = Some (x, w'')" "r = r0 \<or> r = Panic \<and> x = Panic"
  using assms by (auto simp: pdefer_def split: option.splits prod.splits res.splits)

lemma pdefer_run:
  "m w = Some (r, w') \<Longrightarrow> d w' = Some (Ret (), w'') \<Longrightarrow> pdefer d m w = Some (r, w'')"
  by (simp add: pdefer_def)

lemma returns_pdefer [intro]: "returns d \<Longrightarrow> returns m \<Longrightarrow> returns (pdefer d m)"
  by (auto simp: returns_def pdefer_def split: option.splits res.splits prod.splits) (metis option.distinct(1))

section \<open>Output\<close>

text \<open>The format of a call and its arguments; the rendering is left to the package.\<close>

record 'w stdio =
  Printf :: "string \<Rightarrow> attr list \<Rightarrow> (go_error option, 'w) prog"
  LogPrintf :: "string \<Rightarrow> attr list \<Rightarrow> (unit, 'w) prog"

definition quiet_stdio :: "'w stdio" where
  "quiet_stdio = \<lparr>Printf = (\<lambda>fmt as. pret None), LogPrintf = (\<lambda>fmt as. pret ())\<rparr>"

text \<open>\<open>fmt.Errorf\<close> with one \<^verbatim>\<open>%w\<close> at the end: an error of \<open>fmt\<close> that wraps its argument.\<close>

definition fmt_Errorf :: "lib \<Rightarrow> string \<Rightarrow> go_error \<Rightarrow> go_error" where
  "fmt_Errorf L msg e = Foreign ''*fmt.wrapError'' (msg @ '': '' @ error_text L e) None [e]"

lemma fmt_Errorf_stems: "stems_from (fmt_Errorf L msg e) e"
  by (simp add: stems_from_def fmt_Errorf_def carries_Some_iff chain.simps [of "Foreign _ _ _ _"])

text \<open>
  \<open>go_chan\<close> makes a channel with room for one value and starts a goroutine, its body given the send; what
  it answers is the receive. When the goroutine runs in between is the scheduler's choice, so it is a parameter.
\<close>

type_synonym ('a, 'w) go_chan = "(('a \<Rightarrow> (unit, 'w) prog) \<Rightarrow> (unit, 'w) prog) \<Rightarrow> (('a, 'w) prog, 'w) prog"

section \<open>Reading a line\<close>

text \<open>
  \<open>bufio.NewReader(rd).ReadString(delim)\<close>: a buffer of 4096 bytes is filled by reads that may bring less,
  and given up after a hundred that bring nothing; full buffers are set aside. \<open>buf\<close> is what the buffer
  holds, \<open>full\<close> what has been set aside, \<open>err\<close> a pending error. Bytes after the delimiter stay in
  the buffer, which is lost with the reader.
\<close>

definition bufio_size :: nat where "bufio_size = 4096"

lemma bufio_size_pos [simp]: "0 < bufio_size"
  by (simp add: bufio_size_def)

definition ErrNoProgress :: go_error where
  "ErrNoProgress = ErrNew ''io.ErrNoProgress'' ''multiple Read calls return no data or error''"

fun bufio_fill :: "nat \<Rightarrow> 'w reader \<Rightarrow> nat \<Rightarrow> (byte list \<times> go_error option, 'w) prog" where
  "bufio_fill 0 rd n = pret ([], Some ErrNoProgress)"
| "bufio_fill (Suc tries) rd n =
     pbind (rd n) (\<lambda>(data, err).
       if n < length data then ppanic
       else if err \<noteq> None \<or> data \<noteq> [] then pret (data, err)
       else bufio_fill tries rd n)"

partial_function (option) read_string_loop ::
  "'w reader \<Rightarrow> byte \<Rightarrow> byte list \<Rightarrow> byte list \<Rightarrow> go_error option \<Rightarrow> 'w \<Rightarrow>
   ((byte list \<times> go_error option) res \<times> 'w) option" where
  "read_string_loop rd delim full buf err w =
     (if delim \<in> set buf then Some (Ret (full @ takeWhile (\<lambda>b. b \<noteq> delim) buf @ [delim], None), w)
      else if err \<noteq> None then Some (Ret (full @ buf, err), w)
      else if bufio_size \<le> length buf then read_string_loop rd delim (full @ buf) [] None w
      else case bufio_fill 100 rd (bufio_size - length buf) w of
          None \<Rightarrow> None
        | Some (Panic, w') \<Rightarrow> Some (Panic, w')
        | Some (Ret (data, err), w') \<Rightarrow> read_string_loop rd delim full (buf @ data) err w')"

declare read_string_loop.simps [simp del]

definition bufio_ReadString :: "'w reader \<Rightarrow> byte \<Rightarrow> (byte list \<times> go_error option, 'w) prog" where
  "bufio_ReadString rd delim = read_string_loop rd delim [] [] None"

lemma bufio_fill_100:
  "bufio_fill 100 rd n = pbind (rd n) (\<lambda>(data, err).
     if n < length data then ppanic else if err \<noteq> None \<or> data \<noteq> [] then pret (data, err) else bufio_fill 99 rd n)"
  using bufio_fill.simps(2) [of 99 rd n] by simp

text \<open>Over a reader that keeps the contract of a stream: one read fills, and the loop ends.\<close>

context byte_source begin

lemma fill_some:
  assumes "0 < n" and "src w \<noteq> []"
  shows "\<exists>k w'. 0 < k \<and> k \<le> n \<and> bufio_fill 100 rd n w = Some (Ret (take k (src w), None), w') \<and> src w' = drop k (src w)"
proof -
  obtain k w' where k: "0 < k" "k \<le> n" "rd n w = Some (Ret (take k (src w), None), w')" "src w' = drop k (src w)"
    using read_some [OF assms] by blast
  then have "bufio_fill 100 rd n w = Some (Ret (take k (src w), None), w')"
    using assms(2) by (simp add: bufio_fill_100 pbind_apply)
  then show ?thesis using k by blast
qed

lemma fill_end:
  assumes "0 < n" and "src w = []"
  shows "\<exists>w'. bufio_fill 100 rd n w = Some (Ret ([], Some eof), w') \<and> src w' = []"
proof -
  obtain w' where w': "rd n w = Some (Ret ([], Some eof), w')" "src w' = []" using read_end [OF assms] by blast
  then show ?thesis by (simp add: bufio_fill_100 pbind_apply)
qed

text \<open>The line is found however the stream is cut, and nothing before it is lost.\<close>

lemma read_string_found:
  assumes "d \<notin> set buf" and "d \<notin> set l" and "src w = l @ d # rest" and "length buf \<le> bufio_size"
  shows "\<exists>k w'. read_string_loop rd d full buf None w = Some (Ret (full @ buf @ l @ [d], None), w') \<and> src w' = drop k rest"
  using assms
proof (induction "2 * length l + (if length buf = bufio_size then 1 else 0)" arbitrary: full buf l w rule: less_induct)
  case less
  note step = read_string_loop.simps [of rd d full buf None w]
  show ?case
  proof (cases "length buf = bufio_size")
    case True
    then have "\<exists>k w'. read_string_loop rd d (full @ buf) [] None w = Some (Ret ((full @ buf) @ [] @ l @ [d], None), w') \<and> src w' = drop k rest"
      using less.prems(2,3) bufio_size_pos by (intro less.hyps) auto
    then show ?thesis using less.prems(1) True by (simp add: step)
  next
    case False
    then have room: "0 < bufio_size - length buf" using less.prems(4) by simp
    obtain k w1 where k: "0 < k" "k \<le> bufio_size - length buf" "src w1 = drop k (src w)"
      "bufio_fill 100 rd (bufio_size - length buf) w = Some (Ret (take k (src w), None), w1)"
      using fill_some [OF room, of w] less.prems(3) by auto
    have run: "read_string_loop rd d full buf None w = read_string_loop rd d full (buf @ take k (src w)) None w1"
      using less.prems(1,4) False k(4) by (simp add: step)
    show ?thesis
    proof (cases "k \<le> length l")
      case True
      have "2 * length (drop k l) + (if length (buf @ take k l) = bufio_size then 1 else 0) <
          2 * length l + (if length buf = bufio_size then 1 else 0)" using True k(1) by auto
      then have "\<exists>k' w'. read_string_loop rd d full (buf @ take k l) None w1 =
          Some (Ret (full @ (buf @ take k l) @ drop k l @ [d], None), w') \<and> src w' = drop k' rest"
        using less.prems k(2,3) True by (intro less.hyps) (auto dest: in_set_takeD in_set_dropD)
      moreover have "take k (src w) = take k l" using True less.prems(3) by simp
      moreover have "take k l @ drop k l @ [d] = l @ [d]" by (metis append.assoc append_take_drop_id)
      ultimately show ?thesis unfolding run append_assoc by simp
    next
      case False
      then obtain j where j: "k = Suc (length l + j)" by (metis add_Suc_right less_imp_Suc_add not_le)
      then have "take k (src w) = l @ d # take j rest" and "src w1 = drop j rest" using less.prems(3) k(3) by simp_all
      moreover have "takeWhile (\<lambda>b. b \<noteq> d) (buf @ l @ d # take j rest) = buf @ l"
        using less.prems(1,2) by (simp add: takeWhile_append takeWhile_eq_all_conv)
      ultimately show ?thesis unfolding run
        by (auto simp: read_string_loop.simps [of rd d full "buf @ l @ d # take j rest"])
    qed
  qed
qed

text \<open>A stream that ends first gives all it held, and its end as the error.\<close>

lemma read_string_ends:
  assumes "d \<notin> set buf" and "d \<notin> set (src w)" and "length buf \<le> bufio_size"
  shows "\<exists>w'. read_string_loop rd d full buf None w = Some (Ret (full @ buf @ src w, Some eof), w') \<and> src w' = []"
  using assms
proof (induction "2 * length (src w) + (if length buf = bufio_size then 1 else 0)" arbitrary: full buf w rule: less_induct)
  case less
  note step = read_string_loop.simps [of rd d full buf None w]
  show ?case
  proof (cases "length buf = bufio_size")
    case True
    then have "\<exists>w'. read_string_loop rd d (full @ buf) [] None w = Some (Ret ((full @ buf) @ [] @ src w, Some eof), w') \<and> src w' = []"
      using less.prems(2) bufio_size_pos by (intro less.hyps) auto
    then show ?thesis using less.prems(1) True by (simp add: step)
  next
    case False
    then have room: "0 < bufio_size - length buf" using less.prems(3) by simp
    show ?thesis
    proof (cases "src w = []")
      case True
      then obtain w1 where "bufio_fill 100 rd (bufio_size - length buf) w = Some (Ret ([], Some eof), w1)" "src w1 = []"
        using fill_end [OF room] by blast
      then show ?thesis using less.prems(1,3) False True
        by (simp add: step read_string_loop.simps [of rd d full buf "Some eof"])
    next
      case nonempty: False
      obtain k w1 where k: "0 < k" "k \<le> bufio_size - length buf" "src w1 = drop k (src w)"
        "bufio_fill 100 rd (bufio_size - length buf) w = Some (Ret (take k (src w), None), w1)"
        using fill_some [OF room nonempty] by blast
      have "2 * length (src w1) + (if length (buf @ take k (src w)) = bufio_size then 1 else 0) <
          2 * length (src w) + (if length buf = bufio_size then 1 else 0)"
        using k(1,3) nonempty by (cases "length (src w)") auto
      then have "\<exists>w'. read_string_loop rd d full (buf @ take k (src w)) None w1 =
          Some (Ret (full @ (buf @ take k (src w)) @ src w1, Some eof), w') \<and> src w' = []"
        using less.prems k(2,3) by (intro less.hyps) (auto dest: in_set_takeD in_set_dropD)
      then show ?thesis using less.prems(1,3) False k(3,4) by (simp add: step)
    qed
  qed
qed

end

end
