(* ===== verification/Examples.thy ===== *)
theory Examples
  imports Go_Programs Preset
begin

text \<open>
  The three programs under \<^verbatim>\<open>examples/\<close>: each starts a server of its own and talks to it through a preset
  client. What the operating system gives them (listeners, the test server) is a parameter, and so is
  the scheduler of goroutines (\<open>go_chan\<close>); a \<^verbatim>\<open>panic\<close> ends in \<open>Panic\<close> after the deferred calls.
\<close>

section \<open>internal_rpc_tcp\<close>

record 'w listener =
  Accept :: "(go_error + 'w conn, 'w) prog"
  ListenerClose :: "(go_error option, 'w) prog"
  ListenerAddr :: string

record 'w tcpDialCloser =
  tdc_Dialer :: "'w Dialer"
  tdc_Closer :: "'w Closer"

definition rpc_closeWithLog :: "lib \<Rightarrow> 'w stdio \<Rightarrow> string \<Rightarrow> 'w Closer \<Rightarrow> (unit, 'w) prog" where
  "rpc_closeWithLog L IO name closer =
     pbind (Closer_Close closer) (\<lambda>err. case err of
       None \<Rightarrow> pret ()
     | Some e \<Rightarrow> LogPrintf IO ''close %s: %v'' [AStr name, AErr e])"

definition conn_Closer :: "'w conn \<Rightarrow> 'w Closer" where
  "conn_Closer conn = \<lparr>Closer_Close = ConnClose conn\<rparr>"

definition listenTCP ::
  "(ctx option \<Rightarrow> string \<Rightarrow> string \<Rightarrow> (go_error + 'w listener, 'w) prog) \<Rightarrow> ('w listener, 'w) prog" where
  "listenTCP listen =
     pbind (listen (Some Background) ''tcp'' ''127.0.0.1:0'') (\<lambda>r. case r of
       Inl err \<Rightarrow> ppanic
     | Inr l \<Rightarrow> pret l)"

definition newline :: byte where "newline = 10"

definition readTCPLine :: "lib \<Rightarrow> 'w conn \<Rightarrow> (string \<times> go_error option, 'w) prog" where
  "readTCPLine L conn =
     pbind (bufio_ReadString (ConnRead conn) newline) (\<lambda>(line, err). case err of
       Some e \<Rightarrow> pret ([], Some (fmt_Errorf L ''read TCP line'' e))
     | None \<Rightarrow> pret (string_of line, None))"

definition writeTCPAck :: "lib \<Rightarrow> 'w conn \<Rightarrow> string \<Rightarrow> (go_error option, 'w) prog" where
  "writeTCPAck L conn line =
     pbind (ConnWrite conn (bytes_of (''ack:'' @ trim_space line @ [CHR 0x0A]))) (\<lambda>(n, err). case err of
       Some e \<Rightarrow> pret (Some (fmt_Errorf L ''write TCP ack'' e))
     | None \<Rightarrow> pret None)"

text \<open>The body of the goroutine; \<open>send\<close> is the send over its channel, which comes before the deferred call.\<close>

definition tcp_ack_server ::
  "lib \<Rightarrow> 'w stdio \<Rightarrow> 'w listener \<Rightarrow> (go_error option \<Rightarrow> (unit, 'w) prog) \<Rightarrow> (unit, 'w) prog" where
  "tcp_ack_server L IO l send =
     pbind (Accept l) (\<lambda>r. case r of
       Inl err \<Rightarrow> send (Some err)
     | Inr conn \<Rightarrow>
         pdefer (rpc_closeWithLog L IO ''accepted TCP connection'' (conn_Closer conn))
           (pbind (readTCPLine L conn) (\<lambda>(reply, err).
              if err \<noteq> None then send err else pbind (writeTCPAck L conn reply) send)))"

definition startTCPAckServer ::
  "lib \<Rightarrow> 'w stdio \<Rightarrow> (go_error option, 'w) go_chan \<Rightarrow> 'w listener \<Rightarrow> ((go_error option, 'w) prog, 'w) prog" where
  "startTCPAckServer L IO go l = go (tcp_ack_server L IO l)"

definition newInternalRPCClient ::
  "lib \<Rightarrow> ('f, 'u world_scheme) float64 \<Rightarrow>
   (('f, 'u world_scheme) internalRPCPreset \<Rightarrow> ('f, 'u world_scheme) internalRPCPreset options \<Rightarrow>
    ('f, 'u world_scheme) internalRPCPreset) \<Rightarrow>
   ('u world_scheme tcp_DefaultClient \<Rightarrow> 'u world_scheme tcp_DefaultClient options \<Rightarrow>
    'u world_scheme tcp_DefaultClient) \<Rightarrow>
   nat \<Rightarrow> 'u world_scheme net \<Rightarrow> string \<Rightarrow> ('u world_scheme tcpDialCloser, 'u world_scheme) prog" where
  "newInternalRPCClient L F ap ap' s N address =
     (case NewInternalRPC L F ap ap' s (tcp_zero_Config\<lparr>tcpAddress := address\<rparr>)
             [Some WithInternalRPCDisableRetry, Some (WithInternalRPCTimeoutGuard (2 * second))] of
        (client, err) \<Rightarrow>
          if err \<noteq> None then ppanic
          else (case client of
              None \<Rightarrow> ppanic
            | Some c \<Rightarrow> pret \<lparr>tdc_Dialer = tcp_as_Dialer L N c,
                tdc_Closer = tcp_Client_Closer (tcp_as_Client L N c :: ('u world_scheme, unit) tcp_Client)\<rparr>))"

definition sendTCPPing ::
  "lib \<Rightarrow> 'u world_scheme stdio \<Rightarrow> 'u world_scheme tcpDialCloser \<Rightarrow> (string, 'u world_scheme) prog" where
  "sendTCPPing L IO client =
     pbind (with_timeout Background (3 * second)) (\<lambda>(ctx, cancel).
     pdefer (cancel_ctx cancel)
       (with_dialed (tdc_Dialer client) (Some ctx) (\<lambda>err. ppanic) (\<lambda>conn.
          pdefer (rpc_closeWithLog L IO ''TCP client connection'' (conn_Closer conn))
            (pbind (ConnWrite conn (bytes_of (''ping'' @ [CHR 0x0A]))) (\<lambda>(n, err).
               if err \<noteq> None then ppanic
               else pbind (readTCPLine L conn) (\<lambda>(reply, err).
                 if err \<noteq> None then ppanic else pret reply))))))"

definition printTCPReply :: "'w stdio \<Rightarrow> string \<Rightarrow> (unit, 'w) prog" where
  "printTCPReply IO reply =
     pbind (Printf IO (''tcp reply=%q'' @ [CHR 0x0A]) [AStr (trim_space reply)]) (\<lambda>err. case err of
       Some e \<Rightarrow> LogPrintf IO ''print TCP reply: %v'' [AErr e]
     | None \<Rightarrow> pret ())"

definition rpc_main ::
  "lib \<Rightarrow> ('f, 'u world_scheme) float64 \<Rightarrow>
   (('f, 'u world_scheme) internalRPCPreset \<Rightarrow> ('f, 'u world_scheme) internalRPCPreset options \<Rightarrow>
    ('f, 'u world_scheme) internalRPCPreset) \<Rightarrow>
   ('u world_scheme tcp_DefaultClient \<Rightarrow> 'u world_scheme tcp_DefaultClient options \<Rightarrow>
    'u world_scheme tcp_DefaultClient) \<Rightarrow>
   nat \<Rightarrow> 'u world_scheme net \<Rightarrow> 'u world_scheme stdio \<Rightarrow> (go_error option, 'u world_scheme) go_chan \<Rightarrow>
   (ctx option \<Rightarrow> string \<Rightarrow> string \<Rightarrow> (go_error + 'u world_scheme listener, 'u world_scheme) prog) \<Rightarrow>
   (unit, 'u world_scheme) prog" where
  "rpc_main L F ap ap' s N IO go listen =
     pbind (listenTCP listen) (\<lambda>l.
     pdefer (rpc_closeWithLog L IO ''TCP listener'' \<lparr>Closer_Close = ListenerClose l\<rparr>)
       (pbind (startTCPAckServer L IO go l) (\<lambda>serverErr.
        pbind (newInternalRPCClient L F ap ap' s N (ListenerAddr l)) (\<lambda>client.
        pdefer (rpc_closeWithLog L IO ''internal RPC client'' (tdc_Closer client))
          (pbind (sendTCPPing L IO client) (\<lambda>reply.
           pbind (printTCPReply IO reply) (\<lambda>_.
           pbind serverErr (\<lambda>err. if err \<noteq> None then ppanic else pret ()))))))))"

section \<open>low_latency_udp\<close>

record 'w udpDialCloser =
  udc_Dialer :: "'w Dialer"
  udc_Closer :: "'w Closer"

definition low_closeWithLog :: "lib \<Rightarrow> 'w stdio \<Rightarrow> string \<Rightarrow> 'w Closer \<Rightarrow> (unit, 'w) prog" where
  "low_closeWithLog L IO name closer =
     pbind (Closer_Close closer) (\<lambda>err. case err of
       None \<Rightarrow> pret ()
     | Some e \<Rightarrow> LogPrintf IO ''close %s: %v'' [AStr name, AErr e])"

definition closePacketConnWithLog :: "lib \<Rightarrow> 'w stdio \<Rightarrow> string \<Rightarrow> 'w packet_conn \<Rightarrow> (unit, 'w) prog" where
  "closePacketConnWithLog L IO name conn =
     pbind (PacketClose conn) (\<lambda>err. case err of
       None \<Rightarrow> pret ()
     | Some e \<Rightarrow> LogPrintf IO ''close %s: %v'' [AStr name, AErr e])"

definition listenUDP ::
  "(ctx option \<Rightarrow> string \<Rightarrow> string \<Rightarrow> (go_error + 'w packet_conn, 'w) prog) \<Rightarrow> ('w packet_conn, 'w) prog" where
  "listenUDP listen =
     pbind (listen (Some Background) ''udp'' ''127.0.0.1:0'') (\<lambda>r. case r of
       Inl err \<Rightarrow> ppanic
     | Inr server \<Rightarrow> pret server)"

text \<open>The body of the goroutine, with its buffer of 128 bytes.\<close>

definition udp_ack_server ::
  "'w packet_conn \<Rightarrow> (go_error option \<Rightarrow> (unit, 'w) prog) \<Rightarrow> (unit, 'w) prog" where
  "udp_ack_server server send =
     pbind (PacketReadFrom server 128) (\<lambda>((data, addr), err).
       if err \<noteq> None then send err
       else pbind (PacketWriteTo server (bytes_of ''ack:'' @ data) addr) (\<lambda>(n, err). send err))"

definition startUDPAckServer ::
  "(go_error option, 'w) go_chan \<Rightarrow> 'w packet_conn \<Rightarrow> ((go_error option, 'w) prog, 'w) prog" where
  "startUDPAckServer go server = go (udp_ack_server server)"

definition newLowLatencyUDPClient ::
  "lib \<Rightarrow> ('u world_scheme lowLatencyUDPPreset \<Rightarrow> 'u world_scheme lowLatencyUDPPreset options \<Rightarrow>
           'u world_scheme lowLatencyUDPPreset) \<Rightarrow>
   ('u world_scheme udp_DefaultClient \<Rightarrow> 'u world_scheme udp_DefaultClient options \<Rightarrow>
    'u world_scheme udp_DefaultClient) \<Rightarrow>
   nat \<Rightarrow> 'u world_scheme packet_net \<Rightarrow> string \<Rightarrow> ('u world_scheme udpDialCloser, 'u world_scheme) prog" where
  "newLowLatencyUDPClient L ap ap' s N address =
     (case NewLowLatencyUDP L ap ap' s (udp_zero_Config\<lparr>udpAddress := address\<rparr>)
             [Some (WithLowLatencyUDPReadTimeout (500 * millisecond)),
              Some (WithLowLatencyUDPWriteTimeout (500 * millisecond)),
              Some (WithLowLatencyUDPTimeoutGuard (700 * millisecond))] of
        (client, err) \<Rightarrow>
          if err \<noteq> None then ppanic
          else (case client of
              None \<Rightarrow> ppanic
            | Some c \<Rightarrow> pret \<lparr>udc_Dialer = udp_as_Dialer L N c,
                udc_Closer = udp_Client_Closer (udp_as_Client L N c :: ('u world_scheme, unit) udp_Client)\<rparr>))"

definition sendUDPPing ::
  "lib \<Rightarrow> 'u world_scheme stdio \<Rightarrow> 'u world_scheme udpDialCloser \<Rightarrow> (string, 'u world_scheme) prog" where
  "sendUDPPing L IO client =
     pbind (with_timeout Background (2 * second)) (\<lambda>(ctx, cancel).
     pdefer (cancel_ctx cancel)
       (with_dialed (udc_Dialer client) (Some ctx) (\<lambda>err. ppanic) (\<lambda>conn.
          pdefer (low_closeWithLog L IO ''UDP connection'' (conn_Closer conn))
            (pbind (ConnWrite conn (bytes_of ''ping'')) (\<lambda>(n, err).
               if err \<noteq> None then ppanic
               else pbind (ConnRead conn 128) (\<lambda>(data, err).
                 if err \<noteq> None then ppanic else pret (string_of data)))))))"

definition printUDPReply :: "'w stdio \<Rightarrow> string \<Rightarrow> (unit, 'w) prog" where
  "printUDPReply IO reply =
     pbind (Printf IO (''udp reply=%q'' @ [CHR 0x0A]) [AStr (trim_space reply)]) (\<lambda>err. case err of
       Some e \<Rightarrow> LogPrintf IO ''print UDP reply: %v'' [AErr e]
     | None \<Rightarrow> pret ())"

definition low_main ::
  "lib \<Rightarrow> ('u world_scheme lowLatencyUDPPreset \<Rightarrow> 'u world_scheme lowLatencyUDPPreset options \<Rightarrow>
           'u world_scheme lowLatencyUDPPreset) \<Rightarrow>
   ('u world_scheme udp_DefaultClient \<Rightarrow> 'u world_scheme udp_DefaultClient options \<Rightarrow>
    'u world_scheme udp_DefaultClient) \<Rightarrow>
   nat \<Rightarrow> 'u world_scheme packet_net \<Rightarrow> 'u world_scheme stdio \<Rightarrow> (go_error option, 'u world_scheme) go_chan \<Rightarrow>
   (ctx option \<Rightarrow> string \<Rightarrow> string \<Rightarrow> (go_error + 'u world_scheme packet_conn, 'u world_scheme) prog) \<Rightarrow>
   (unit, 'u world_scheme) prog" where
  "low_main L ap ap' s N IO go listen =
     pbind (listenUDP listen) (\<lambda>server.
     pdefer (closePacketConnWithLog L IO ''UDP server'' server)
       (pbind (startUDPAckServer go server) (\<lambda>serverErr.
        pbind (newLowLatencyUDPClient L ap ap' s N (AddrString (PacketLocalAddr server))) (\<lambda>client.
        pdefer (low_closeWithLog L IO ''UDP client'' (udc_Closer client))
          (pbind (sendUDPPing L IO client) (\<lambda>reply.
           pbind (printUDPReply IO reply) (\<lambda>_.
           pbind serverErr (\<lambda>err. if err \<noteq> None then ppanic else pret ()))))))))"

section \<open>edge_http\<close>

record 'w response_writer =
  WriteHeader :: "int \<Rightarrow> (unit, 'w) prog"
  ResponseWrite :: "byte list \<Rightarrow> (int \<times> go_error option, 'w) prog"

record 'w test_server =
  srv_URL :: string
  srv_Close :: "(unit, 'w) prog"

text \<open>The handler of the test server; \<open>path\<close> is that of the request's URL.\<close>

definition edge_handler :: "'w response_writer \<Rightarrow> string \<Rightarrow> (unit, 'w) prog" where
  "edge_handler rw path =
     (if path \<noteq> ''/ping'' then WriteHeader rw 404
      else pbind (WriteHeader rw 200) (\<lambda>_.
           pbind (ResponseWrite rw (bytes_of ''pong'')) (\<lambda>(n, err). pret ())))"

text \<open>\<open>read_all\<close> is \<open>io.ReadAll\<close> of the body of a response, \<open>status\<close> its status code.\<close>

definition edge_main ::
  "lib \<Rightarrow> ('f, 'u world_scheme) float64 \<Rightarrow> ('c, 'q, 'p, 'u world_scheme) resty \<Rightarrow> (string \<Rightarrow> go_error option) \<Rightarrow>
   (('c, 'u world_scheme) edgeHTTPPreset \<Rightarrow> ('c, 'u world_scheme) edgeHTTPPreset options \<Rightarrow>
    ('c, 'u world_scheme) edgeHTTPPreset) \<Rightarrow>
   (('c, 'u world_scheme) http_DefaultClient \<Rightarrow> ('c, 'u world_scheme) http_DefaultClient options \<Rightarrow>
    ('c, 'u world_scheme) http_DefaultClient) \<Rightarrow> nat \<Rightarrow> 'u world_scheme stdio \<Rightarrow>
   (('u world_scheme response_writer \<Rightarrow> string \<Rightarrow> (unit, 'u world_scheme) prog) \<Rightarrow>
    ('u world_scheme test_server, 'u world_scheme) prog) \<Rightarrow>
   ('p \<Rightarrow> (byte list \<times> go_error option, 'u world_scheme) prog) \<Rightarrow> ('p \<Rightarrow> int) \<Rightarrow> (unit, 'u world_scheme) prog" where
  "edge_main L F Y parse_uri ap ap' s IO new_server read_all status =
     pbind (new_server edge_handler) (\<lambda>srv.
     pdefer (srv_Close srv)
       (case NewEdgeHTTP L F Y parse_uri ap ap' s (http_zero_Config\<lparr>httpBaseURL := srv_URL srv\<rparr>)
               [Some WithEdgeHTTPDisableRetry, Some (WithEdgeHTTPTimeout (2 * second)),
                Some (WithEdgeHTTPTimeoutGuard (1500 * millisecond))] of
          (client, err) \<Rightarrow>
            if err \<noteq> None then ppanic
            else (case client of
                None \<Rightarrow> ppanic
              | Some c \<Rightarrow>
                  (let client = http_as_Client L Y c in
                   pdefer (pbind (Closer_Close (http_Client_Closer client)) (\<lambda>closeErr. case closeErr of
                             Some e \<Rightarrow> LogPrintf IO ''close edge HTTP client: %v'' [AErr e]
                           | None \<Rightarrow> pret ()))
                     (pbind (http_Client_Execute client (Some Background) None ''GET'' ''/ping'') (\<lambda>(resp, err).
                        if err \<noteq> None then ppanic
                        else (case resp of
                            None \<Rightarrow> ppanic
                          | Some p \<Rightarrow>
                              pbind (read_all p) (\<lambda>(body, err).
                                if err \<noteq> None then ppanic
                                else pbind (Printf IO (''status=%d body=%q'' @ [CHR 0x0A])
                                       [AInt (status p), AStr (string_of body)]) (\<lambda>err. case err of
                                         Some e \<Rightarrow> LogPrintf IO ''print edge HTTP result: %v'' [AErr e]
                                       | None \<Rightarrow> pret ())))))))))"

end
