(* ===== verification/Examples_Properties.thy ===== *)
theory Examples_Properties
  imports Examples Preset_Properties
begin

text \<open>
  The example programs, run through the whole stack: what their servers answer, that the line the
  client is given is the server's answer to the line it sent, and that a program closes what it opened.
\<close>

section \<open>Dialling behind a guard and a limit\<close>

text \<open>
  With a slot free and a caller whose deadline is later than the guard's, one attempt: the slot is taken and
  given back, the guard's context is cancelled, and nothing else changes.
\<close>

lemma guarded_limit_attempt:
  assumes "oops_ok L" and "0 < t" and "sems w s < limit_cap n" and "now w + t < d"
    and "cancelled_at w i = None" and "cancelled_at w (next_id w) = None"
    and "\<And>x v. once x v = Some (Ret (Some conn, None), v)"
    and "filterPolicies ps = [NewTimeoutPolicy t, NewConcurrencyLimitPolicy L s n]"
  shows "InvokeWithPolicies L None (Some (TimerCtx i d Background)) operation (Some once) ps w =
    Some (Ret (Some conn, None), w\<lparr>next_id := Suc (next_id w), cancelled_at := (cancelled_at w)(next_id w := Some (now w))\<rparr>)"
proof -
  let ?j = "next_id w" and ?op = "normalizeOperation operation"
  let ?c = "TimerCtx i d Background"
  let ?g = "ValueCtx TimeoutCancelKey (CancelFunc ?j) (TimerCtx ?j (now w + t) ?c)"
  let ?w1 = "w\<lparr>next_id := Suc ?j\<rparr>"
  let ?w2 = "?w1\<lparr>sems := (sems w)(s := Suc (sems w s))\<rparr>"
  have guard: "callPolicyBefore L (Some ?c) (NewTimeoutPolicy t) ?op w = Some (Ret (Some ?g, None), ?w1)"
    using assms(2,4) by (simp add: callPolicyBefore_def timeoutBefore_def with_timeout_def normalizeContext_def
        wrapPolicyBeforeError_def Let_def prog_simps)
  have "ctx_err ?w1 ?g = None" using assms(2,4,5,6) by (simp add: ctx_err_def)
  then have limit: "callPolicyBefore L (Some ?g) (NewConcurrencyLimitPolicy L s n) ?op ?w1 = Some (Ret (Some ?g, None), ?w2)"
    using assms(3) by (simp add: callPolicyBefore_def NewConcurrencyLimitPolicy_eq limitBefore_def limit_select_def
        normalizeContext_def wrapPolicyBeforeError_def Let_def prog_simps)
  have before: "applyBeforePolicies L (Some ?c) [NewTimeoutPolicy t, NewConcurrencyLimitPolicy L s n] ?op w =
      Some (Ret (Some ?g, [NewTimeoutPolicy t, NewConcurrencyLimitPolicy L s n], None), ?w2)"
    using guard limit by (simp add: pbind_apply)
  have after: "applyAfterPolicies L (Some ?g) [NewTimeoutPolicy t, NewConcurrencyLimitPolicy L s n] ?op None ?w2 =
      Some (Ret None, w\<lparr>next_id := Suc ?j, cancelled_at := (cancelled_at w)(?j := Some (now w))\<rparr>)"
    using assms(6) by (simp add: applyAfterPolicies_def callPolicyAfter_def NewConcurrencyLimitPolicy_eq limitAfter_def
        timeoutAfter_def cancel_ctx_def wrapPolicyAfterError_def prog_simps)
  show ?thesis
    using before after assms(7)
    by (simp add: InvokeWithPolicies_def normalizeContext_def assms(8) Let_def invokeLoop.simps [of L ?c]
        invokeAttempt_def pbind_apply del: applyBeforePolicies.simps)
qed

section \<open>Lines\<close>

lemma bytes_of_append [simp]: "bytes_of (s @ t) = bytes_of s @ bytes_of t"
  and string_of_append [simp]: "string_of (x @ y) = string_of x @ string_of y"
  by (simp_all add: bytes_of_def string_of_def)

lemma newline_byte [simp]: "bytes_of [CHR 0x0A] = [newline]" "string_of [newline] = [CHR 0x0A]"
proof -
  show *: "bytes_of [CHR 0x0A] = [newline]" by (simp add: bytes_of_def newline_def)
  then show "string_of [newline] = [CHR 0x0A]" by (metis string_of_bytes_of)
qed

lemma newline_free: "newline \<in> set (bytes_of s) \<longleftrightarrow> CHR 0x0A \<in> set s"
proof
  assume "newline \<in> set (bytes_of s)"
  then obtain x y where "bytes_of s = x @ newline # y" by (meson split_list)
  then have "string_of (bytes_of s) = string_of x @ string_of [newline] @ string_of y"
    by (metis append_Cons append_Nil string_of_append)
  then show "CHR 0x0A \<in> set s" by simp
next
  assume "CHR 0x0A \<in> set s"
  then obtain x y where s: "s = x @ [CHR 0x0A] @ y" by (metis append_Cons append_Nil split_list)
  show "newline \<in> set (bytes_of s)" unfolding s bytes_of_append newline_byte by simp
qed

lemma trim_line: "trim_space (s @ [CHR 0x0A]) = trim_space s"
proof (cases "\<forall>c \<in> set s. is_space c")
  case True
  then have "dropWhile is_space s = []" by simp
  moreover have "dropWhile is_space (s @ [CHR 0x0A]) = []" using True by (simp add: is_space_def)
  ultimately show ?thesis by (simp only: trim_space_def)
next
  case False
  then have "dropWhile is_space (s @ [CHR 0x0A]) = dropWhile is_space s @ [CHR 0x0A]"
    by (auto simp: dropWhile_append1 dropWhile_append3)
  then show ?thesis by (simp add: trim_space_def trim_right_append is_space_def)
qed

lemma readTCPLine_found:
  assumes "byte_source (ConnRead conn) src eof" and "CHR 0x0A \<notin> set line" and "src w = bytes_of line @ newline # rest"
  shows "\<exists>k w'. readTCPLine L conn w = Some (Ret (line @ [CHR 0x0A], None), w') \<and> src w' = drop k rest"
proof -
  obtain k w' where "read_string_loop (ConnRead conn) newline [] [] None w =
      Some (Ret ([] @ [] @ bytes_of line @ [newline], None), w')" "src w' = drop k rest"
    using byte_source.read_string_found [OF assms(1), of newline "[]" "bytes_of line" w rest "[]"] assms(2,3)
    by (auto simp: newline_free)
  then show ?thesis by (auto simp: readTCPLine_def bufio_ReadString_def pbind_apply)
qed

lemma readTCPLine_ends:
  assumes "byte_source (ConnRead conn) src eof" and "newline \<notin> set (src w)"
  shows "\<exists>w'. readTCPLine L conn w = Some (Ret ([], Some (fmt_Errorf L ''read TCP line'' eof)), w') \<and> src w' = []"
proof -
  obtain w' where "read_string_loop (ConnRead conn) newline [] [] None w = Some (Ret (src w, Some eof), w')" "src w' = []"
    using byte_source.read_string_ends [OF assms(1), of newline "[]" w "[]"] assms(2) by auto
  then show ?thesis by (simp add: readTCPLine_def bufio_ReadString_def pbind_apply)
qed

text \<open>What the reads of a line leave alone.\<close>

lemma keeps_bufio_fill: "(\<And>n. keeps f (rd n)) \<Longrightarrow> keeps f (bufio_fill tries rd n)"
  by (induction tries) (auto intro!: keeps_pbind split: prod.split)

lemma keeps_read_string:
  assumes "\<And>n. keeps f (rd n)" and "read_string_loop rd d full buf err w = Some (r, w')"
  shows "f w' = f w"
proof -
  let ?Q = "\<lambda>rd' d' full buf err w x. rd' = rd \<longrightarrow> d' = d \<longrightarrow> f (snd x) = f w"
  have fill: "f w' = f w" if "bufio_fill 100 rd n w = Some (r, w')" for n w r w'
    using keepsD [OF keeps_bufio_fill [OF assms(1)] that] .
  have "?Q rd d full buf err w (r, w')"
    by (rule read_string_loop.raw_induct [where P = ?Q, OF _ assms(2)])
      (auto split: option.splits prod.splits res.splits if_splits dest!: fill)
  then show ?thesis by simp
qed

lemma keeps_ReadString: "(\<And>n. keeps f (rd n)) \<Longrightarrow> keeps f (bufio_ReadString rd d)"
  unfolding bufio_ReadString_def by (rule keepsI) (rule keeps_read_string)

lemma keeps_readTCPLine: "(\<And>n. keeps f (ConnRead conn n)) \<Longrightarrow> keeps f (readTCPLine L conn)"
  unfolding readTCPLine_def
  by (intro keeps_pbind keeps_ReadString) (auto split: option.split)

section \<open>The connection of an example\<close>

text \<open>What the reads and writes of a guarded connection in memory do, exactly.\<close>

lemma mem_ReadDeadline [simp]:
  "SetReadDeadline mem_conn t w = Some (Ret None, w)" "SetWriteDeadline mem_conn t w = Some (Ret None, w)"
  "ConnRead mem_conn = mem_read" "ConnWrite mem_conn = mem_write"
  "ConnClose mem_conn w = Some (Ret None, w\<lparr>net_closed := net_closed w + 1\<rparr>)"
  by (simp_all add: mem_conn_def pbind_apply pmodify_def)

lemma mem_write_whole:
  "length data \<le> Suc (net_chunk w) \<Longrightarrow> mem_write data w = Some (Ret (int (length data), None), w\<lparr>net_out := net_out w @ data\<rparr>)"
  by (simp add: mem_write_def Let_def)

definition mem_tcp :: "lib \<Rightarrow> tcp_Config \<Rightarrow> 'u net_world_scheme conn" where
  "mem_tcp L cfg = tcp_wrapConn L mem_conn cfg []"

lemma mem_tcp_close [simp]: "ConnClose (mem_tcp L cfg) w = Some (Ret None, w\<lparr>net_closed := net_closed w + 1\<rparr>)"
  by (simp add: mem_tcp_def tcp_wrapConn_def tcp_conn_def)

lemma mem_tcp_write:
  "length data \<le> Suc (net_chunk w) \<Longrightarrow>
   ConnWrite (mem_tcp L cfg) data w = Some (Ret (int (length data), None), w\<lparr>net_out := net_out w @ data\<rparr>)"
  by (simp add: mem_tcp_def tcp_wrapConn_def tcp_conn_def tcp_Write_def tcp_runIO_def tcp_applyDeadline_def
      tcp_emitIO_def EmitIO_def pbind_apply mem_write_whole)

lemma mem_tcp_source:
  assumes "oops_ok L"
  obtains e where "byte_source (ConnRead (mem_tcp L cfg :: 'u net_world_scheme conn)) net_in e"
proof -
  let ?c = "\<lparr>tconnConn = mem_conn, tconnReadTimeout = tcpReadTimeout cfg, tconnWriteTimeout = tcpWriteTimeout cfg,
      tconnAddr = tcpAddress cfg, tconnHooks = []\<rparr> :: 'u net_world_scheme tcp_timeoutConn"
  have m: "byte_source (ConnRead (tconnConn ?c)) net_in ErrEOF" "calm_conn net_in ?c"
    using mem_in.byte_source_axioms by (simp_all add: calm_conn_mem)
  obtain ty tx x where "byte_source (tcp_Read L ?c) net_in (Foreign ty tx None [x])"
    by (rule tcp_Read_source_wrapped [OF assms m])
  then show thesis by (intro that [of "Foreign ty tx None [x]"]) (simp add: mem_tcp_def tcp_wrapConn_def tcp_conn_def)
qed

text \<open>A read touches what there is to read and nothing else.\<close>

lemma keeps_mem_tcp_read:
  assumes "\<And>w (x :: byte list). f (w\<lparr>net_in := x\<rparr>) = f w"
  shows "keeps f (ConnRead (mem_tcp L cfg) n)"
  by (rule keepsI)
    (auto simp: mem_tcp_def tcp_wrapConn_def tcp_conn_def tcp_Read_def tcp_runIO_def tcp_applyDeadline_def
      tcp_emitIO_def EmitIO_def pbind_apply mem_read_def Let_def assms split: if_splits)

lemma tcp_dialOnce_mem:
  "tcpHooks c = [] \<Longrightarrow> tcp_dialOnce L mem_net c x w = Some (Ret (Some (mem_tcp L (tcpCfg c)), None), w)"
  by (simp add: tcp_dialOnce_open open_once_def EmitDial_def pbind_apply mem_tcp_def)

text \<open>The client of the example: what the preset makes of its options, whatever the address.\<close>

lemma rpc_client:
  fixes F :: "('f, 'u world_scheme) float64"
  assumes "oops_ok L" and "oapply_ok ap" and "oapply_ok ap'" and "trim_space address \<noteq> []"
  obtains c :: "'u world_scheme tcp_DefaultClient" where
    "newInternalRPCClient L F ap ap' s N address w = Some (Ret \<lparr>tdc_Dialer = tcp_as_Dialer L N c,
        tdc_Closer = \<lparr>Closer_Close = pret None\<rparr>\<rparr>, w)"
    and "tcpHooks c = []"
    and "filterPolicies (tcpPolicies c) = [NewTimeoutPolicy (2 * second), NewConcurrencyLimitPolicy L s 512]"
proof -
  let ?opts = "[Some WithInternalRPCDisableRetry, Some (WithInternalRPCTimeoutGuard (2 * second))]
    :: ('f, 'u world_scheme) internalRPCPreset options"
  let ?p = "Apply ap (defaultInternalRPCPreset F) ?opts" and ?cfg = "tcp_zero_Config\<lparr>tcpAddress := address\<rparr>"
  have p: "rpcOptions ?p = []" "rpcDisableRetry ?p" "rpcTimeoutGuard ?p = 2 * second" "rpcConcurrencyLimit ?p = 512"
      "tuneInternalRPCConfig ?cfg ?p = ?cfg\<lparr>tcpDialTimeout := 1500 * millisecond, tcpReadTimeout := 2 * second,
        tcpWriteTimeout := 2 * second, tcpKeepAlive := 30 * second\<rparr>"
    by (simp_all add: Apply_eq [OF assms(2)] WithInternalRPCDisableRetry_def WithInternalRPCTimeoutGuard_def
        defaultInternalRPCPreset_def tuneInternalRPCConfig_def tcp_zero_Config_def Let_def)
  have "tcp_valid (tcp_normal (tuneInternalRPCConfig ?cfg ?p))"
    unfolding p(5) using assms(4) by (simp add: tcp_valid_def tcp_normal_def tcp_zero_Config_def trim_space_def trim_right_def)
  then obtain c where c: "NewInternalRPC L F ap ap' s ?cfg ?opts = (Some c, None)"
    using NewInternalRPC_constructed [OF assms(1), of ?cfg ap F ?opts ap' s] by (auto simp: constructed_def)
  show thesis
    using that [of c] NewInternalRPC_client [OF assms(1,3) p(1) c] p(2,3,4) c second_pos(1)
    by (simp add: newInternalRPCClient_def guard_and_limit_def tcp_as_Client_def tcp_Close_def)
qed

lemma tcp_Dial_mem:
  assumes "oops_ok L" and "tcpHooks c = []" and "0 < t" and "sems w s < limit_cap n" and "now w + t < d"
    and "filterPolicies (tcpPolicies c) = [NewTimeoutPolicy t, NewConcurrencyLimitPolicy L s n]"
    and "cancelled_at w i = None" and "cancelled_at w (next_id w) = None"
  shows "tcp_Dial L mem_net c (Some (TimerCtx i d Background)) w = Some (Ret (Some (mem_tcp L (tcpCfg c)), None),
      w\<lparr>next_id := Suc (next_id w), cancelled_at := (cancelled_at w)(next_id w := Some (now w))\<rparr>)"
  using guarded_limit_attempt [OF assms(1,3,4,5,7,8) tcp_dialOnce_mem [OF assms(2)] assms(6)]
  by (simp add: tcp_Dial_call client_call_def pbind_apply)

text \<open>
  The ping: one line out, one line in, the connection closed once, the slot and the contexts given back.
\<close>

lemma sendTCPPing_reply:
  fixes w :: "'u net_world_scheme" and c :: "'u net_world_scheme tcp_DefaultClient"
  assumes "oops_ok L" and "tcpHooks c = []" and "sems w s < 512"
    and "filterPolicies (tcpPolicies c) = [NewTimeoutPolicy (2 * second), NewConcurrencyLimitPolicy L s 512]"
    and "\<forall>i \<ge> next_id w. cancelled_at w i = None" and "4 \<le> net_chunk w"
    and "CHR 0x0A \<notin> set reply" and "net_in w = bytes_of reply @ newline # rest"
    and "tdc_Dialer client = tcp_as_Dialer L mem_net c"
  shows "\<exists>w'. sendTCPPing L IO client w = Some (Ret (reply @ [CHR 0x0A]), w') \<and>
    net_out w' = net_out w @ bytes_of (''ping'' @ [CHR 0x0A]) \<and> net_closed w' = Suc (net_closed w) \<and> sems w' = sems w"
proof -
  let ?i = "next_id w" and ?conn = "mem_tcp L (tcpCfg c) :: 'u net_world_scheme conn"
  let ?ctx = "TimerCtx ?i (now w + 3 * second) Background" and ?w1 = "w\<lparr>next_id := Suc ?i\<rparr>"
  let ?w2 = "w\<lparr>next_id := Suc (Suc ?i), cancelled_at := (cancelled_at w)(Suc ?i := Some (now w))\<rparr>"
  let ?w3 = "?w2\<lparr>net_out := net_out w @ bytes_of (''ping'' @ [CHR 0x0A])\<rparr>"
  have dial: "tcp_Dial L mem_net c (Some ?ctx) ?w1 = Some (Ret (Some ?conn, None), ?w2)"
    using tcp_Dial_mem [OF assms(1,2), where s = s and n = 512 and t = "2 * second" and d = "now w + 3 * second" and i = ?i and w = ?w1]
      assms(3,4,5) second_pos(1) by (simp add: limit_cap_def)
  obtain e where src: "byte_source (ConnRead ?conn) net_in e" by (rule mem_tcp_source [OF assms(1)])
  obtain k w4 where line: "readTCPLine L ?conn ?w3 = Some (Ret (reply @ [CHR 0x0A], None), w4)"
    using readTCPLine_found [OF src assms(7), of ?w3 rest L] assms(8) by auto
  define f where "f v = (net_out v, net_closed v, sems v)" for v :: "'u net_world_scheme"
  have "keeps f (readTCPLine L ?conn)" by (intro keeps_readTCPLine keeps_mem_tcp_read) (simp add: f_def)
  from keepsD [OF this line] have w4: "net_out w4 = net_out ?w3" "net_closed w4 = net_closed w" "sems w4 = sems w"
    by (simp_all add: f_def)
  have "length (bytes_of (''ping'' @ [CHR 0x0A])) \<le> Suc (net_chunk ?w2)" using assms(6) by (simp add: bytes_of_def)
  from mem_tcp_write [OF this, of L "tcpCfg c"] show ?thesis
    using dial line w4
    by (simp add: sendTCPPing_def with_timeout_def cancel_ctx_def with_dialed_def assms(9) tcp_as_Dialer_def pdefer_def
        pbind_apply pmodify_def rpc_closeWithLog_def conn_Closer_def Let_def)
qed

section \<open>Ping and ack\<close>

text \<open>The server: one line in, its acknowledgement out, then the send, then the connection is closed.\<close>

lemma tcp_ack_reply:
  fixes w :: "'u net_world_scheme"
  assumes "Accept l w = Some (Ret (Inr mem_conn), w)" and "CHR 0x0A \<notin> set line" and "net_in w = bytes_of line @ newline # rest"
    and "length (bytes_of (''ack:'' @ trim_space line @ [CHR 0x0A])) \<le> Suc (net_chunk w)"
  shows "\<exists>w1. tcp_ack_server L IO l send w =
      pdefer (rpc_closeWithLog L IO ''accepted TCP connection'' (conn_Closer mem_conn)) (send None) w1 \<and>
    net_out w1 = net_out w @ bytes_of (''ack:'' @ trim_space line @ [CHR 0x0A]) \<and> net_closed w1 = net_closed w"
proof -
  have src: "byte_source (ConnRead mem_conn) net_in ErrEOF" using mem_in.byte_source_axioms by simp
  obtain k w1 where line: "readTCPLine L mem_conn w = Some (Ret (line @ [CHR 0x0A], None), w1)"
    using readTCPLine_found [OF src assms(2,3), of L] by blast
  define f where "f v = (net_out v, net_closed v, net_chunk v)" for v :: "'u net_world_scheme"
  have "keeps f (readTCPLine L mem_conn)"
    by (rule keeps_readTCPLine) (auto intro!: keepsI simp: f_def mem_read_def Let_def split: if_splits)
  from keepsD [OF this line] have w1: "net_out w1 = net_out w" "net_closed w1 = net_closed w" "net_chunk w1 = net_chunk w"
    by (simp_all add: f_def)
  then have "mem_write (bytes_of (''ack:'' @ trim_space line @ [CHR 0x0A])) w1 =
      Some (Ret (int (length (bytes_of (''ack:'' @ trim_space line @ [CHR 0x0A]))), None),
        w1\<lparr>net_out := net_out w @ bytes_of (''ack:'' @ trim_space line @ [CHR 0x0A])\<rparr>)"
    using assms(4) by (simp only: mem_write_whole)
  then show ?thesis
    using line w1
    by (intro exI [of _ "w1\<lparr>net_out := net_out w @ bytes_of (''ack:'' @ trim_space line @ [CHR 0x0A])\<rparr>"])
      (simp add: tcp_ack_server_def pbind_apply assms(1) pdefer_def writeTCPAck_def trim_line)
qed

text \<open>A peer that hangs up before its line is complete is told nothing; the error is what ended the stream.\<close>

lemma tcp_ack_hangup:
  fixes w :: "'u net_world_scheme"
  assumes "Accept l w = Some (Ret (Inr mem_conn), w)" and "newline \<notin> set (net_in w)"
  shows "\<exists>w1 e. tcp_ack_server L IO l send w =
      pdefer (rpc_closeWithLog L IO ''accepted TCP connection'' (conn_Closer mem_conn)) (send (Some e)) w1 \<and>
    stems_from e ErrEOF \<and> net_out w1 = net_out w \<and> net_closed w1 = net_closed w"
proof -
  have src: "byte_source (ConnRead mem_conn) net_in ErrEOF" using mem_in.byte_source_axioms by simp
  obtain w1 where line: "readTCPLine L mem_conn w = Some (Ret ([], Some (fmt_Errorf L ''read TCP line'' ErrEOF)), w1)"
    using readTCPLine_ends [OF src assms(2), of L] by blast
  define f where "f v = (net_out v, net_closed v)" for v :: "'u net_world_scheme"
  have "keeps f (readTCPLine L mem_conn)"
    by (rule keeps_readTCPLine) (auto intro!: keepsI simp: f_def mem_read_def Let_def split: if_splits)
  from keepsD [OF this line] have "net_out w1 = net_out w" "net_closed w1 = net_closed w" by (simp_all add: f_def)
  then show ?thesis
    using line fmt_Errorf_stems by (intro exI [of _ w1] exI [of _ "fmt_Errorf L ''read TCP line'' ErrEOF"])
      (simp add: tcp_ack_server_def pbind_apply assms(1) pdefer_def)
qed

text \<open>
  C9: the exchange of the TCP example. Given what the server of the example answers, its client sends what that
  server waits for and takes the answer as its reply; given what the client sends, the server answers that: the
  two ends agree on both directions of the connection. Each closes its end once, the server after its send,
  and the client's slot is given back.
\<close>

theorem rpc_example_exchange:
  fixes F :: "('f, 'u net_world_scheme) float64" and wc :: "'u net_world_scheme" and ws :: "'v net_world_scheme"
  assumes "oops_ok L" and "oapply_ok ap" and "oapply_ok ap'" and "trim_space address \<noteq> []"
    and "sems wc s < 512" and "\<forall>i \<ge> next_id wc. cancelled_at wc i = None" and "4 \<le> net_chunk wc" and "8 \<le> net_chunk ws"
    and "net_in wc = bytes_of (''ack:ping'' @ [CHR 0x0A])" and "net_in ws = bytes_of (''ping'' @ [CHR 0x0A])"
    and "Accept l ws = Some (Ret (Inr mem_conn), ws)"
  shows "(\<exists>wc'. pbind (newInternalRPCClient L F ap ap' s mem_net address) (sendTCPPing L IO) wc =
        Some (Ret (''ack:ping'' @ [CHR 0x0A]), wc') \<and>
      net_out wc' = net_out wc @ net_in ws \<and> net_closed wc' = Suc (net_closed wc) \<and> sems wc' = sems wc) \<and>
    (\<exists>ws'. tcp_ack_server L IO' l send ws =
        pdefer (rpc_closeWithLog L IO' ''accepted TCP connection'' (conn_Closer mem_conn)) (send None) ws' \<and>
      net_out ws' = net_out ws @ net_in wc \<and> net_closed ws' = net_closed ws)"
proof
  obtain c :: "'u net_world_scheme tcp_DefaultClient" where
    "newInternalRPCClient L F ap ap' s mem_net address wc = Some (Ret \<lparr>tdc_Dialer = tcp_as_Dialer L mem_net c,
        tdc_Closer = \<lparr>Closer_Close = pret None\<rparr>\<rparr>, wc)" and c: "tcpHooks c = []"
      "filterPolicies (tcpPolicies c) = [NewTimeoutPolicy (2 * second), NewConcurrencyLimitPolicy L s 512]"
    by (rule rpc_client [OF assms(1,2,3,4)])
  moreover have "net_in wc = bytes_of ''ack:ping'' @ newline # []" using assms(9) by (simp only: bytes_of_append newline_byte)
  ultimately show "\<exists>wc'. pbind (newInternalRPCClient L F ap ap' s mem_net address) (sendTCPPing L IO) wc =
        Some (Ret (''ack:ping'' @ [CHR 0x0A]), wc') \<and>
      net_out wc' = net_out wc @ net_in ws \<and> net_closed wc' = Suc (net_closed wc) \<and> sems wc' = sems wc"
    using sendTCPPing_reply [OF assms(1) c(1) assms(5) c(2) assms(6,7), where reply = "''ack:ping''"] assms(10)
    by (simp add: pbind_apply)
  have i: "net_in ws = bytes_of ''ping'' @ newline # []" using assms(10) by (simp only: bytes_of_append newline_byte)
  have t: "''ack:'' @ trim_space ''ping'' @ [CHR 0x0A] = ''ack:ping'' @ [CHR 0x0A]" by code_simp
  show "\<exists>ws'. tcp_ack_server L IO' l send ws =
        pdefer (rpc_closeWithLog L IO' ''accepted TCP connection'' (conn_Closer mem_conn)) (send None) ws' \<and>
      net_out ws' = net_out ws @ net_in wc \<and> net_closed ws' = net_closed ws"
    using tcp_ack_reply [OF assms(11) _ i, where L = L and IO = IO' and send = send, unfolded t] assms(8,9)
    by (simp add: bytes_of_def)
qed

definition sample_listener :: "'u net_world_scheme listener" where
  "sample_listener = \<lparr>Accept = pret (Inr mem_conn), ListenerClose = pret None, ListenerAddr = ''h:1''\<rparr>"

definition sample_talk :: "string \<Rightarrow> net_world" where
  "sample_talk heard = (net_start (bytes_of heard))\<lparr>net_chunk := 8\<rparr>"

theorem rpc_example_exchange_witness:
  "\<exists>wc' ws'. pbind (newInternalRPCClient plain_lib (binary64 0 :: (rat, net_world) float64) apply_all apply_all 7 mem_net ''h:1'')
      (sendTCPPing plain_lib quiet_stdio) (sample_talk (''ack:ping'' @ [CHR 0x0A])) = Some (Ret (''ack:ping'' @ [CHR 0x0A]), wc') \<and>
    net_out wc' = bytes_of (''ping'' @ [CHR 0x0A]) \<and>
    tcp_ack_server plain_lib quiet_stdio sample_listener (\<lambda>_. pret ()) (sample_talk (''ping'' @ [CHR 0x0A])) = Some (Ret (), ws') \<and>
    net_out ws' = bytes_of (''ack:ping'' @ [CHR 0x0A]) \<and> net_closed wc' = 1 \<and> net_closed ws' = 1"
proof -
  have t: "trim_space ''h:1'' \<noteq> []" by code_simp
  have e: "net_out (sample_talk x) = []" "net_closed (sample_talk x) = 0" "net_in (sample_talk x) = bytes_of x"
      "sems (sample_talk x) i < 512" "cancelled_at (sample_talk x) i = None" "net_chunk (sample_talk x) = 8" for x i
    by (simp_all add: sample_talk_def net_start_def)
  have a: "Accept sample_listener (sample_talk (''ping'' @ [CHR 0x0A])) = Some (Ret (Inr mem_conn), sample_talk (''ping'' @ [CHR 0x0A]))"
    by (simp add: sample_listener_def)
  from rpc_example_exchange [OF plain_lib_ok apply_all_ok apply_all_ok t e(4) _ _ _ e(3) e(3) a,
      where F = "binary64 0 :: (rat, net_world) float64" and s = 7 and IO = quiet_stdio and IO' = quiet_stdio and send = "\<lambda>_. pret ()"]
  show ?thesis
    by (fastforce simp: e pdefer_def rpc_closeWithLog_def conn_Closer_def pbind_apply)
qed

text \<open>
  The program as a whole, its server having acknowledged the ping: it prints the acknowledgement without its
  newline, waits for the server, and ends without a panic.
\<close>

lemma rpc_main_run:
  fixes F :: "('f, 'u net_world_scheme) float64" and w :: "'u net_world_scheme"
  assumes "oops_ok L" and "oapply_ok ap" and "oapply_ok ap'" and "trim_space (ListenerAddr l) \<noteq> []"
    and "sems w s < 512" and "\<forall>i \<ge> next_id w. cancelled_at w i = None" and "4 \<le> net_chunk w"
    and "net_in w = bytes_of (''ack:ping'' @ [CHR 0x0A])"
    and "listen (Some Background) ''tcp'' ''127.0.0.1:0'' w = Some (Ret (Inr l), w)" and "ListenerClose l = pret None"
    and "go (tcp_ack_server L IO l) = pret (pret None)"
    and "Printf IO (''tcp reply=%q'' @ [CHR 0x0A]) [AStr ''ack:ping''] = pret None"
  shows "\<exists>w'. rpc_main L F ap ap' s mem_net IO go listen w = Some (Ret (), w') \<and>
    net_out w' = net_out w @ bytes_of (''ping'' @ [CHR 0x0A]) \<and> net_closed w' = Suc (net_closed w) \<and> sems w' = sems w"
proof -
  obtain c :: "'u net_world_scheme tcp_DefaultClient" where
    new: "newInternalRPCClient L F ap ap' s mem_net (ListenerAddr l) w = Some (Ret \<lparr>tdc_Dialer = tcp_as_Dialer L mem_net c,
        tdc_Closer = \<lparr>Closer_Close = pret None\<rparr>\<rparr>, w)" and c: "tcpHooks c = []"
      "filterPolicies (tcpPolicies c) = [NewTimeoutPolicy (2 * second), NewConcurrencyLimitPolicy L s 512]"
    by (rule rpc_client [OF assms(1,2,3,4)])
  have i: "net_in w = bytes_of ''ack:ping'' @ newline # []" using assms(8) by (simp only: bytes_of_append newline_byte)
  obtain w1 where ping: "sendTCPPing L IO \<lparr>tdc_Dialer = tcp_as_Dialer L mem_net c, tdc_Closer = \<lparr>Closer_Close = pret None\<rparr>\<rparr> w =
      Some (Ret (''ack:ping'' @ [CHR 0x0A]), w1)" and w1: "net_out w1 = net_out w @ bytes_of (''ping'' @ [CHR 0x0A])"
      "net_closed w1 = Suc (net_closed w)" "sems w1 = sems w"
    using sendTCPPing_reply [OF assms(1) c(1) assms(5) c(2) assms(6,7) _ i,
        where client = "\<lparr>tdc_Dialer = tcp_as_Dialer L mem_net c, tdc_Closer = \<lparr>Closer_Close = pret None\<rparr>\<rparr>" and IO = IO] by auto
  have "trim_space (''ack:ping'' @ [CHR 0x0A]) = ''ack:ping''" by code_simp
  then have "printTCPReply IO (''ack:ping'' @ [CHR 0x0A]) = pret ()"
    using assms(12) by (intro ext) (simp add: printTCPReply_def pbind_apply)
  then have "rpc_main L F ap ap' s mem_net IO go listen w = Some (Ret (), w1)"
    using new ping by (simp add: rpc_main_def listenTCP_def startTCPAckServer_def assms(9,10,11) pbind_apply pdefer_def
        rpc_closeWithLog_def)
  then show ?thesis using w1 by blast
qed

section \<open>What is opened is closed\<close>

text \<open>
  C34: however the ping goes, panics included, a connection it was given is closed, and after that only the
  context is cancelled.
\<close>

theorem rpc_ping_closes:
  fixes w :: "'u world_scheme"
  assumes "oops_ok L" and "tdc_Dialer client = tcp_as_Dialer L N c" and "sendTCPPing L IO client w = Some (r, w')"
    and "tcp_Dial L N c (Some (TimerCtx (next_id w) (now w + 3 * second) Background)) (w\<lparr>next_id := Suc (next_id w)\<rparr>) =
      Some (Ret (conn, None), w1)"
  shows "\<exists>d w2 x w3. conn = Some d \<and> tcp_dialled L N c d \<and>
    rpc_closeWithLog L IO ''TCP client connection'' (conn_Closer d) w2 = Some (x, w3) \<and>
    cancel_ctx (next_id w) w3 = Some (Ret (), w')"
proof -
  let ?ctx = "TimerCtx (next_id w) (now w + 3 * second) Background"
  obtain d where d: "conn = Some d" "tcp_dialled L N c d"
    using tcp_dial.result [where M = L, unfolded lawful_eq [OF assms(1)]] assms(4) unfolding tcp_Dial_call by fastforce
  have "with_timeout Background (3 * second) w = Some (Ret (?ctx, next_id w), w\<lparr>next_id := Suc (next_id w)\<rparr>)"
    by (simp add: with_timeout_def Let_def)
  then have "\<exists>m. pdefer (cancel_ctx (next_id w)) (\<lambda>v. pdefer (rpc_closeWithLog L IO ''TCP client connection'' (conn_Closer d)) m w1)
      (w\<lparr>next_id := Suc (next_id w)\<rparr>) = Some (r, w')"
    using assms(2,3,4) d(1)
    by (auto simp: sendTCPPing_def pbind_apply pdefer_def [of "cancel_ctx _"] with_dialed_def tcp_as_Dialer_def)
  then show ?thesis
    using d by (fastforce elim!: pdefer_SomeE simp: cancel_ctx_def pmodify_def)
qed

theorem rpc_ping_closes_witness:
  "\<exists>client c r w' d w2 x w3. sendTCPPing plain_lib quiet_stdio client (sample_talk (''ack:ping'' @ [CHR 0x0A])) = Some (r, w') \<and>
    tcp_dialled plain_lib mem_net c d \<and>
    rpc_closeWithLog plain_lib quiet_stdio ''TCP client connection'' (conn_Closer d) w2 = Some (x, w3) \<and>
    cancel_ctx 0 w3 = Some (Ret (), w')"
proof -
  let ?w = "sample_talk (''ack:ping'' @ [CHR 0x0A])"
  have t: "trim_space ''h:1'' \<noteq> []" by code_simp
  have e: "sems ?w i < 512" "cancelled_at ?w i = None" "4 \<le> net_chunk ?w" "next_id ?w = 0" "now ?w = 0" for i
    by (simp_all add: sample_talk_def net_start_def)
  have i: "net_in ?w = bytes_of ''ack:ping'' @ newline # []"
    by (simp only: sample_talk_def net_start_def bytes_of_append newline_byte) simp
  obtain c :: "net_world tcp_DefaultClient" where c: "tcpHooks c = []"
      "filterPolicies (tcpPolicies c) = [NewTimeoutPolicy (2 * second), NewConcurrencyLimitPolicy plain_lib 7 512]"
    by (rule rpc_client [OF plain_lib_ok apply_all_ok apply_all_ok t, where F = "binary64 0 :: (rat, net_world) float64" and s = 7])
  let ?client = "\<lparr>tdc_Dialer = tcp_as_Dialer plain_lib mem_net c, tdc_Closer = \<lparr>Closer_Close = pret None\<rparr>\<rparr>"
  obtain w' where run: "sendTCPPing plain_lib quiet_stdio ?client ?w = Some (Ret (''ack:ping'' @ [CHR 0x0A]), w')"
    using sendTCPPing_reply [OF plain_lib_ok c(1) e(1) c(2) _ e(3) _ i, where client = ?client and IO = quiet_stdio] e(2) by auto
  have dial: "\<exists>w1. tcp_Dial plain_lib mem_net c (Some (TimerCtx (next_id ?w) (now ?w + 3 * second) Background))
      (?w\<lparr>next_id := Suc (next_id ?w)\<rparr>) = Some (Ret (Some (mem_tcp plain_lib (tcpCfg c)), None), w1)"
    using tcp_Dial_mem [OF plain_lib_ok c(1) _ _ _ c(2), of "?w\<lparr>next_id := Suc (next_id ?w)\<rparr>" "now ?w + 3 * second" "next_id ?w"]
      e(1,2) second_pos(1) by (simp add: limit_cap_def)
  then obtain w1 where "tcp_Dial plain_lib mem_net c (Some (TimerCtx (next_id ?w) (now ?w + 3 * second) Background))
      (?w\<lparr>next_id := Suc (next_id ?w)\<rparr>) = Some (Ret (Some (mem_tcp plain_lib (tcpCfg c)), None), w1)" by blast
  from rpc_ping_closes [OF plain_lib_ok _ run this] show ?thesis
    using run unfolding e(4) by fastforce
qed

text \<open>However the program goes once it listens, closing the listener is the last it does.\<close>

lemma rpc_main_closes:
  assumes "listen (Some Background) ''tcp'' ''127.0.0.1:0'' w = Some (Ret (Inr l), w1)"
    and "rpc_main L F ap ap' s N IO go listen w = Some (r, w')"
  shows "\<exists>x w2. rpc_closeWithLog L IO ''TCP listener'' \<lparr>Closer_Close = ListenerClose l\<rparr> w2 = Some (x, w')"
  using assms by (auto simp: rpc_main_def listenTCP_def pbind_apply elim!: pdefer_SomeE)

lemma low_main_closes:
  assumes "listen (Some Background) ''udp'' ''127.0.0.1:0'' w = Some (Ret (Inr server), w1)"
    and "low_main L ap ap' s N IO go listen w = Some (r, w')"
  shows "\<exists>x w2. closePacketConnWithLog L IO ''UDP server'' server w2 = Some (x, w')"
  using assms by (auto simp: low_main_def listenUDP_def pbind_apply elim!: pdefer_SomeE)

lemma edge_main_closes:
  assumes "new_server edge_handler w = Some (Ret srv, w1)"
    and "edge_main L F Y parse_uri ap ap' s IO new_server read_all status w = Some (r, w')"
  shows "\<exists>x w2. srv_Close srv w2 = Some (x, w')"
  using assms by (auto simp: edge_main_def pbind_apply elim!: pdefer_SomeE)

section \<open>The UDP server\<close>

text \<open>
  The server of the UDP example acknowledges one datagram to where it came from, and of its payload no more
  than the 128 bytes of its buffer: what was longer is cut, without an error.
\<close>

theorem udp_example_ack:
  assumes "packet_source (PacketReadFrom server) inbox" and "packet_sink (PacketWriteTo server) outbox"
    and "keeps outbox (PacketReadFrom server 128)" and "inbox w = (d, a) # ds"
  shows "\<exists>w'. udp_ack_server server send w = send None w' \<and>
    outbox w' = outbox w @ [(bytes_of ''ack:'' @ take 128 d, a)]"
proof -
  obtain w1 where r: "PacketReadFrom server 128 w = Some (Ret ((take 128 d, Some a), None), w1)"
    using packet_source.receive [OF assms(1,4)] by blast
  obtain w2 where s: "PacketWriteTo server (bytes_of ''ack:'' @ take 128 d) (Some a) w1 =
      Some (Ret (int (length (bytes_of ''ack:'' @ take 128 d)), None), w2)"
      "outbox w2 = outbox w1 @ [(bytes_of ''ack:'' @ take 128 d, a)]"
    using packet_sink.transmit [OF assms(2)] by blast
  show ?thesis
    using keepsD [OF assms(3) r] s r by (intro exI [of _ w2]) (simp add: udp_ack_server_def pbind_apply)
qed

theorem udp_example_ack_witness:
  "\<exists>w'. udp_ack_server mem_packet_conn (\<lambda>_. pret ()) (packet_start [(replicate 200 7, sample_peer)]) = Some (Ret (), w') \<and>
    pkt_out w' = [(bytes_of ''ack:'' @ replicate 128 7, sample_peer)]"
proof -
  have p: "packet_source (PacketReadFrom mem_packet_conn) pkt_in" "packet_sink (PacketWriteTo mem_packet_conn) pkt_out"
    using mem_packet_facts(1,2) by (simp_all add: mem_packet_guarded_def)
  have k: "keeps pkt_out (PacketReadFrom mem_packet_conn 128)"
    by (rule keepsI) (auto simp: mem_packet_conn_def split: list.splits)
  show ?thesis
    using udp_example_ack [OF p k, where w = "packet_start [(replicate 200 7, sample_peer)]" and send = "\<lambda>_. pret ()"]
    by (simp add: packet_start_def)
qed

end
