(* ===== verification/Spec2Isabelle.thy ===== *)
theory Spec2Isabelle
  imports Registry Tcp_Queue Tcp_Session Net_Events Preset_Time Examples_Properties
begin

text \<open>
  A verification development of the Go module \<^verbatim>\<open>github.com/arcgolabs/clientx\<close>: clients for HTTP, TCP
  and UDP whose network operations run through one engine of policies and report to hooks. This theory
  collects the others.

  \<^bold>\<open>The program.\<close> A client (\<^verbatim>\<open>http/\<close>, \<^verbatim>\<open>tcp/\<close>, \<^verbatim>\<open>udp/\<close>) keeps a normalised configuration, a list of
  hooks and a list of policies. Opening a connection or executing a request hands a function to
  \<open>InvokeWithPolicies\<close> (\<^verbatim>\<open>policy.go\<close>), which runs \<open>Before\<close> of every policy, the function, \<open>After\<close> in
  reverse, and asks the policies whether to try again. Connections are wrapped: each read and write sets
  its deadline, wraps its error (\<^verbatim>\<open>error.go\<close>) and tells the hooks (\<^verbatim>\<open>hook.go\<close>). A codec and, on
  streams, a framer (\<^verbatim>\<open>codec/\<close>) turn values into bytes above the wrapped connection. The presets
  (\<^verbatim>\<open>preset/\<close>) fill in configurations and put guard, limit and retries together.

  \<^bold>\<open>The theories,\<close> in the order of their imports:

  \<^item> \<open>Go_Prelude\<close>: computations that may panic or not return, strings, durations. \<open>Go_Errors\<close>: error
    trees with \<open>errors.Is\<close>, \<open>errors.As\<close>, \<open>errors.Join\<close> and the laws of \<^verbatim>\<open>oops\<close>. \<open>Go_Context\<close>: clock,
    contexts, semaphores.
  \<^item> \<open>Client_Error\<close> (\<^verbatim>\<open>error.go\<close>): \<open>WrapError\<close>, \<open>KindOf\<close>, the classification of errors by their cause.
  \<^item> \<open>Policy\<close> (\<^verbatim>\<open>policy.go\<close>, \<^verbatim>\<open>append.go\<close>) the engine; \<open>Policy_Engine\<close> what it guarantees for any
    policies: panics are contained, the order of calls, no error is lost, success is real, the loop ends,
    what is acquired is released (locale \<open>balanced_policies\<close>).
  \<^item> \<open>Retry_Policy\<close>, \<open>Timeout_Policy\<close>, \<open>Bulkhead_Policy\<close> (\<^verbatim>\<open>policy_retry.go\<close>, \<^verbatim>\<open>policy_timeout.go\<close>,
    \<^verbatim>\<open>policy_bulkhead.go\<close>): the three policies; the delay of a retry in numbers. \<open>Bounded_Wait\<close>: together, a guarded call comes back;
    \<open>Call_Time\<close>: and in time, by the deadline of its caller or within its guards and waits.
  \<^item> \<open>Hook\<close> (\<^verbatim>\<open>hook*.go\<close>, \<^verbatim>\<open>apply.go\<close>): hooks, their isolation, logs and metrics, options.
  \<^item> \<open>Codec\<close>, \<open>Registry\<close>, \<open>Framer\<close> (\<^verbatim>\<open>codec/\<close>): the built-in codecs, codecs by name, frames over any
    reader and writer that keep the contracts \<open>byte_source\<close> and \<open>byte_sink\<close>.
  \<^item> \<open>Client_Call\<close>: the shape of every client's call as the locale \<open>client_calls\<close>, interpreted by dialling
    over TCP and UDP, listening, and executing a request. \<open>Net_Conn\<close>: connections, guarded input and
    output (locales \<open>guarded_source\<close>, \<open>guarded_sink\<close>), a connection in memory that interprets them.
  \<^item> \<open>Tcp\<close>, \<open>Tcp_Properties\<close> (\<^verbatim>\<open>tcp/\<close>): values over a guarded stream, dialling, what is lost.
    \<open>Tcp_Queue\<close>: the abstract specification of a link, a queue of values for each direction, and that two
    codec connections at its ends refine it (locale \<open>tcp_duplex\<close>). \<open>Tcp_Session\<close>:
    engine, dial, guard, framer and codec together, from the dial to the values.
  \<^item> \<open>Udp\<close>, \<open>Udp_Properties\<close> (\<^verbatim>\<open>udp/\<close>): one value a datagram, dialling and listening. \<open>Net_Events\<close>: each
    call of a guarded connection is one event.
  \<^item> \<open>Http\<close>, \<open>Http_Properties\<close> (\<^verbatim>\<open>http/\<close>): configuration, addresses, requests, how many a call sends.
  \<^item> \<open>Call_Error\<close>, \<open>Error_Report\<close>: what the error of a failed call tells, as the locale \<open>kinded_calls\<close> over
    \<open>client_calls\<close>, interpreted by the same four calls; where the kind of an error misses a timeout.
  \<^item> \<open>Preset\<close>, \<open>Preset_Properties\<close> (\<^verbatim>\<open>preset/\<close>): the three presets over all of the above.
    \<open>Preset_Time\<close>: how long their calls take, at their defaults too.
  \<^item> \<open>Api\<close> (\<^verbatim>\<open>capability.go\<close>, \<^verbatim>\<open>api.go\<close> of each package): the interfaces, and what a holder of a \<open>Dialer\<close>
    relies on (locale \<open>dial_capability\<close>). \<open>Go_Programs\<close>: deferred calls, output, lines read with \<open>bufio\<close>.
  \<^item> \<open>Examples\<close>, \<open>Examples_Properties\<close> (\<^verbatim>\<open>examples/\<close>): the three programs run through the whole stack; the two
    ends of the TCP one agree on what they exchange, and what is opened is closed.

  Definitions have the names of the source, with \<open>tcp_\<close>, \<open>udp_\<close> or \<open>http_\<close> before what more than one package
  declares. A struct is a record, a nil pointer or interface \<open>None\<close>, an error result a
  \<open>go_error option\<close>, a method that can block or panic a \<open>prog\<close>.

  \<^bold>\<open>Loops and bounds.\<close> No fuel: the retry loop, \<open>writeFull\<close>, \<open>io.ReadFull\<close> and \<open>ReadString\<close> are
  \<^theory_text>\<open>partial_function (option)\<close>, and that they return is proved where they do: the
  retry loop when the policies stop asking, a call with a deadline or behind a guard, a dial of a preset, the
  transfer of a frame, the reading of a line. A caller that waits for a slot for ever is \<open>None\<close> too.
  Frame lengths are 32-bit words. Durations, instants and the attempt number are unbounded integers; the
  one addition whose overflow is in reach of a caller, retries plus one, wraps (\<open>wrap_int\<close>).
  Many callers of one limit are the step relation \<open>caller_step\<close> over the same \<open>limit_select\<close>.

  \<^bold>\<open>Parameters,\<close> for what is not in the repository, with the laws used of them as hypotheses that a
  concrete instance satisfies: \<^verbatim>\<open>oops\<close> (\<open>lib\<close>, \<open>oops_ok\<close>), \<open>option.Apply\<close> (\<open>oapply_ok\<close>), the concurrent map
  (\<open>cmap_ok\<close>), floating point and the random source (\<open>float64\<close>; its rounding laws are the locale \<open>go_float\<close>, its
  instance \<open>binary64\<close>), which of two ready cases a \<^verbatim>\<open>select\<close> takes (\<open>choices\<close>), \<^verbatim>\<open>encoding/json\<close> and the methods of foreign
  types (\<open>runtime\<close>), dialers and listeners (\<open>net\<close>, \<open>packet_net\<close>), \<^verbatim>\<open>resty\<close> (\<open>resty\<close>),
  \<open>url.ParseRequestURI\<close>, the logger and the metrics; for the examples, \<open>net.Listener\<close> (\<open>listener\<close>), the test
  server (\<open>test_server\<close>), \<open>fmt\<close> and \<open>log\<close> (\<open>stdio\<close>) and when a goroutine runs (\<open>go_chan\<close>).

  \<^bold>\<open>Not modelled.\<close> Floating point operations fused by the compiler; a slot given back by another caller
  during the wait of \<open>limitBefore\<close> (only \<open>caller_step\<close> has several callers); a nil \<^verbatim>\<open>*net.DNSError\<close> or
  \<^verbatim>\<open>*net.OpError\<close>; the interleaving of the two goroutines of an example, whose ends are run each by itself against
  what the other has sent. Case folding and white space are those of ASCII. What a reused \<^verbatim>\<open>resty\<close> request
  keeps between attempts is left to its methods. Of the module there is no other code.
\<close>

end
